(* ===== verification/Prelude.thy ===== *)
theory Prelude
  imports Main "HOL-Library.Word"
begin

text \<open>
  Shared vocabulary of the development: the machine integers of the source
  (\<open>protlib_types.h\<close> names them \<open>uint8\<close>, \<open>uint16\<close> and \<open>uint32\<close>), the ways in which a C++
  call can end (a value, a thrown exception, an abnormal stop of the process), the theorem
  collections that the component theories fill, and generic list facts.

  A call of the source is a function from the objects it may change to an \<open>outcome\<close>
  paired with the changed objects: what was written before an exception is thrown stays written.
\<close>

type_synonym u8 = "8 word"
type_synonym u16 = "16 word"
type_synonym u32 = "32 word"

text \<open>
  Abnormal stops: a failed \<open>assert\<close>, a call through a null pointer, and the other
  kinds of undefined behaviour that occur in the source (moving an iterator past the start of
  a container, falling off the end of a function that must return a value,
  deleting an object twice, using a deleted object, writing past the end of an array), and an exception that
  leaves a function declared not to throw.
\<close>

datatype fault = Assert_failed | Null_deref | Iterator_past_begin | Missing_return | Double_free
  | Use_after_free | Buffer_overflow | Unexpected_exception

datatype ('e, 'a) outcome = Ok 'a | Throw 'e | Crash fault

named_theorems wp \<open>rewrite rules that push a postcondition through a call\<close>
named_theorems wp_intro \<open>rules that replace a service by its contract under a postcondition\<close>

text \<open>
  Sequencing: \<open>call\<close> continues with the value and the state of a finished call and
  passes an exception or a stop on.
\<close>

definition call :: "('e, 'a) outcome \<times> 's \<Rightarrow> ('a \<Rightarrow> 's \<Rightarrow> ('e, 'b) outcome \<times> 's)
    \<Rightarrow> ('e, 'b) outcome \<times> 's" where
  "call r k = (case r of
       (Ok a, s) \<Rightarrow> k a s
     | (Throw e, s) \<Rightarrow> (Throw e, s)
     | (Crash f, s) \<Rightarrow> (Crash f, s))"

text \<open>\<open>deref p f s k\<close> reads through a pointer that may be null; \<open>f\<close> is the fault when it is.\<close>

definition deref :: "'a option \<Rightarrow> fault \<Rightarrow> 's \<Rightarrow> ('a \<Rightarrow> ('e, 'b) outcome \<times> 's)
    \<Rightarrow> ('e, 'b) outcome \<times> 's" where
  "deref p f s k = (case p of None \<Rightarrow> (Crash f, s) | Some a \<Rightarrow> k a)"

definition crashed :: "('e, 'a) outcome \<Rightarrow> bool" where
  "crashed r = (case r of Crash _ \<Rightarrow> True | _ \<Rightarrow> False)"

lemma call_simps [simp]:
  "call (Ok a, s) k = k a s"
  "call (Throw e, s) k = (Throw e, s)"
  "call (Crash f, s) k = (Crash f, s)"
  by (simp_all add: call_def)

lemma deref_simps [simp]:
  "deref None f s k = (Crash f, s)"
  "deref (Some a) f s k = k a"
  by (simp_all add: deref_def)

lemma crashed_simps [simp]:
  "crashed (Crash f)" "\<not> crashed (Ok a)" "\<not> crashed (Throw e)"
  by (simp_all add: crashed_def)

lemma call_cases:
  obtains (ok) a s where "r = (Ok a, s)" | (throw) e s where "r = (Throw e, s)"
    | (crash) f s where "r = (Crash f, s)"
  by (metis outcome.exhaust surj_pair)

lemma call_split:
  "P (call r k) \<longleftrightarrow>
     (\<forall>a s. r = (Ok a, s) \<longrightarrow> P (k a s)) \<and>
     (\<forall>e s. r = (Throw e, s) \<longrightarrow> P (Throw e, s)) \<and>
     (\<forall>f s. r = (Crash f, s) \<longrightarrow> P (Crash f, s))"
  by (cases r rule: call_cases) auto

lemma call_split_asm:
  "P (call r k) \<longleftrightarrow>
     \<not> ((\<exists>a s. r = (Ok a, s) \<and> \<not> P (k a s)) \<or>
        (\<exists>e s. r = (Throw e, s) \<and> \<not> P (Throw e, s)) \<or>
        (\<exists>f s. r = (Crash f, s) \<and> \<not> P (Crash f, s)))"
  by (cases r rule: call_cases) auto

lemmas call_splits = call_split call_split_asm

lemma deref_split:
  "P (deref p f s k) \<longleftrightarrow> (p = None \<longrightarrow> P (Crash f, s)) \<and> (\<forall>a. p = Some a \<longrightarrow> P (k a))"
  by (cases p) auto

lemma deref_split_asm:
  "P (deref p f s k) \<longleftrightarrow> \<not> ((p = None \<and> \<not> P (Crash f, s)) \<or> (\<exists>a. p = Some a \<and> \<not> P (k a)))"
  by (cases p) auto

lemmas deref_splits = deref_split deref_split_asm

text \<open>Counting up to a 32-bit bound does not wrap.\<close>

lemma unat_inc: "(a :: u32) < b \<Longrightarrow> unat (a + 1) = unat a + 1"
proof -
  assume "a < b"
  moreover have "unat b < 4294967296" using unsigned_less [of b] by simp
  ultimately show ?thesis by (simp add: unat_word_ariths(1) word_less_nat_alt)
qed

section \<open>Postconditions\<close>

text \<open>
  \<open>post Q E F r\<close> says that a call that ended as \<open>r\<close> satisfies \<open>Q\<close> when it returned, \<open>E\<close> when it
  threw and \<open>F\<close> when it stopped abnormally. The rules of the collection \<open>wp\<close> compute what
  has to hold before; the proofs about the session handlers are rewriting with them.
\<close>

definition post :: "('a \<Rightarrow> 's \<Rightarrow> bool) \<Rightarrow> ('e \<Rightarrow> 's \<Rightarrow> bool) \<Rightarrow> (fault \<Rightarrow> 's \<Rightarrow> bool)
    \<Rightarrow> ('e, 'a) outcome \<times> 's \<Rightarrow> bool" where
  "post Q E F r = (case r of
       (Ok a, s) \<Rightarrow> Q a s
     | (Throw e, s) \<Rightarrow> E e s
     | (Crash f, s) \<Rightarrow> F f s)"

lemma post_simps [simp]:
  "post Q E F (Ok a, s) = Q a s" "post Q E F (Throw e, s) = E e s" "post Q E F (Crash f, s) = F f s"
  by (simp_all add: post_def)

lemma post_call [wp]: "post Q E F (call r k) = post (\<lambda>a s. post Q E F (k a s)) E F r"
  by (cases r rule: call_cases) simp_all

lemma post_deref [wp]:
  "post Q E F (deref p f s k) \<longleftrightarrow>
     (p = None \<longrightarrow> F f s) \<and> (\<forall>a. p = Some a \<longrightarrow> post Q E F (k a))"
  by (cases p) simp_all

lemma post_if [wp]: "post Q E F (if b then r else r') = (if b then post Q E F r else post Q E F r')"
  by simp

lemma post_option [wp]:
  "post Q E F (case p of None \<Rightarrow> r | Some a \<Rightarrow> k a) \<longleftrightarrow>
     (p = None \<longrightarrow> post Q E F r) \<and> (\<forall>a. p = Some a \<longrightarrow> post Q E F (k a))"
  by (cases p) simp_all

lemma post_prod [wp]: "post Q E F (case p of (a, b) \<Rightarrow> k a b) = post Q E F (k (fst p) (snd p))"
  by (cases p) simp

lemma post_mono:
  assumes "post Q E F r" "\<And>a s. Q a s \<Longrightarrow> Q' a s" "\<And>e s. E e s \<Longrightarrow> E' e s" "\<And>f s. F f s \<Longrightarrow> F' f s"
  shows "post Q' E' F' r"
  using assms by (cases r rule: call_cases) simp_all

lemma post_Ok: "post Q E F r \<Longrightarrow> r = (Ok a, s) \<Longrightarrow> Q a s"
  by simp

lemma post_Throw: "post Q E F r \<Longrightarrow> r = (Throw e, s) \<Longrightarrow> E e s"
  by simp

lemma post_Crash: "post Q E F r \<Longrightarrow> r = (Crash f, s) \<Longrightarrow> F f s"
  by simp

lemma post_returns:
  assumes "post Q (\<lambda>_ _. False) (\<lambda>_ _. False) r"
  obtains a s where "r = (Ok a, s)" "Q a s"
  using assms by (cases r rule: call_cases) auto

lemma post_state: "post (\<lambda>_. I) (\<lambda>_. I) (\<lambda>_. I) r \<longleftrightarrow> I (snd r)"
  by (cases r rule: call_cases) simp_all

lemma crashed_post: "crashed (fst r) \<longleftrightarrow> \<not> post (\<lambda>_ _. True) (\<lambda>_ _. True) (\<lambda>_ _. False) r"
  by (cases r rule: call_cases) simp_all

abbreviation no_crash :: "('e, 'a) outcome \<times> 's \<Rightarrow> bool" where
  "no_crash \<equiv> post (\<lambda>_ _. True) (\<lambda>_ _. True) (\<lambda>_ _. False)"

end
