(* ===== verification/Std_Map.thy ===== *)
theory Std_Map
  imports Prelude "HOL-Library.Multiset"
begin

text \<open>
  The part of \<open>std::map\<close> that the source uses, as a list of pairs in iteration order.
  All operations are driven by the map's comparison \<open>lt\<close> alone, as in the standard
  library: two keys are the same key when neither is less than the other, whether or not the
  key class's \<open>operator==\<close> agrees, and \<open>m[k] = v\<close> on a present key keeps the old key.

  The locale \<open>weak_order\<close> is the requirement the standard puts on the comparison
  (a strict weak order); the laws of the operations are proved in it once. The component
  theories interpret it for the key classes of the source.
\<close>

type_synonym ('k, 'v) std_map = "('k \<times> 'v) list"

fun map_find :: "('k \<Rightarrow> 'k \<Rightarrow> bool) \<Rightarrow> 'k \<Rightarrow> ('k, 'v) std_map \<Rightarrow> 'v option" where
  "map_find lt k [] = None"
| "map_find lt k ((a, v) # m) =
     (if lt a k then map_find lt k m else if lt k a then None else Some v)"

fun map_insert :: "('k \<Rightarrow> 'k \<Rightarrow> bool) \<Rightarrow> 'k \<Rightarrow> 'v \<Rightarrow> ('k, 'v) std_map \<Rightarrow> ('k, 'v) std_map" where
  "map_insert lt k v [] = [(k, v)]"
| "map_insert lt k v ((a, b) # m) =
     (if lt a k then (a, b) # map_insert lt k v m
      else if lt k a then (k, v) # (a, b) # m
      else (a, v) # m)"

fun map_erase :: "('k \<Rightarrow> 'k \<Rightarrow> bool) \<Rightarrow> 'k \<Rightarrow> ('k, 'v) std_map \<Rightarrow> ('k, 'v) std_map" where
  "map_erase lt k [] = []"
| "map_erase lt k ((a, b) # m) =
     (if lt a k then (a, b) # map_erase lt k m
      else if lt k a then (a, b) # m
      else m)"

definition map_ordered :: "('k \<Rightarrow> 'k \<Rightarrow> bool) \<Rightarrow> ('k, 'v) std_map \<Rightarrow> bool" where
  "map_ordered lt m = sorted_wrt lt (map fst m)"

text \<open>Rebuilding a map by inserting its entries in iteration order, as the copy constructors do.\<close>

definition map_rebuild :: "('k \<Rightarrow> 'k \<Rightarrow> bool) \<Rightarrow> ('k, 'v) std_map \<Rightarrow> ('k, 'v) std_map" where
  "map_rebuild lt m = fold (\<lambda>(k, v) acc. map_insert lt k v acc) m []"

lemma map_ordered_Nil [simp]: "map_ordered lt []"
  by (simp add: map_ordered_def)

lemma map_ordered_Cons:
  "map_ordered lt ((k, v) # m) \<longleftrightarrow> (\<forall>a \<in> fst ` set m. lt k a) \<and> map_ordered lt m"
  by (simp add: map_ordered_def)

lemma length_map_insert_le: "length (map_insert lt k v m) \<le> Suc (length m)"
  by (induction lt k v m rule: map_insert.induct) auto

lemma map_insert_not_Nil [simp]: "map_insert lt k v m \<noteq> []"
  by (induction lt k v m rule: map_insert.induct) auto

lemma set_map_insert: "set (map_insert lt k v m) \<subseteq> insert (k, v) (set m) \<union> fst ` set m \<times> {v}"
  by (induction lt k v m rule: map_insert.induct) auto

lemma snd_set_map_insert: "snd ` set (map_insert lt k v m) \<subseteq> insert v (snd ` set m)"
  by (induction lt k v m rule: map_insert.induct) auto

lemma fst_set_map_insert: "fst ` set (map_insert lt k v m) \<subseteq> insert k (fst ` set m)"
  by (induction lt k v m rule: map_insert.induct) auto

lemma set_map_erase: "set (map_erase lt k m) \<subseteq> set m"
  by (induction lt k m rule: map_erase.induct) auto

lemma map_find_Some_in: "map_find lt k m = Some v \<Longrightarrow> v \<in> snd ` set m"
  by (induction lt k m rule: map_find.induct) (auto split: if_splits)

lemma map_find_present:
  "map_find lt k m = Some v \<Longrightarrow> \<exists>a. (a, v) \<in> set m \<and> \<not> lt a k \<and> \<not> lt k a"
  by (induction lt k m rule: map_find.induct) (auto split: if_splits)

lemma filter_insert_other:
  assumes "\<forall>a \<in> fst ` set m. \<not> lt a k \<longrightarrow> \<not> lt k a \<longrightarrow> \<not> P a" "\<not> P k"
  shows "filter (\<lambda>(a, _). P a) (map_insert lt k v m) = filter (\<lambda>(a, _). P a) m"
  using assms by (induction lt k v m rule: map_insert.induct) auto

text \<open>A key that is unlike all present ones adds an entry.\<close>

lemma mset_insert_new:
  "\<forall>a \<in> fst ` set m. lt a k \<or> lt k a \<Longrightarrow> mset (map_insert lt k v m) = add_mset (k, v) (mset m)"
  by (induction lt k v m rule: map_insert.induct) auto

locale weak_order =
  fixes lt :: "'k \<Rightarrow> 'k \<Rightarrow> bool"
  assumes lt_irrefl: "\<not> lt a a"
    and lt_trans: "lt a b \<Longrightarrow> lt b c \<Longrightarrow> lt a c"
    and incomp_trans: "\<not> lt a b \<Longrightarrow> \<not> lt b c \<Longrightarrow> \<not> lt a c"
begin

lemma lt_asym: "lt a b \<Longrightarrow> \<not> lt b a"
  using lt_irrefl lt_trans by blast

lemma lt_ge_trans: "lt a b \<Longrightarrow> \<not> lt c b \<Longrightarrow> lt a c"
  using incomp_trans by blast

lemma ge_lt_trans: "\<not> lt b a \<Longrightarrow> lt b c \<Longrightarrow> lt a c"
  using incomp_trans by blast

lemma ordered_insert: "map_ordered lt m \<Longrightarrow> map_ordered lt (map_insert lt k v m)"
proof (induction m)
  case Nil
  then show ?case by (simp add: map_ordered_def)
next
  case (Cons p m)
  obtain a b where p: "p = (a, b)" by fastforce
  have sub: "fst ` set (map_insert lt k v m) \<subseteq> insert k (fst ` set m)"
    by (rule fst_set_map_insert)
  have ord: "map_ordered lt m" and below: "\<forall>x \<in> fst ` set m. lt a x"
    using Cons.prems by (simp_all add: p map_ordered_Cons)
  have after: "\<forall>x \<in> fst ` set m. lt k x" if "lt k a"
    using that below lt_trans by blast
  have "\<forall>x \<in> fst ` set (map_insert lt k v m). lt a x" if "lt a k"
    using that below sub by blast
  with Cons.IH [OF ord] ord below after show ?case
    by (simp add: p map_ordered_Cons)
qed

lemma ordered_erase: "map_ordered lt m \<Longrightarrow> map_ordered lt (map_erase lt k m)"
proof (induction m)
  case Nil
  then show ?case by simp
next
  case (Cons p m)
  obtain a b where p: "p = (a, b)" by fastforce
  have sub: "fst ` set (map_erase lt k m) \<subseteq> fst ` set m"
    using set_map_erase [of lt k m] by blast
  have ord: "map_ordered lt m" and below: "\<forall>x \<in> fst ` set m. lt a x"
    using Cons.prems by (simp_all add: p map_ordered_Cons)
  have "\<forall>x \<in> fst ` set (map_erase lt k m). lt a x" using below sub by blast
  with Cons.IH [OF ord] ord below show ?case by (simp add: p map_ordered_Cons)
qed

lemma find_none_below: "\<forall>a \<in> fst ` set m. lt k a \<Longrightarrow> map_find lt k m = None"
  by (cases m) (auto simp: lt_asym)

lemma find_insert:
  "map_ordered lt m \<Longrightarrow>
   map_find lt k' (map_insert lt k v m) =
     (if \<not> lt k k' \<and> \<not> lt k' k then Some v else map_find lt k' m)"
proof (induction m)
  case Nil
  then show ?case by simp
next
  case (Cons p m)
  obtain a b where p: "p = (a, b)" by fastforce
  with Cons.prems have ord: "map_ordered lt m" and below: "\<forall>x \<in> fst ` set m. lt a x"
    by (auto simp: map_ordered_Cons)
  note IH = Cons.IH [OF ord]
  consider (above) "lt a k" | (before) "\<not> lt a k" "lt k a" | (same) "\<not> lt a k" "\<not> lt k a"
    by blast
  then show ?case
  proof cases
    case above
    have "lt k' k" if "\<not> lt a k'"
      using that above ge_lt_trans by blast
    with above IH show ?thesis by (cases "lt a k'"; simp add: p)
  next
    case before
    have "lt k k'" if "lt a k'" using that before lt_trans by blast
    moreover have "lt k' a" if "\<not> lt k k'" using that before ge_lt_trans by blast
    moreover have "\<not> lt a k'" if "lt k' a" using that lt_asym by blast
    moreover have "\<not> lt k' k" if "lt k k'" using that lt_asym by blast
    ultimately show ?thesis using before by (simp add: p)
  next
    case same
    have "lt k k' = lt a k'" using same ge_lt_trans by blast
    moreover have "lt k' k = lt k' a" using same lt_ge_trans by blast
    ultimately show ?thesis using same by (simp add: p)
  qed
qed

lemma find_erase:
  "map_ordered lt m \<Longrightarrow>
   map_find lt k' (map_erase lt k m) =
     (if \<not> lt k k' \<and> \<not> lt k' k then None else map_find lt k' m)"
proof (induction m)
  case Nil
  then show ?case by simp
next
  case (Cons p m)
  obtain a b where p: "p = (a, b)" by fastforce
  with Cons.prems have ord: "map_ordered lt m" and below: "\<forall>x \<in> fst ` set m. lt a x"
    by (auto simp: map_ordered_Cons)
  note IH = Cons.IH [OF ord]
  have after: "map_find lt k' m = None" if "\<not> lt a k'"
    using that below ge_lt_trans by (intro find_none_below) blast
  consider (above) "lt a k" | (before) "\<not> lt a k" "lt k a" | (same) "\<not> lt a k" "\<not> lt k a"
    by blast
  then show ?case
  proof cases
    case above
    have "lt k' k" if "\<not> lt a k'"
      using that above ge_lt_trans by blast
    with above IH show ?thesis by (cases "lt a k'"; simp add: p)
  next
    case before
    have "lt k' a" if "\<not> lt k k'" using that before ge_lt_trans by blast
    moreover have "\<not> lt a k'" if "lt k' a" using that lt_asym by blast
    ultimately show ?thesis using before by (simp add: p)
  next
    case same
    have "lt k k' = lt a k'" using same ge_lt_trans by blast
    moreover have "lt k' k = lt k' a" using same lt_ge_trans by blast
    moreover have "\<not> lt a k'" if "lt k' a" using that lt_asym by blast
    ultimately show ?thesis using same after by (cases "lt a k'"; simp add: p)
  qed
qed

lemma insert_append: "\<forall>a \<in> fst ` set m. lt a k \<Longrightarrow> map_insert lt k v m = m @ [(k, v)]"
  by (induction m) auto

lemma length_insert_new:
  "map_ordered lt m \<Longrightarrow> map_find lt k m = None \<Longrightarrow> length (map_insert lt k v m) = Suc (length m)"
proof (induction m)
  case Nil
  then show ?case by simp
next
  case (Cons p m)
  then show ?case by (cases p) (auto simp: map_ordered_Cons split: if_splits)
qed

lemma find_member:
  "map_ordered lt m \<Longrightarrow> (k, v) \<in> set m \<Longrightarrow> map_find lt k m = Some v"
proof (induction m)
  case Nil
  then show ?case by simp
next
  case (Cons p m)
  obtain a b where p: "p = (a, b)" by fastforce
  show ?case
  proof (cases "(k, v) = p")
    case True
    with p lt_irrefl show ?thesis by auto
  next
    case False
    with Cons.prems have "(k, v) \<in> set m" by simp
    with Cons.prems have "lt a k" by (force simp: p map_ordered_Cons)
    with Cons \<open>(k, v) \<in> set m\<close> show ?thesis by (simp add: p map_ordered_Cons)
  qed
qed

lemma erase_nth:
  "map_ordered lt m \<Longrightarrow> i < length m \<Longrightarrow> map_erase lt (fst (m ! i)) m = take i m @ drop (Suc i) m"
proof (induction m arbitrary: i)
  case Nil
  then show ?case by simp
next
  case (Cons p m)
  obtain a b where p: "p = (a, b)" by fastforce
  show ?case
  proof (cases i)
    case 0
    then show ?thesis using lt_irrefl by (simp add: p)
  next
    case (Suc j)
    then have "m ! j \<in> set m" using Cons.prems by simp
    then have "lt a (fst (m ! j))" using Cons.prems by (simp add: p map_ordered_Cons)
    then show ?thesis using Cons Suc by (simp add: p map_ordered_Cons)
  qed
qed

lemma rebuild_prefix:
  "map_ordered lt (acc @ m) \<Longrightarrow> fold (\<lambda>(k, v) acc. map_insert lt k v acc) m acc = acc @ m"
proof (induction m arbitrary: acc)
  case Nil
  then show ?case by simp
next
  case (Cons p m)
  obtain k v where p: "p = (k, v)" by fastforce
  have "\<forall>a \<in> fst ` set acc. lt a k"
    using Cons.prems by (auto simp: p map_ordered_def sorted_wrt_append)
  then have "map_insert lt k v acc = acc @ [(k, v)]" by (rule insert_append)
  moreover have "map_ordered lt ((acc @ [(k, v)]) @ m)" using Cons.prems by (simp add: p)
  ultimately show ?case using Cons.IH by (simp add: p)
qed

lemma rebuild_id: "map_ordered lt m \<Longrightarrow> map_rebuild lt m = m"
  using rebuild_prefix [of "[]" m] by (simp add: map_rebuild_def)

lemma ordered_rebuild: "map_ordered lt (map_rebuild lt m)"
proof -
  have "map_ordered lt acc \<Longrightarrow>
    map_ordered lt (fold (\<lambda>(k, v) acc. map_insert lt k v acc) m acc)" for acc
    by (induction m arbitrary: acc) (auto intro: ordered_insert)
  then show ?thesis by (simp add: map_rebuild_def)
qed

end

text \<open>A linear order of the keys: the map is then a function of the keys themselves.\<close>

locale linear_keys = weak_order +
  assumes lt_total: "lt a b \<or> a = b \<or> lt b a"
begin

lemma insert_lookup:
  "map_ordered lt m \<Longrightarrow> map_find lt k' (map_insert lt k v m) = (if k' = k then Some v else map_find lt k' m)"
  using find_insert [of m k' k v] lt_total [of k k'] lt_irrefl by auto

lemma lookup_iff: "map_ordered lt m \<Longrightarrow> map_find lt k m = Some v \<longleftrightarrow> (k, v) \<in> set m"
  using map_find_present [of lt k m v] find_member [of m k v] lt_total by metis

lemma lookup_none_iff: "map_ordered lt m \<Longrightarrow> map_find lt k m = None \<longleftrightarrow> k \<notin> fst ` set m"
  by (metis (no_types, lifting) fst_conv image_iff lookup_iff not_None_eq prod.collapse)

lemma keys_insert:
  assumes "map_ordered lt m"
  shows "fst ` set (map_insert lt k v m) = insert k (fst ` set m)"
proof -
  have "k' \<in> fst ` set (map_insert lt k v m) \<longleftrightarrow> k' = k \<or> k' \<in> fst ` set m" for k'
    using lookup_none_iff [OF ordered_insert [OF assms], of k' k v] lookup_none_iff [OF assms, of k']
      insert_lookup [OF assms, of k' k v] by (metis option.distinct(1))
  then show ?thesis by blast
qed

lemma ordered_keys_distinct: "map_ordered lt m \<Longrightarrow> distinct (map fst m)"
proof (induction m)
  case (Cons x m)
  then show ?case using lt_irrefl by (cases x) (auto simp: map_ordered_Cons)
qed simp

end

lemma linear_keys_less: "linear_keys ((<) :: 'a::linorder \<Rightarrow> 'a \<Rightarrow> bool)"
  by unfold_locales auto

end
