(* ===== verification/Ie_Store.thy ===== *)
theory Ie_Store
  imports Std_Map
begin

text \<open>
  The object container of every message: \<open>ie_store\<close> (\<open>src/src/msg/ie_store.cpp\<close>), a
  \<open>std::map\<close> from \<open>ie_object_key\<close> (\<open>src/include/msg/ie_object_key.h\<close>) to information
  elements. The element type is a parameter here; \<open>Anslp_Message\<close> fixes it.

  The key class orders keys by the 32-bit sum of object type and sequence number, so the map
  identifies keys with equal sums. The last part of the theory shows that this does no harm on the
  keys that the message classes use (\<open>registered_key\<close>) and states what a message
  may rely on.
\<close>

unbundle bit_operations_syntax

record ie_object_key =
  object_type :: u32
  seq_nbr :: u32

definition mk_key :: "u32 \<Rightarrow> u32 \<Rightarrow> ie_object_key" where
  "mk_key t n = \<lparr>object_type = t, seq_nbr = n\<rparr>"

definition ie_object_key_eq :: "ie_object_key \<Rightarrow> ie_object_key \<Rightarrow> bool" where
  "ie_object_key_eq a b = (object_type a = object_type b \<and> seq_nbr a = seq_nbr b)"

definition ie_object_key_neq :: "ie_object_key \<Rightarrow> ie_object_key \<Rightarrow> bool" where
  "ie_object_key_neq a b = (object_type a \<noteq> object_type b \<or> seq_nbr a \<noteq> seq_nbr b)"

definition ie_object_key_lt :: "ie_object_key \<Rightarrow> ie_object_key \<Rightarrow> bool" where
  "ie_object_key_lt a b = (object_type a + seq_nbr a < object_type b + seq_nbr b)"

type_synonym 'ie ie_store = "(ie_object_key, 'ie) std_map"

definition ie_store_size :: "'ie ie_store \<Rightarrow> nat" where
  "ie_store_size st = length st"

definition ie_store_get :: "ie_object_key \<Rightarrow> 'ie ie_store \<Rightarrow> 'ie option" where
  "ie_store_get k st = map_find ie_object_key_lt k st"

text \<open>A null element is ignored; an old element under the same key is replaced.\<close>

definition ie_store_set :: "ie_object_key \<Rightarrow> 'ie option \<Rightarrow> 'ie ie_store \<Rightarrow> 'ie ie_store" where
  "ie_store_set k ie st = (case ie of None \<Rightarrow> st | Some x \<Rightarrow> map_insert ie_object_key_lt k x st)"

definition ie_store_remove :: "ie_object_key \<Rightarrow> 'ie ie_store \<Rightarrow> 'ie option \<times> 'ie ie_store" where
  "ie_store_remove k st = (map_find ie_object_key_lt k st, map_erase ie_object_key_lt k st)"

text \<open>The copy constructor sets a copy of every element, in iteration order; \<open>cp\<close> is the elements' virtual \<open>copy\<close>.\<close>

definition ie_store_copy :: "('ie \<Rightarrow> 'ie) \<Rightarrow> 'ie ie_store \<Rightarrow> 'ie ie_store" where
  "ie_store_copy cp other = fold (\<lambda>(k, ie) st. ie_store_set k (Some (cp ie)) st) other []"

text \<open>\<open>neq\<close> is the elements' virtual \<open>operator!=\<close>.\<close>

definition ie_store_eq :: "('ie \<Rightarrow> 'ie \<Rightarrow> bool) \<Rightarrow> 'ie ie_store \<Rightarrow> 'ie ie_store \<Rightarrow> bool" where
  "ie_store_eq neq st other =
     (if ie_store_size st \<noteq> ie_store_size other then False
      else list_all (\<lambda>(k, obj). case ie_store_get k other of
             None \<Rightarrow> False
           | Some other_obj \<Rightarrow> \<not> neq obj other_obj) st)"

definition getMaxSequence :: "u32 \<Rightarrow> 'ie ie_store \<Rightarrow> u32" where
  "getMaxSequence t st =
     fold (\<lambda>(k, _) result.
        if object_type k = t \<and> result \<le> seq_nbr k then seq_nbr k else result) st 0"

interpretation key_order: weak_order ie_object_key_lt
  by unfold_locales (auto simp: ie_object_key_lt_def)

abbreviation ie_store_ordered :: "'ie ie_store \<Rightarrow> bool" where
  "ie_store_ordered \<equiv> map_ordered ie_object_key_lt"

text \<open>
  The object types of the protocol: one key with sequence number 1 for each of the types
  \<open>0xF4\<close> to \<open>0xF8\<close> (stored at most once), and consecutive numbers for the mspec type
  \<open>0xF9\<close>. A key is registered when it is of this form and its sum does not wrap.
\<close>

definition unique_types :: "u32 list" where
  "unique_types = [0xF4, 0xF5, 0xF6, 0xF7, 0xF8]"

definition registered_key :: "ie_object_key \<Rightarrow> bool" where
  "registered_key k =
     (object_type k \<in> set unique_types \<and> seq_nbr k = 1 \<or>
      object_type k = 0xF9 \<and> 1 \<le> seq_nbr k \<and> seq_nbr k < 0xFFFFFF07)"

lemma mk_key_simps [simp]:
  "object_type (mk_key t n) = t" "seq_nbr (mk_key t n) = n"
  "mk_key t n = mk_key t' n' \<longleftrightarrow> t = t' \<and> n = n'"
  by (simp_all add: mk_key_def)

lemma mk_key_surjective: "mk_key (object_type k) (seq_nbr k) = k"
  by (cases k) (simp add: mk_key_def)

lemma ie_object_key_eq_iff [simp]: "ie_object_key_eq a b \<longleftrightarrow> a = b"
  by (cases a; cases b) (auto simp: ie_object_key_eq_def)

lemma ie_object_key_neq_iff [simp]: "ie_object_key_neq a b \<longleftrightarrow> a \<noteq> b"
  by (cases a; cases b) (auto simp: ie_object_key_neq_def)

lemma mspec_sum: "n < 0xFFFFFF07 \<Longrightarrow> unat (0xF9 + n :: u32) = 0xF9 + unat n"
  by (simp add: unat_word_ariths(1) word_less_nat_alt)

lemma registered_key_cases:
  assumes "registered_key k"
  obtains (unique) t where "t \<in> set unique_types" "k = mk_key t 1"
        | (mspec) n where "1 \<le> n" "n < 0xFFFFFF07" "k = mk_key 0xF9 n"
  using assms mk_key_surjective [of k] by (auto simp: registered_key_def)

lemma unique_sum_below:
  assumes "t \<in> set unique_types" "1 \<le> n" "n < 0xFFFFFF07"
  shows "t + 1 < 0xF9 + n"
proof -
  have "unat (t + 1) \<le> 0xF9" using assms(1) by (auto simp: unique_types_def)
  moreover have "1 \<le> unat n" using assms(2) by (simp add: word_le_nat_alt)
  ultimately show ?thesis
    using mspec_sum [OF assms(3)] by (simp only: word_less_nat_alt)
qed

lemma registered_sum_inj:
  assumes a: "registered_key a" and b: "registered_key b"
    and sum: "object_type a + seq_nbr a = object_type b + seq_nbr b"
  shows "a = b"
  using a
proof (cases rule: registered_key_cases)
  case a_unique: (unique s)
  from b show ?thesis
  proof (cases rule: registered_key_cases)
    case (unique t)
    then show ?thesis using a_unique sum by simp
  next
    case (mspec n)
    then show ?thesis using a_unique sum unique_sum_below [of s n] by simp
  qed
next
  case a_mspec: (mspec m)
  from b show ?thesis
  proof (cases rule: registered_key_cases)
    case (unique t)
    then have "0xF9 + m = t + 1" using a_mspec sum by (simp only: mk_key_simps)
    moreover have "t + 1 < 0xF9 + m" using a_mspec unique unique_sum_below by blast
    ultimately show ?thesis by (metis less_irrefl)
  next
    case (mspec n)
    then show ?thesis using a_mspec sum by simp
  qed
qed

lemma registered_equiv:
  assumes "registered_key a" "registered_key b"
  shows "(\<not> ie_object_key_lt a b \<and> \<not> ie_object_key_lt b a) \<longleftrightarrow> a = b"
  using registered_sum_inj [OF assms] by (auto simp: ie_object_key_lt_def)

text \<open>A store as the message classes build it.\<close>

definition registered_store :: "'ie ie_store \<Rightarrow> bool" where
  "registered_store st = (ie_store_ordered st \<and> (\<forall>k \<in> fst ` set st. registered_key k))"

lemma registered_store_Nil [simp]: "registered_store []"
  by (simp add: registered_store_def)

lemma registered_store_set:
  "registered_store st \<Longrightarrow> registered_key k \<Longrightarrow> registered_store (ie_store_set k ie st)"
  using fst_set_map_insert [of ie_object_key_lt k]
  by (fastforce simp: registered_store_def ie_store_set_def intro: key_order.ordered_insert
      split: option.split)

lemma ie_store_get_set:
  assumes "registered_store st" "registered_key k" "registered_key k'"
  shows "ie_store_get k' (ie_store_set k (Some x) st) = (if k' = k then Some x else ie_store_get k' st)"
  using assms registered_equiv [of k k']
  by (auto simp: ie_store_get_def ie_store_set_def registered_store_def key_order.find_insert)

lemma ie_store_get_Some:
  assumes "registered_store st" "registered_key k" "ie_store_get k st = Some x"
  shows "(k, x) \<in> set st"
proof -
  obtain a where a: "(a, x) \<in> set st" "\<not> ie_object_key_lt a k" "\<not> ie_object_key_lt k a"
    using assms(3) map_find_present by (fastforce simp: ie_store_get_def)
  then have "registered_key a" using assms(1) by (force simp: registered_store_def)
  with a assms(2) registered_equiv show ?thesis by blast
qed

lemma ie_store_get_member:
  "registered_store st \<Longrightarrow> (k, x) \<in> set st \<Longrightarrow> ie_store_get k st = Some x"
  by (simp add: ie_store_get_def registered_store_def key_order.find_member)

text \<open>The largest sequence number of a type, as a fold and as a bound.\<close>

definition max_seq_step :: "u32 \<Rightarrow> ie_object_key \<times> 'ie \<Rightarrow> u32 \<Rightarrow> u32" where
  "max_seq_step t p result =
     (if object_type (fst p) = t \<and> result \<le> seq_nbr (fst p) then seq_nbr (fst p) else result)"

lemma getMaxSequence_fold: "getMaxSequence t st = fold (max_seq_step t) st 0"
proof -
  have "(\<lambda>(k, _ :: 'a) result.
        if object_type k = t \<and> result \<le> seq_nbr k then seq_nbr k else result) = max_seq_step t"
    by (auto simp: max_seq_step_def fun_eq_iff)
  then show ?thesis by (simp add: getMaxSequence_def)
qed

lemma max_seq_ge: "acc \<le> fold (max_seq_step t) st acc"
proof (induction st arbitrary: acc)
  case (Cons p st)
  have "acc \<le> max_seq_step t p acc" by (simp add: max_seq_step_def)
  also have "\<dots> \<le> fold (max_seq_step t) st (max_seq_step t p acc)" by (rule Cons.IH)
  finally show ?case by simp
qed simp

lemma max_seq_bound:
  "k \<in> fst ` set st \<Longrightarrow> object_type k = t \<Longrightarrow> seq_nbr k \<le> fold (max_seq_step t) st acc"
proof (induction st arbitrary: acc)
  case (Cons p st)
  show ?case
  proof (cases "k = fst p")
    case True
    then have "seq_nbr k \<le> max_seq_step t p acc" using Cons.prems by (auto simp: max_seq_step_def)
    also have "\<dots> \<le> fold (max_seq_step t) st (max_seq_step t p acc)" by (rule max_seq_ge)
    finally show ?thesis by simp
  next
    case False
    then show ?thesis using Cons by auto
  qed
qed simp

lemma max_seq_attained:
  "fold (max_seq_step t) st acc = acc \<or>
   (\<exists>k \<in> fst ` set st. object_type k = t \<and> fold (max_seq_step t) st acc = seq_nbr k)"
proof (induction st arbitrary: acc)
  case (Cons p st)
  then show ?case
    using Cons.IH [of acc] Cons.IH [of "seq_nbr (fst p)"] by (auto simp: max_seq_step_def)
qed simp

lemma getMaxSequence_bound:
  "k \<in> fst ` set st \<Longrightarrow> object_type k = t \<Longrightarrow> seq_nbr k \<le> getMaxSequence t st"
  unfolding getMaxSequence_fold by (rule max_seq_bound)

lemma getMaxSequence_attained:
  "getMaxSequence t st = 0 \<or> (\<exists>k \<in> fst ` set st. object_type k = t \<and> getMaxSequence t st = seq_nbr k)"
  unfolding getMaxSequence_fold by (rule max_seq_attained)

text \<open>
  Storing an mspec object under the next number puts it behind everything else: iteration
  over the store visits mspec objects in the order in which they were set.
\<close>

lemma mspec_key_registered:
  "getMaxSequence 0xF9 st < 0xFFFFFF06 \<Longrightarrow> registered_key (mk_key 0xF9 (getMaxSequence 0xF9 st + 1))"
  by (auto simp: registered_key_def word_less_nat_alt word_le_nat_alt unat_word_ariths(1))

lemma mspec_set_appends:
  assumes st: "registered_store st" and room: "getMaxSequence 0xF9 st < 0xFFFFFF06"
  shows "ie_store_set (mk_key 0xF9 (getMaxSequence 0xF9 st + 1)) (Some x) st
       = st @ [(mk_key 0xF9 (getMaxSequence 0xF9 st + 1), x)]"
proof -
  let ?n = "getMaxSequence 0xF9 st + 1"
  have n: "1 \<le> ?n" "?n < 0xFFFFFF07"
    using room by (auto simp: word_less_nat_alt word_le_nat_alt unat_word_ariths(1))
  have "ie_object_key_lt a (mk_key 0xF9 ?n)" if a: "a \<in> fst ` set st" for a
  proof -
    have "registered_key a" using a st by (auto simp: registered_store_def)
    then show ?thesis
    proof (cases rule: registered_key_cases)
      case (unique t)
      then show ?thesis using unique_sum_below [OF _ n] by (simp add: ie_object_key_lt_def)
    next
      case (mspec m)
      then have "m \<le> getMaxSequence 0xF9 st" using getMaxSequence_bound [OF a] by simp
      then have "unat m < unat ?n"
        using room by (simp add: word_less_nat_alt word_le_nat_alt unat_word_ariths(1))
      then show ?thesis
        using mspec_sum [OF n(2)] mspec_sum [OF mspec(2)] mspec(3)
        by (simp only: ie_object_key_lt_def mk_key_simps word_less_nat_alt)
    qed
  qed
  then show ?thesis by (simp add: ie_store_set_def key_order.insert_append)
qed

end
