(* ===== verification/Anslp_Message.thy ===== *)
theory Anslp_Message
  imports Ie_Store
begin

text \<open>
  The information elements and the five protocol messages of \<open>src/src/msg\<close>.

  An object is the header of \<open>anslp_object\<close> with the body of its subclass; a message is the
  base class \<open>anslp_msg\<close> with the name of its subclass (what \<open>dynamic_cast\<close> tests) and
  its object store. The type parameter \<open>'m\<close> stands for \<open>ipap_message\<close>, a class of the
  external \<open>libipap\<close> library. Setters and getters that the subclasses repeat
  word for word are given once.
\<close>

datatype treatment_t = Tr_mandatory | Tr_optional | Tr_forward | Tr_reserved

datatype 'm object_body =
    Information_code (ic_severity: u8) (ic_response_code: u8) (ic_response_object_type: u16)
  | Selection_auctioning_entities u32
  | Message_hop_count u32
  | Msg_sequence_number u32
  | Session_lifetime u32
  | Ipap_message 'm

record 'm anslp_object =
  obj_type :: u16
  treatment :: treatment_t
  unique :: bool
  body :: "'m object_body"

text \<open>The \<open>OBJECT_TYPE\<close> constants of the object classes.\<close>

definition OT_information_code :: u16 where "OT_information_code = 0xF4"
definition OT_selection_auctioning_entities :: u16 where "OT_selection_auctioning_entities = 0xF5"
definition OT_message_hop_count :: u16 where "OT_message_hop_count = 0xF6"
definition OT_msg_sequence_number :: u16 where "OT_msg_sequence_number = 0xF7"
definition OT_session_lifetime :: u16 where "OT_session_lifetime = 0xF8"
definition OT_ipap_message :: u16 where "OT_ipap_message = 0xF9"

lemmas OT_defs = OT_information_code_def OT_selection_auctioning_entities_def
  OT_message_hop_count_def OT_msg_sequence_number_def OT_session_lifetime_def OT_ipap_message_def

text \<open>The values of \<open>selection_auctioning_entities_t\<close>.\<close>

definition sme_all :: u32 where "sme_all = 1"
definition sme_any :: u32 where "sme_any = 2"
definition sme_first :: u32 where "sme_first = 3"
definition sme_last :: u32 where "sme_last = 4"
definition sme_first_last :: u32 where "sme_first_last = 5"

lemmas sme_defs = sme_all_def sme_any_def sme_first_def sme_last_def sme_first_last_def

text \<open>Constructors of the object classes.\<close>

definition new_information_code :: "u8 \<Rightarrow> u8 \<Rightarrow> u16 \<Rightarrow> treatment_t \<Rightarrow> bool \<Rightarrow> 'm anslp_object" where
  "new_information_code severity response_code ot tr u =
     \<lparr>obj_type = OT_information_code, treatment = tr, unique = u,
      body = Information_code severity response_code ot\<rparr>"

definition new_selection_auctioning_entities :: "u32 \<Rightarrow> treatment_t \<Rightarrow> bool \<Rightarrow> 'm anslp_object" where
  "new_selection_auctioning_entities sme tr u =
     \<lparr>obj_type = OT_selection_auctioning_entities, treatment = tr, unique = u,
      body = Selection_auctioning_entities sme\<rparr>"

definition new_message_hop_count :: "u32 \<Rightarrow> treatment_t \<Rightarrow> bool \<Rightarrow> 'm anslp_object" where
  "new_message_hop_count mhc tr u =
     \<lparr>obj_type = OT_message_hop_count, treatment = tr, unique = u, body = Message_hop_count mhc\<rparr>"

definition new_msg_sequence_number :: "u32 \<Rightarrow> treatment_t \<Rightarrow> bool \<Rightarrow> 'm anslp_object" where
  "new_msg_sequence_number msn tr u =
     \<lparr>obj_type = OT_msg_sequence_number, treatment = tr, unique = u, body = Msg_sequence_number msn\<rparr>"

definition new_session_lifetime :: "u32 \<Rightarrow> treatment_t \<Rightarrow> bool \<Rightarrow> 'm anslp_object" where
  "new_session_lifetime slt tr u =
     \<lparr>obj_type = OT_session_lifetime, treatment = tr, unique = u, body = Session_lifetime slt\<rparr>"

definition new_anslp_ipap_message :: "'m \<Rightarrow> 'm anslp_object" where
  "new_anslp_ipap_message m =
     \<lparr>obj_type = OT_ipap_message, treatment = Tr_mandatory, unique = False, body = Ipap_message m\<rparr>"

text \<open>
  The virtual \<open>copy\<close>: the fixed-size classes use the implicit copy constructor,
  \<open>anslp_ipap_message\<close> its own, which keeps only the treatment of the header.
\<close>

definition object_copy :: "'m anslp_object \<Rightarrow> 'm anslp_object" where
  "object_copy obj = (case body obj of
       Ipap_message m \<Rightarrow> \<lparr>obj_type = OT_ipap_message, treatment = treatment obj, unique = False,
                          body = Ipap_message m\<rparr>
     | _ \<Rightarrow> obj)"

text \<open>\<open>check\<close> tests the header and calls \<open>check_body\<close>; \<open>offset\<close> is \<open>ipap_message::get_offset\<close>.\<close>

definition check_body :: "('m \<Rightarrow> int) \<Rightarrow> 'm object_body \<Rightarrow> bool" where
  "check_body offset b = (case b of
       Information_code severity _ ot \<Rightarrow>
         \<not> (severity AND 0xF0 \<noteq> 0 \<or> ot AND 0xFFFF \<noteq> 0)
     | Ipap_message m \<Rightarrow> offset m > 0
     | _ \<Rightarrow> True)"

definition object_check :: "('m \<Rightarrow> int) \<Rightarrow> 'm anslp_object \<Rightarrow> bool" where
  "object_check offset obj =
     (if obj_type obj AND NOT 0xFFF \<noteq> 0 then False else check_body offset (body obj))"

text \<open>Object equality; \<open>ipap_eq\<close> is \<open>ipap_message::operator==\<close>.\<close>

definition equals_body :: "('m \<Rightarrow> 'm \<Rightarrow> bool) \<Rightarrow> 'm object_body \<Rightarrow> 'm object_body \<Rightarrow> bool" where
  "equals_body ipap_eq b other = (case (b, other) of
       (Information_code s c t, Information_code s' c' t') \<Rightarrow> s = s' \<and> c = c' \<and> t = t'
     | (Selection_auctioning_entities v, Selection_auctioning_entities v') \<Rightarrow> v = v'
     | (Message_hop_count v, Message_hop_count v') \<Rightarrow> v = v'
     | (Msg_sequence_number v, Msg_sequence_number v') \<Rightarrow> v = v'
     | (Session_lifetime v, Session_lifetime v') \<Rightarrow> v = v'
     | (Ipap_message m, Ipap_message m') \<Rightarrow> ipap_eq m m'
     | _ \<Rightarrow> False)"

definition object_eq :: "('m \<Rightarrow> 'm \<Rightarrow> bool) \<Rightarrow> 'm anslp_object \<Rightarrow> 'm anslp_object \<Rightarrow> bool" where
  "object_eq ipap_eq obj other =
     (obj_type obj = obj_type other \<and> treatment obj = treatment other \<and>
      equals_body ipap_eq (body obj) (body other))"

definition is_mspec :: "'m anslp_object \<Rightarrow> bool" where
  "is_mspec obj = (case body obj of Ipap_message _ \<Rightarrow> True | _ \<Rightarrow> False)"

section \<open>Messages\<close>

datatype msg_class = Anslp_create | Anslp_refresh | Anslp_response | Anslp_notify | Anslp_bidding

record 'm anslp_msg =
  msg_class :: msg_class
  msg_type :: u8
  objects :: "'m anslp_object ie_store"

definition new_anslp_create :: "'m anslp_msg" where
  "new_anslp_create = \<lparr>msg_class = Anslp_create, msg_type = 1, objects = []\<rparr>"

definition new_anslp_response :: "'m anslp_msg" where
  "new_anslp_response = \<lparr>msg_class = Anslp_response, msg_type = 2, objects = []\<rparr>"

definition new_anslp_notify :: "'m anslp_msg" where
  "new_anslp_notify = \<lparr>msg_class = Anslp_notify, msg_type = 3, objects = []\<rparr>"

definition new_anslp_refresh :: "'m anslp_msg" where
  "new_anslp_refresh = \<lparr>msg_class = Anslp_refresh, msg_type = 5, objects = []\<rparr>"

definition new_anslp_bidding :: "'m anslp_msg" where
  "new_anslp_bidding = \<lparr>msg_class = Anslp_bidding, msg_type = 6, objects = []\<rparr>"

definition get_num_objects :: "'m anslp_msg \<Rightarrow> nat" where
  "get_num_objects m = ie_store_size (objects m)"

definition get_object :: "ie_object_key \<Rightarrow> 'm anslp_msg \<Rightarrow> 'm anslp_object option" where
  "get_object key m = ie_store_get key (objects m)"

definition set_object :: "'m anslp_object \<Rightarrow> 'm anslp_msg \<Rightarrow> 'm anslp_msg" where
  "set_object obj m =
     (if unique obj
      then m\<lparr>objects := ie_store_set (mk_key (ucast (obj_type obj)) 1) (Some obj) (objects m)\<rparr>
      else let sq = getMaxSequence (ucast (obj_type obj)) (objects m);
               sq = sq + 1
           in m\<lparr>objects := ie_store_set (mk_key (ucast (obj_type obj)) sq) (Some obj) (objects m)\<rparr>)"

definition remove_object :: "ie_object_key \<Rightarrow> 'm anslp_msg \<Rightarrow> 'm anslp_object option \<times> 'm anslp_msg" where
  "remove_object key m = (let (obj, st) = ie_store_remove key (objects m) in (obj, m\<lparr>objects := st\<rparr>))"

definition anslp_msg_copy :: "'m anslp_msg \<Rightarrow> 'm anslp_msg" where
  "anslp_msg_copy m = \<lparr>msg_class = msg_class m, msg_type = msg_type m,
     objects = ie_store_copy object_copy (objects m)\<rparr>"

definition anslp_msg_eq :: "('m \<Rightarrow> 'm \<Rightarrow> bool) \<Rightarrow> 'm anslp_msg \<Rightarrow> 'm anslp_msg \<Rightarrow> bool" where
  "anslp_msg_eq ipap_eq m p =
     (if msg_type m \<noteq> msg_type p then False
      else ie_store_eq (\<lambda>a b. \<not> object_eq ipap_eq a b) (objects m) (objects p))"

text \<open>Keys of the objects that occur at most once.\<close>

definition unique_key :: "u16 \<Rightarrow> ie_object_key" where
  "unique_key ot = mk_key (ucast ot) 1"

text \<open>
  \<open>dynamic_cast\<close> of the object found under a key; the getters of the subclasses return 0
  when it fails.
\<close>

definition find_session_lifetime :: "'m anslp_msg \<Rightarrow> u32 option" where
  "find_session_lifetime m = (case get_object (unique_key OT_session_lifetime) m of
       None \<Rightarrow> None
     | Some obj \<Rightarrow> (case body obj of Session_lifetime v \<Rightarrow> Some v | _ \<Rightarrow> None))"

definition find_msg_sequence_number :: "'m anslp_msg \<Rightarrow> u32 option" where
  "find_msg_sequence_number m = (case get_object (unique_key OT_msg_sequence_number) m of
       None \<Rightarrow> None
     | Some obj \<Rightarrow> (case body obj of Msg_sequence_number v \<Rightarrow> Some v | _ \<Rightarrow> None))"

definition find_selection_auctioning_entities :: "'m anslp_msg \<Rightarrow> u32 option" where
  "find_selection_auctioning_entities m =
     (case get_object (unique_key OT_selection_auctioning_entities) m of
       None \<Rightarrow> None
     | Some obj \<Rightarrow> (case body obj of Selection_auctioning_entities v \<Rightarrow> Some v | _ \<Rightarrow> None))"

definition find_message_hop_count :: "'m anslp_msg \<Rightarrow> u32 option" where
  "find_message_hop_count m = (case get_object (unique_key OT_message_hop_count) m of
       None \<Rightarrow> None
     | Some obj \<Rightarrow> (case body obj of Message_hop_count v \<Rightarrow> Some v | _ \<Rightarrow> None))"

definition find_information_code :: "'m anslp_msg \<Rightarrow> (u8 \<times> u8 \<times> u16) option" where
  "find_information_code m = (case get_object (unique_key OT_information_code) m of
       None \<Rightarrow> None
     | Some obj \<Rightarrow> (case body obj of Information_code s c t \<Rightarrow> Some (s, c, t) | _ \<Rightarrow> None))"

definition or_zero :: "'a::zero option \<Rightarrow> 'a" where
  "or_zero v = (case v of None \<Rightarrow> 0 | Some x \<Rightarrow> x)"

definition get_session_lifetime :: "'m anslp_msg \<Rightarrow> u32" where
  "get_session_lifetime m = or_zero (find_session_lifetime m)"

definition get_msg_sequence_number :: "'m anslp_msg \<Rightarrow> u32" where
  "get_msg_sequence_number m = or_zero (find_msg_sequence_number m)"

definition get_selection_auctioning_entities :: "'m anslp_msg \<Rightarrow> u32" where
  "get_selection_auctioning_entities m = or_zero (find_selection_auctioning_entities m)"

definition get_message_hop_count :: "'m anslp_msg \<Rightarrow> u32" where
  "get_message_hop_count m = or_zero (find_message_hop_count m)"

definition get_severity_class :: "'m anslp_msg \<Rightarrow> u8" where
  "get_severity_class m = (case find_information_code m of None \<Rightarrow> 0 | Some (s, c, t) \<Rightarrow> s)"

definition get_response_code :: "'m anslp_msg \<Rightarrow> u8" where
  "get_response_code m = (case find_information_code m of None \<Rightarrow> 0 | Some (s, c, t) \<Rightarrow> c)"

definition get_response_object_type :: "'m anslp_msg \<Rightarrow> u16" where
  "get_response_object_type m = (case find_information_code m of None \<Rightarrow> 0 | Some (s, c, t) \<Rightarrow> t)"

text \<open>
  The base class asserts that the sequence number is present (\<open>None\<close> is the failed
  assertion). NOTIFY inherits this version, the other classes override it.
\<close>

definition has_msg_sequence_number :: "'m anslp_msg \<Rightarrow> bool" where
  "has_msg_sequence_number m = (find_msg_sequence_number m \<noteq> None)"

definition virtual_get_msg_sequence_number :: "'m anslp_msg \<Rightarrow> u32 option" where
  "virtual_get_msg_sequence_number m =
     (if msg_class m = Anslp_notify then find_msg_sequence_number m
      else Some (get_msg_sequence_number m))"

definition set_session_lifetime :: "u32 \<Rightarrow> 'm anslp_msg \<Rightarrow> 'm anslp_msg" where
  "set_session_lifetime v = set_object (new_session_lifetime v Tr_mandatory True)"

definition set_msg_sequence_number :: "u32 \<Rightarrow> 'm anslp_msg \<Rightarrow> 'm anslp_msg" where
  "set_msg_sequence_number v = set_object (new_msg_sequence_number v Tr_mandatory True)"

definition set_selection_auctioning_entities :: "u32 \<Rightarrow> 'm anslp_msg \<Rightarrow> 'm anslp_msg" where
  "set_selection_auctioning_entities v =
     set_object (new_selection_auctioning_entities v Tr_mandatory True)"

definition set_message_hop_count :: "u32 \<Rightarrow> 'm anslp_msg \<Rightarrow> 'm anslp_msg" where
  "set_message_hop_count v = set_object (new_message_hop_count v Tr_mandatory True)"

definition set_information_code :: "u8 \<Rightarrow> u8 \<Rightarrow> u16 \<Rightarrow> 'm anslp_msg \<Rightarrow> 'm anslp_msg" where
  "set_information_code s c t = set_object (new_information_code s c t Tr_mandatory True)"

definition set_mspec_object :: "'m anslp_object \<Rightarrow> 'm anslp_msg \<Rightarrow> 'm anslp_msg" where
  "set_mspec_object obj = set_object obj"

text \<open>
  \<open>get_mspec_objects\<close> copies every object whose key has none of the listed types; the object
  is cast to an mspec object first, and copying through the null result of a failed cast
  is the fault \<open>None\<close>.
\<close>

fun collect_mspec :: "u32 list \<Rightarrow> 'm anslp_object ie_store \<Rightarrow> 'm anslp_object list option" where
  "collect_mspec skip [] = Some []"
| "collect_mspec skip ((key, obj) # st) =
     (if object_type key \<in> set skip then collect_mspec skip st
      else if is_mspec obj
      then map_option (\<lambda>l. object_copy obj # l) (collect_mspec skip st)
      else None)"

definition create_skip_types :: "u32 list" where
  "create_skip_types = map ucast [OT_message_hop_count, OT_selection_auctioning_entities,
     OT_msg_sequence_number, OT_session_lifetime]"

definition response_skip_types :: "u32 list" where
  "response_skip_types = map ucast [OT_information_code, OT_msg_sequence_number, OT_session_lifetime]"

definition get_mspec_objects :: "'m anslp_msg \<Rightarrow> 'm anslp_object list option" where
  "get_mspec_objects m =
     (if msg_class m = Anslp_response then collect_mspec response_skip_types (objects m)
      else collect_mspec create_skip_types (objects m))"

text \<open>The checks of the message classes.\<close>

definition has_type :: "u16 \<Rightarrow> 'm anslp_msg \<Rightarrow> bool" where
  "has_type ot m = list_ex (\<lambda>(key, _). object_type key = ucast ot) (objects m)"

definition create_check :: "'m anslp_msg \<Rightarrow> bool" where
  "create_check m = (has_type OT_msg_sequence_number m \<and> has_type OT_selection_auctioning_entities m \<and>
     has_type OT_session_lifetime m \<and> has_type OT_message_hop_count m)"

definition bidding_check :: "'m anslp_msg \<Rightarrow> bool" where
  "bidding_check m = (has_type OT_msg_sequence_number m \<and> has_type OT_ipap_message m)"

definition response_check :: "'m anslp_msg \<Rightarrow> bool" where
  "response_check m = list_all (\<lambda>(key, _). \<not> (object_type key \<noteq> ucast OT_msg_sequence_number \<and>
       object_type key \<noteq> ucast OT_information_code \<and> object_type key \<noteq> ucast OT_session_lifetime \<and>
       object_type key \<noteq> ucast OT_ipap_message)) (objects m)"

definition refresh_check :: "'m anslp_msg \<Rightarrow> bool" where
  "refresh_check m =
     (if get_num_objects m \<noteq> 2 then False
      else if get_object (unique_key OT_msg_sequence_number) m = None then False
      else if get_object (unique_key OT_session_lifetime) m = None then False
      else True)"

definition notify_check :: "'m anslp_msg \<Rightarrow> bool" where
  "notify_check m =
     (if get_object (unique_key OT_information_code) m = None then False
      else if get_num_objects m \<noteq> 1 then False
      else True)"

text \<open>\<open>anslp_response::is_success\<close> and the two overloads of \<open>is_response_to\<close>.\<close>

definition is_success :: "'m anslp_msg \<Rightarrow> bool" where
  "is_success m = (case find_information_code m of
       None \<Rightarrow> False
     | Some (severity, code, _) \<Rightarrow> severity = 2 \<and> code = 1)"

definition is_response_to_create :: "'m anslp_msg \<Rightarrow> 'm anslp_msg \<Rightarrow> bool" where
  "is_response_to_create resp m = (get_msg_sequence_number resp = get_msg_sequence_number m)"

definition is_response_to_refresh :: "'m anslp_msg \<Rightarrow> 'm anslp_msg \<Rightarrow> bool" where
  "is_response_to_refresh resp m = (get_msg_sequence_number resp = get_msg_sequence_number m)"

section \<open>Well-formed messages\<close>

text \<open>
  The objects that the constructors make, and the messages made of them: the header type and
  the uniqueness flag agree with the class, and each object is stored under a key of its type.
\<close>

fun body_type :: "'m object_body \<Rightarrow> u16" where
  "body_type (Information_code _ _ _) = OT_information_code"
| "body_type (Selection_auctioning_entities _) = OT_selection_auctioning_entities"
| "body_type (Message_hop_count _) = OT_message_hop_count"
| "body_type (Msg_sequence_number _) = OT_msg_sequence_number"
| "body_type (Session_lifetime _) = OT_session_lifetime"
| "body_type (Ipap_message _) = OT_ipap_message"

definition wf_object :: "'m anslp_object \<Rightarrow> bool" where
  "wf_object obj = (obj_type obj = body_type (body obj) \<and> (unique obj \<longleftrightarrow> \<not> is_mspec obj))"

definition wf_store :: "'m anslp_object ie_store \<Rightarrow> bool" where
  "wf_store st = (registered_store st \<and>
     (\<forall>(k, obj) \<in> set st. wf_object obj \<and> object_type k = ucast (obj_type obj)))"

definition wf_msg :: "'m anslp_msg \<Rightarrow> bool" where
  "wf_msg m = wf_store (objects m)"

definition mspec_room :: "'m anslp_msg \<Rightarrow> bool" where
  "mspec_room m = (getMaxSequence 0xF9 (objects m) < 0xFFFFFF06)"

lemma ucast_OT [simp]:
  "ucast OT_information_code = (0xF4 :: u32)" "ucast OT_selection_auctioning_entities = (0xF5 :: u32)"
  "ucast OT_message_hop_count = (0xF6 :: u32)" "ucast OT_msg_sequence_number = (0xF7 :: u32)"
  "ucast OT_session_lifetime = (0xF8 :: u32)" "ucast OT_ipap_message = (0xF9 :: u32)"
  by (simp_all add: OT_defs)

lemma ucast_u16_inj: "(ucast (a :: u16) :: u32) = ucast b \<longleftrightarrow> a = b"
proof -
  have "ucast (ucast x :: u32) = x" for x :: u16
    by (simp add: ucast_up_ucast_id is_up)
  then show ?thesis by metis
qed

lemma skip_types [simp]:
  "create_skip_types = [0xF6, 0xF5, 0xF7, 0xF8]" "response_skip_types = [0xF4, 0xF7, 0xF8]"
  by (simp_all add: create_skip_types_def response_skip_types_def)

lemma new_object_simps [simp]:
  "unique (new_information_code s c t tr u) = u" "obj_type (new_information_code s c t tr u) = OT_information_code"
  "body (new_information_code s c t tr u) = Information_code s c t"
  "unique (new_selection_auctioning_entities v tr u) = u"
  "obj_type (new_selection_auctioning_entities v tr u) = OT_selection_auctioning_entities"
  "body (new_selection_auctioning_entities v tr u) = Selection_auctioning_entities v"
  "unique (new_message_hop_count v tr u) = u" "obj_type (new_message_hop_count v tr u) = OT_message_hop_count"
  "body (new_message_hop_count v tr u) = Message_hop_count v"
  "unique (new_msg_sequence_number v tr u) = u" "obj_type (new_msg_sequence_number v tr u) = OT_msg_sequence_number"
  "body (new_msg_sequence_number v tr u) = Msg_sequence_number v"
  "unique (new_session_lifetime v tr u) = u" "obj_type (new_session_lifetime v tr u) = OT_session_lifetime"
  "body (new_session_lifetime v tr u) = Session_lifetime v"
  "\<not> unique (new_anslp_ipap_message i)" "obj_type (new_anslp_ipap_message i) = OT_ipap_message"
  "body (new_anslp_ipap_message i) = Ipap_message i"
  by (simp_all add: new_information_code_def new_selection_auctioning_entities_def
      new_message_hop_count_def new_msg_sequence_number_def new_session_lifetime_def
      new_anslp_ipap_message_def)

lemma new_objects_wf [simp]:
  "wf_object (new_information_code s c t tr True)"
  "wf_object (new_selection_auctioning_entities v tr True)"
  "wf_object (new_message_hop_count v tr True)"
  "wf_object (new_msg_sequence_number v tr True)"
  "wf_object (new_session_lifetime v tr True)"
  "wf_object (new_anslp_ipap_message i)"
  by (simp_all add: wf_object_def is_mspec_def)

lemma new_msgs_wf [simp]:
  "wf_msg new_anslp_create" "wf_msg new_anslp_response" "wf_msg new_anslp_notify"
  "wf_msg new_anslp_refresh" "wf_msg new_anslp_bidding"
  by (simp_all add: wf_msg_def wf_store_def new_anslp_create_def new_anslp_response_def
      new_anslp_notify_def new_anslp_refresh_def new_anslp_bidding_def)

lemma mspec_type: "wf_object obj \<Longrightarrow> is_mspec obj \<longleftrightarrow> obj_type obj = OT_ipap_message"
  by (cases "body obj") (auto simp: wf_object_def is_mspec_def OT_defs)

lemma unique_type: "wf_object obj \<Longrightarrow> unique obj \<Longrightarrow> ucast (obj_type obj) \<in> set unique_types"
  by (cases "body obj") (auto simp: wf_object_def is_mspec_def unique_types_def)

lemma wf_copy: "wf_object obj \<Longrightarrow> object_copy obj = obj"
  by (cases "body obj"; cases obj) (auto simp: wf_object_def is_mspec_def object_copy_def)

text \<open>The key under which an object is stored is registered.\<close>

definition storage_key :: "'m anslp_object \<Rightarrow> 'm anslp_msg \<Rightarrow> ie_object_key" where
  "storage_key obj m = mk_key (ucast (obj_type obj))
     (if unique obj then 1 else getMaxSequence (ucast (obj_type obj)) (objects m) + 1)"

lemma set_object_storage_key:
  "set_object obj m = m\<lparr>objects := ie_store_set (storage_key obj m) (Some obj) (objects m)\<rparr>"
  by (simp add: set_object_def storage_key_def Let_def)

lemma storage_key_registered:
  assumes "wf_object obj" "mspec_room m"
  shows "registered_key (storage_key obj m)"
proof (cases "unique obj")
  case True
  then show ?thesis using assms unique_type [of obj] by (simp add: storage_key_def registered_key_def)
next
  case False
  then have "obj_type obj = OT_ipap_message" using assms mspec_type [of obj] by (simp add: wf_object_def)
  then show ?thesis
    using False assms mspec_key_registered by (simp add: storage_key_def mspec_room_def)
qed

lemma storage_key_registered_unique:
  "wf_object obj \<Longrightarrow> unique obj \<Longrightarrow> registered_key (storage_key obj m)"
  using unique_type [of obj] by (simp add: storage_key_def registered_key_def)

lemma wf_store_set:
  assumes st: "wf_store st" and k: "registered_key k" and obj: "wf_object obj"
    and t: "object_type k = ucast (obj_type obj)"
  shows "wf_store (ie_store_set k (Some obj) st)"
proof -
  have reg: "registered_store (ie_store_set k (Some obj) st)"
    using st k by (simp add: wf_store_def registered_store_set)
  have "wf_object x \<and> object_type a = ucast (obj_type x)" if ax: "(a, x) \<in> set (ie_store_set k (Some obj) st)" for a x
  proof -
    have "registered_key a" using ax reg by (force simp: registered_store_def)
    moreover have "ie_store_get a (ie_store_set k (Some obj) st) = Some x"
      using ax reg by (rule ie_store_get_member [rotated])
    ultimately have "(if a = k then Some obj else ie_store_get a st) = Some x"
      using st k by (simp add: wf_store_def ie_store_get_set)
    note get = this
    show ?thesis
    proof (cases "a = k")
      case True
      then show ?thesis using get obj t by simp
    next
      case False
      then have "(a, x) \<in> set st"
        using st get \<open>registered_key a\<close> ie_store_get_Some by (auto simp: wf_store_def)
      then show ?thesis using st by (auto simp: wf_store_def)
    qed
  qed
  with reg show ?thesis by (auto simp: wf_store_def)
qed

lemma wf_set_object:
  "wf_msg m \<Longrightarrow> wf_object obj \<Longrightarrow> unique obj \<or> mspec_room m \<Longrightarrow> wf_msg (set_object obj m)"
  using storage_key_registered [of obj m] storage_key_registered_unique [of obj m]
  by (auto simp: wf_msg_def set_object_storage_key storage_key_def intro: wf_store_set)

lemma msg_class_set_object [simp]: "msg_class (set_object obj m) = msg_class m"
  by (simp add: set_object_storage_key)

lemma get_object_set_object:
  assumes "wf_msg m" "wf_object obj" "unique obj \<or> mspec_room m" "ucast ot \<in> set unique_types"
  shows "get_object (unique_key ot) (set_object obj m) =
     (if obj_type obj = ot then Some obj else get_object (unique_key ot) m)"
proof -
  have reg: "registered_key (storage_key obj m)"
    using assms storage_key_registered storage_key_registered_unique by blast
  have "registered_key (unique_key ot)" using assms(4) by (simp add: unique_key_def registered_key_def)
  moreover have "unique_key ot = storage_key obj m \<longleftrightarrow> obj_type obj = ot"
  proof (cases "unique obj")
    case True
    then show ?thesis by (auto simp: unique_key_def storage_key_def ucast_u16_inj)
  next
    case False
    then have "obj_type obj = OT_ipap_message" using assms(2) mspec_type [of obj] by (simp add: wf_object_def)
    then show ?thesis using assms(4) by (auto simp: unique_key_def storage_key_def unique_types_def)
  qed
  ultimately show ?thesis
    using assms(1) reg
    by (simp add: get_object_def set_object_storage_key wf_msg_def wf_store_def ie_store_get_set)
qed

lemma find_set_object:
  assumes "wf_msg m" "wf_object obj" "unique obj \<or> mspec_room m"
  shows "find_session_lifetime (set_object obj m) =
      (case body obj of Session_lifetime v \<Rightarrow> Some v | _ \<Rightarrow> find_session_lifetime m)"
    and "find_msg_sequence_number (set_object obj m) =
      (case body obj of Msg_sequence_number v \<Rightarrow> Some v | _ \<Rightarrow> find_msg_sequence_number m)"
    and "find_selection_auctioning_entities (set_object obj m) =
      (case body obj of Selection_auctioning_entities v \<Rightarrow> Some v | _ \<Rightarrow> find_selection_auctioning_entities m)"
    and "find_message_hop_count (set_object obj m) =
      (case body obj of Message_hop_count v \<Rightarrow> Some v | _ \<Rightarrow> find_message_hop_count m)"
    and "find_information_code (set_object obj m) =
      (case body obj of Information_code s c t \<Rightarrow> Some (s, c, t) | _ \<Rightarrow> find_information_code m)"
proof -
  have t: "obj_type obj = body_type (body obj)" using assms(2) by (simp add: wf_object_def)
  note g = get_object_set_object [OF assms]
  show "find_session_lifetime (set_object obj m) =
      (case body obj of Session_lifetime v \<Rightarrow> Some v | _ \<Rightarrow> find_session_lifetime m)"
    using t by (cases "body obj") (simp_all add: find_session_lifetime_def g unique_types_def OT_defs)
  show "find_msg_sequence_number (set_object obj m) =
      (case body obj of Msg_sequence_number v \<Rightarrow> Some v | _ \<Rightarrow> find_msg_sequence_number m)"
    using t by (cases "body obj") (simp_all add: find_msg_sequence_number_def g unique_types_def OT_defs)
  show "find_selection_auctioning_entities (set_object obj m) =
      (case body obj of Selection_auctioning_entities v \<Rightarrow> Some v | _ \<Rightarrow> find_selection_auctioning_entities m)"
    using t by (cases "body obj") (simp_all add: find_selection_auctioning_entities_def g unique_types_def OT_defs)
  show "find_message_hop_count (set_object obj m) =
      (case body obj of Message_hop_count v \<Rightarrow> Some v | _ \<Rightarrow> find_message_hop_count m)"
    using t by (cases "body obj") (simp_all add: find_message_hop_count_def g unique_types_def OT_defs)
  show "find_information_code (set_object obj m) =
      (case body obj of Information_code s c t \<Rightarrow> Some (s, c, t) | _ \<Rightarrow> find_information_code m)"
    using t by (cases "body obj") (simp_all add: find_information_code_def g unique_types_def OT_defs)
qed

lemmas setter_defs = set_session_lifetime_def set_msg_sequence_number_def
  set_selection_auctioning_entities_def set_message_hop_count_def set_information_code_def

lemmas getter_defs = get_session_lifetime_def get_msg_sequence_number_def
  get_selection_auctioning_entities_def get_message_hop_count_def get_severity_class_def
  get_response_code_def get_response_object_type_def has_msg_sequence_number_def

lemma wf_setters [simp]:
  assumes "wf_msg m"
  shows "wf_msg (set_session_lifetime v m)" "wf_msg (set_msg_sequence_number v m)"
    "wf_msg (set_selection_auctioning_entities v m)" "wf_msg (set_message_hop_count v m)"
    "wf_msg (set_information_code s c t m)"
  using assms by (simp_all add: setter_defs wf_set_object)

lemma class_setters [simp]:
  "msg_class (set_session_lifetime v m) = msg_class m" "msg_class (set_msg_sequence_number v m) = msg_class m"
  "msg_class (set_selection_auctioning_entities v m) = msg_class m"
  "msg_class (set_message_hop_count v m) = msg_class m"
  "msg_class (set_information_code s c t m) = msg_class m"
  "msg_class (set_mspec_object obj m) = msg_class m"
  by (simp_all add: setter_defs set_mspec_object_def)

lemma class_new [simp]:
  "msg_class new_anslp_create = Anslp_create" "msg_class new_anslp_response = Anslp_response"
  "msg_class new_anslp_notify = Anslp_notify" "msg_class new_anslp_refresh = Anslp_refresh"
  "msg_class new_anslp_bidding = Anslp_bidding"
  by (simp_all add: new_anslp_create_def new_anslp_response_def new_anslp_notify_def
      new_anslp_refresh_def new_anslp_bidding_def)

text \<open>Each setter changes the value its getter returns and no other.\<close>

lemma find_setters [simp]:
  assumes "wf_msg m"
  shows "find_session_lifetime (set_session_lifetime v m) = Some v"
    "find_msg_sequence_number (set_session_lifetime v m) = find_msg_sequence_number m"
    "find_selection_auctioning_entities (set_session_lifetime v m) = find_selection_auctioning_entities m"
    "find_message_hop_count (set_session_lifetime v m) = find_message_hop_count m"
    "find_information_code (set_session_lifetime v m) = find_information_code m"
    "find_session_lifetime (set_msg_sequence_number v m) = find_session_lifetime m"
    "find_msg_sequence_number (set_msg_sequence_number v m) = Some v"
    "find_selection_auctioning_entities (set_msg_sequence_number v m) = find_selection_auctioning_entities m"
    "find_message_hop_count (set_msg_sequence_number v m) = find_message_hop_count m"
    "find_information_code (set_msg_sequence_number v m) = find_information_code m"
    "find_session_lifetime (set_selection_auctioning_entities v m) = find_session_lifetime m"
    "find_msg_sequence_number (set_selection_auctioning_entities v m) = find_msg_sequence_number m"
    "find_selection_auctioning_entities (set_selection_auctioning_entities v m) = Some v"
    "find_message_hop_count (set_selection_auctioning_entities v m) = find_message_hop_count m"
    "find_information_code (set_selection_auctioning_entities v m) = find_information_code m"
    "find_session_lifetime (set_message_hop_count v m) = find_session_lifetime m"
    "find_msg_sequence_number (set_message_hop_count v m) = find_msg_sequence_number m"
    "find_selection_auctioning_entities (set_message_hop_count v m) = find_selection_auctioning_entities m"
    "find_message_hop_count (set_message_hop_count v m) = Some v"
    "find_information_code (set_message_hop_count v m) = find_information_code m"
    "find_session_lifetime (set_information_code s c t m) = find_session_lifetime m"
    "find_msg_sequence_number (set_information_code s c t m) = find_msg_sequence_number m"
    "find_selection_auctioning_entities (set_information_code s c t m) = find_selection_auctioning_entities m"
    "find_message_hop_count (set_information_code s c t m) = find_message_hop_count m"
    "find_information_code (set_information_code s c t m) = Some (s, c, t)"
  using assms by (simp_all add: setter_defs find_set_object)

lemma find_set_mspec [simp]:
  assumes "wf_msg m" "mspec_room m" "wf_object obj" "is_mspec obj"
  shows "find_session_lifetime (set_mspec_object obj m) = find_session_lifetime m"
    "find_msg_sequence_number (set_mspec_object obj m) = find_msg_sequence_number m"
    "find_selection_auctioning_entities (set_mspec_object obj m) = find_selection_auctioning_entities m"
    "find_message_hop_count (set_mspec_object obj m) = find_message_hop_count m"
    "find_information_code (set_mspec_object obj m) = find_information_code m"
  using assms by (simp_all add: set_mspec_object_def find_set_object is_mspec_def split: object_body.splits)

lemma find_new [simp]:
  "find_session_lifetime new_anslp_create = None" "find_msg_sequence_number new_anslp_create = None"
  "find_session_lifetime new_anslp_refresh = None" "find_msg_sequence_number new_anslp_refresh = None"
  "find_session_lifetime new_anslp_response = None" "find_msg_sequence_number new_anslp_response = None"
  "find_information_code new_anslp_response = None" "find_msg_sequence_number new_anslp_bidding = None"
  by (simp_all add: find_session_lifetime_def find_msg_sequence_number_def find_information_code_def
      get_object_def ie_store_get_def new_anslp_create_def new_anslp_response_def
      new_anslp_refresh_def new_anslp_bidding_def)

lemma or_zero_Some [simp]: "or_zero (Some v) = v" and or_zero_None [simp]: "or_zero None = 0"
  by (simp_all add: or_zero_def)

lemma virtual_get_when_present:
  "has_msg_sequence_number m \<Longrightarrow> virtual_get_msg_sequence_number m = Some (get_msg_sequence_number m)"
  by (auto simp: virtual_get_msg_sequence_number_def getter_defs)

section \<open>The mspec objects of a message\<close>

definition skip_types_of :: "'m anslp_msg \<Rightarrow> u32 list" where
  "skip_types_of m = (if msg_class m = Anslp_response then response_skip_types else create_skip_types)"

lemma get_mspec_objects_skip: "get_mspec_objects m = collect_mspec (skip_types_of m) (objects m)"
  by (simp add: get_mspec_objects_def skip_types_of_def)

lemma collect_mspec_append:
  "collect_mspec skip (xs @ ys) = (case collect_mspec skip xs of None \<Rightarrow> None
     | Some a \<Rightarrow> (case collect_mspec skip ys of None \<Rightarrow> None | Some b \<Rightarrow> Some (a @ b)))"
  by (induction skip xs rule: collect_mspec.induct) (auto split: option.splits simp: map_option_case)

lemma set_mspec_objects:
  assumes "wf_msg m" "mspec_room m" "wf_object obj" "is_mspec obj"
  shows "objects (set_mspec_object obj m) = objects m @ [(storage_key obj m, obj)]"
proof -
  have "obj_type obj = OT_ipap_message" "\<not> unique obj"
    using assms mspec_type [of obj] by (simp_all add: wf_object_def)
  then show ?thesis
    using assms mspec_set_appends [of "objects m" obj]
    by (simp add: set_mspec_object_def set_object_storage_key storage_key_def wf_msg_def wf_store_def mspec_room_def)
qed

lemma get_mspec_objects_set:
  assumes "wf_msg m" "mspec_room m" "wf_object obj" "is_mspec obj"
  shows "get_mspec_objects (set_mspec_object obj m) = map_option (\<lambda>l. l @ [obj]) (get_mspec_objects m)"
proof -
  have "object_type (storage_key obj m) = 0xF9"
    using assms mspec_type [of obj] by (simp add: storage_key_def)
  moreover have "skip_types_of (set_mspec_object obj m) = skip_types_of m"
    by (simp add: skip_types_of_def)
  ultimately show ?thesis
    using assms by (auto simp: get_mspec_objects_skip set_mspec_objects collect_mspec_append wf_copy
        skip_types_of_def split: option.splits)
qed

lemma collect_mspec_filter:
  "collect_mspec skip st = collect_mspec skip (filter (\<lambda>(k, _). object_type k \<notin> set skip) st)"
  by (induction skip st rule: collect_mspec.induct) auto

lemma getMaxSequence_filter:
  "getMaxSequence t st = getMaxSequence t (filter (\<lambda>(k, _). object_type k = t) st)"
proof -
  have "fold (max_seq_step t) st acc = fold (max_seq_step t) (filter (\<lambda>(k, _). object_type k = t) st) acc" for acc
    by (induction st arbitrary: acc) (auto simp: max_seq_step_def)
  then show ?thesis by (simp add: getMaxSequence_fold)
qed

lemma filter_set_unique:
  assumes "wf_msg m" "wf_object obj" "unique obj" "\<not> P (ucast (obj_type obj))"
  shows "filter (\<lambda>(k, _). P (object_type k)) (objects (set_object obj m)) =
         filter (\<lambda>(k, _). P (object_type k)) (objects m)"
proof -
  have reg: "registered_key (storage_key obj m)" using assms(2,3) by (rule storage_key_registered_unique)
  have t: "object_type (storage_key obj m) = ucast (obj_type obj)" by (simp add: storage_key_def)
  have "\<not> P (object_type a)"
    if "a \<in> fst ` set (objects m)" "\<not> ie_object_key_lt a (storage_key obj m)"
      "\<not> ie_object_key_lt (storage_key obj m) a" for a
  proof -
    have "registered_key a" using that(1) assms(1) by (auto simp: wf_msg_def wf_store_def registered_store_def)
    then have "a = storage_key obj m" using reg that(2,3) registered_equiv by blast
    then show ?thesis using t assms(4) by simp
  qed
  then show ?thesis
    using assms(4) t
    by (simp add: set_object_storage_key ie_store_set_def filter_insert_other [where P = "\<lambda>k. P (object_type k)"])
qed

lemma set_unique_keeps_mspec:
  assumes "wf_msg m" "wf_object obj" "unique obj"
  shows "getMaxSequence 0xF9 (objects (set_object obj m)) = getMaxSequence 0xF9 (objects m)"
    and "ucast (obj_type obj) \<in> set (skip_types_of m) \<Longrightarrow>
         get_mspec_objects (set_object obj m) = get_mspec_objects m"
proof -
  have "ucast (obj_type obj) \<noteq> (0xF9 :: u32)"
    using unique_type [OF assms(2,3)] by (auto simp: unique_types_def)
  then show "getMaxSequence 0xF9 (objects (set_object obj m)) = getMaxSequence 0xF9 (objects m)"
    using filter_set_unique [OF assms, of "\<lambda>t. t = 0xF9"]
    by (metis getMaxSequence_filter)
  have skip: "skip_types_of (set_object obj m) = skip_types_of m" by (simp add: skip_types_of_def)
  assume "ucast (obj_type obj) \<in> set (skip_types_of m)"
  then show "get_mspec_objects (set_object obj m) = get_mspec_objects m"
    using filter_set_unique [OF assms, of "\<lambda>t. t \<notin> set (skip_types_of m)"] skip
    by (metis get_mspec_objects_skip collect_mspec_filter)
qed

definition mspec_count :: "'m anslp_msg \<Rightarrow> nat" where
  "mspec_count m = unat (getMaxSequence 0xF9 (objects m))"

definition mspec_limit :: nat where
  "mspec_limit = 0xFFFFFF06"

lemma mspec_room_count: "mspec_room m \<longleftrightarrow> mspec_count m < mspec_limit"
  by (simp add: mspec_room_def mspec_count_def mspec_limit_def word_less_nat_alt)

lemma mspec_count_setters [simp]:
  assumes "wf_msg m"
  shows "mspec_count (set_session_lifetime v m) = mspec_count m"
    "mspec_count (set_msg_sequence_number v m) = mspec_count m"
    "mspec_count (set_selection_auctioning_entities v m) = mspec_count m"
    "mspec_count (set_message_hop_count v m) = mspec_count m"
    "mspec_count (set_information_code s c t m) = mspec_count m"
  using assms by (simp_all add: setter_defs mspec_count_def set_unique_keeps_mspec)

lemma mspec_count_new [simp]:
  "mspec_count new_anslp_create = 0" "mspec_count new_anslp_response = 0" "mspec_count new_anslp_bidding = 0"
  by (simp_all add: mspec_count_def getMaxSequence_def new_anslp_create_def new_anslp_response_def
      new_anslp_bidding_def)

lemma get_mspec_new [simp]:
  "get_mspec_objects new_anslp_create = Some []" "get_mspec_objects new_anslp_response = Some []"
  "get_mspec_objects new_anslp_bidding = Some []"
  by (simp_all add: get_mspec_objects_def new_anslp_create_def new_anslp_response_def new_anslp_bidding_def)

lemma get_mspec_setters [simp]:
  assumes "wf_msg m"
  shows "get_mspec_objects (set_session_lifetime v m) = get_mspec_objects m"
    "get_mspec_objects (set_msg_sequence_number v m) = get_mspec_objects m"
    "msg_class m \<noteq> Anslp_response \<Longrightarrow>
       get_mspec_objects (set_selection_auctioning_entities v m) = get_mspec_objects m"
    "msg_class m \<noteq> Anslp_response \<Longrightarrow>
       get_mspec_objects (set_message_hop_count v m) = get_mspec_objects m"
    "msg_class m = Anslp_response \<Longrightarrow>
       get_mspec_objects (set_information_code s c t m) = get_mspec_objects m"
  using assms by (simp_all add: setter_defs set_unique_keeps_mspec(2) skip_types_of_def)

lemma mspec_count_set_mspec:
  assumes "wf_msg m" "mspec_count m < mspec_limit" "wf_object obj" "is_mspec obj"
  shows "mspec_count (set_mspec_object obj m) = Suc (mspec_count m)"
proof -
  have room: "mspec_room m" using assms(2) by (simp add: mspec_room_count)
  have ty: "obj_type obj = OT_ipap_message" "\<not> unique obj"
    using assms mspec_type [of obj] by (simp_all add: wf_object_def)
  let ?n = "getMaxSequence 0xF9 (objects m)"
  have "?n \<le> ?n + 1"
    using assms(2) by (simp add: mspec_count_def mspec_limit_def word_le_nat_alt unat_word_ariths(1))
  then have "getMaxSequence 0xF9 (objects (set_mspec_object obj m)) = ?n + 1"
    using ty by (simp add: set_mspec_objects [OF assms(1) room assms(3,4)] getMaxSequence_fold
        max_seq_step_def storage_key_def)
  then show ?thesis
    using assms(2) by (simp add: mspec_count_def mspec_limit_def unat_word_ariths(1))
qed

lemma wf_set_mspec:
  "wf_msg m \<Longrightarrow> mspec_count m < mspec_limit \<Longrightarrow> wf_object obj \<Longrightarrow> wf_msg (set_mspec_object obj m)"
  by (simp add: set_mspec_object_def wf_set_object mspec_room_count)

text \<open>Setting a list of mspec objects: the message's list grows by exactly that list, in order.\<close>

definition set_mspec_list :: "'m anslp_object list \<Rightarrow> 'm anslp_msg \<Rightarrow> 'm anslp_msg" where
  "set_mspec_list l m = fold set_mspec_object l m"

lemma set_mspec_list_simps [simp]:
  "set_mspec_list [] m = m" "set_mspec_list (obj # l) m = set_mspec_list l (set_mspec_object obj m)"
  by (simp_all add: set_mspec_list_def)

lemma class_set_mspec_list [simp]: "msg_class (set_mspec_list l m) = msg_class m"
  by (induction l arbitrary: m) simp_all

lemma set_mspec_list_laws:
  assumes "wf_msg m" "mspec_count m + length l \<le> mspec_limit" "\<forall>obj \<in> set l. wf_object obj \<and> is_mspec obj"
  shows "wf_msg (set_mspec_list l m) \<and>
     get_mspec_objects (set_mspec_list l m) = map_option (\<lambda>k. k @ l) (get_mspec_objects m) \<and>
     find_session_lifetime (set_mspec_list l m) = find_session_lifetime m \<and>
     find_msg_sequence_number (set_mspec_list l m) = find_msg_sequence_number m \<and>
     find_selection_auctioning_entities (set_mspec_list l m) = find_selection_auctioning_entities m \<and>
     find_message_hop_count (set_mspec_list l m) = find_message_hop_count m \<and>
     find_information_code (set_mspec_list l m) = find_information_code m"
  using assms
proof (induction l arbitrary: m)
  case Nil
  then show ?case by (simp add: option.map_ident)
next
  case (Cons obj l)
  then have room: "mspec_count m < mspec_limit" "mspec_room m" by (simp_all add: mspec_room_count)
  let ?m = "set_mspec_object obj m"
  have "wf_msg ?m" using Cons.prems room(1) by (intro wf_set_mspec) simp_all
  moreover have "mspec_count ?m + length l \<le> mspec_limit"
    using Cons.prems room by (simp add: mspec_count_set_mspec)
  ultimately show ?case
    using Cons.IH [of ?m] Cons.prems room
    by (simp add: get_mspec_objects_set option.map_comp comp_def)
qed

section \<open>Properties of messages\<close>

lemma copy_fold:
  assumes "ie_store_ordered (acc @ st)" "\<forall>(k, obj) \<in> set st. wf_object obj"
  shows "fold (\<lambda>(k, ie) st. ie_store_set k (Some (object_copy ie)) st) st acc = acc @ st"
proof -
  have "fold (\<lambda>(k, ie) st. ie_store_set k (Some (object_copy ie)) st) st acc
      = fold (\<lambda>(k, v) acc. map_insert ie_object_key_lt k v acc) st acc" for acc
    using assms(2) by (intro fold_cong) (auto simp: ie_store_set_def wf_copy)
  then show ?thesis using key_order.rebuild_prefix [OF assms(1)] by simp
qed

lemma anslp_msg_copy_id:
  assumes "wf_msg m"
  shows "anslp_msg_copy m = m"
proof -
  have "ie_store_ordered ([] @ objects m)" and "\<forall>(k, obj) \<in> set (objects m). wf_object obj"
    using assms by (auto simp: wf_msg_def wf_store_def registered_store_def)
  from copy_fold [OF this] show ?thesis by (simp add: anslp_msg_copy_def ie_store_copy_def)
qed

lemma collect_mspec_None:
  assumes "\<forall>(k, obj) \<in> set st. wf_object obj \<and> object_type k = ucast (obj_type obj)"
  shows "collect_mspec skip st = None \<longleftrightarrow>
    (\<exists>(k, obj) \<in> set st. object_type k \<notin> set skip \<and> object_type k \<noteq> 0xF9)"
  using assms
proof (induction skip st rule: collect_mspec.induct)
  case (2 skip key obj st)
  moreover have "is_mspec obj \<longleftrightarrow> object_type key = 0xF9"
    using 2 mspec_type [of obj] ucast_u16_inj [of "obj_type obj" OT_ipap_message] by simp
  ultimately show ?case by auto
qed simp

lemma body_type_range: "wf_object obj \<Longrightarrow> ucast (obj_type obj) \<in> set (0xF9 # unique_types)"
  by (cases "body obj") (simp_all add: wf_object_def unique_types_def)

lemma has_type_iff:
  "has_type ot m \<longleftrightarrow> (\<exists>(k, obj) \<in> set (objects m). object_type k = ucast ot)"
  by (auto simp: has_type_def list_ex_iff)

lemma get_object_has_type:
  assumes "wf_msg m" "ucast ot \<in> set unique_types" "get_object (unique_key ot) m = Some obj"
  shows "has_type ot m"
proof -
  have "registered_key (unique_key ot)" using assms(2) by (simp add: unique_key_def registered_key_def)
  then have "(unique_key ot, obj) \<in> set (objects m)"
    using assms(1,3) ie_store_get_Some by (auto simp: get_object_def wf_msg_def wf_store_def)
  then show ?thesis by (force simp: has_type_iff unique_key_def)
qed

lemma find_has_type:
  assumes "wf_msg m"
  shows "find_session_lifetime m \<noteq> None \<Longrightarrow> has_type OT_session_lifetime m"
    "find_msg_sequence_number m \<noteq> None \<Longrightarrow> has_type OT_msg_sequence_number m"
    "find_selection_auctioning_entities m \<noteq> None \<Longrightarrow> has_type OT_selection_auctioning_entities m"
    "find_message_hop_count m \<noteq> None \<Longrightarrow> has_type OT_message_hop_count m"
  using get_object_has_type [OF assms]
  by (auto simp: find_session_lifetime_def find_msg_sequence_number_def find_selection_auctioning_entities_def
      find_message_hop_count_def unique_types_def split: option.splits)

text \<open>
  Reading the mspec objects of a well-formed CREATE, BIDDING, REFRESH or NOTIFY message goes
  through a null pointer exactly when the message carries an information code object.
\<close>

theorem get_mspec_objects_null:
  assumes "wf_msg m" "msg_class m \<noteq> Anslp_response"
  shows "get_mspec_objects m = None \<longleftrightarrow> has_type OT_information_code m"
proof -
  have wf: "\<forall>(k, obj) \<in> set (objects m). wf_object obj \<and> object_type k = ucast (obj_type obj)"
    using assms(1) by (simp add: wf_msg_def wf_store_def)
  have "object_type k \<in> set (0xF9 # unique_types)" if "(k, obj) \<in> set (objects m)" for k obj
    using wf that body_type_range by fastforce
  then have "(object_type k \<notin> set create_skip_types \<and> object_type k \<noteq> 0xF9) \<longleftrightarrow> object_type k = 0xF4"
    if "(k, obj) \<in> set (objects m)" for k obj
    using that by (fastforce simp: unique_types_def)
  then show ?thesis
    using assms(2) collect_mspec_None [OF wf]
    by (fastforce simp: get_mspec_objects_skip skip_types_of_def has_type_iff)
qed

section \<open>Setters of single fields\<close>

text \<open>The setters of the base class, and those of the classes, which are called on an object of the class.\<close>

definition set_treatment :: "treatment_t \<Rightarrow> 'm anslp_object \<Rightarrow> 'm anslp_object" where
  "set_treatment tr obj = obj\<lparr>treatment := tr\<rparr>"

definition set_object_type :: "u16 \<Rightarrow> 'm anslp_object \<Rightarrow> 'm anslp_object" where
  "set_object_type t obj = obj\<lparr>obj_type := t\<rparr>"

definition set_unique :: "bool \<Rightarrow> 'm anslp_object \<Rightarrow> 'm anslp_object" where
  "set_unique u obj = obj\<lparr>unique := u\<rparr>"

definition set_severity_class :: "u8 \<Rightarrow> 'm anslp_object \<Rightarrow> 'm anslp_object" where
  "set_severity_class v obj = (case body obj of
     Information_code s c t \<Rightarrow> obj\<lparr>body := Information_code v c t\<rparr> | _ \<Rightarrow> obj)"

definition set_response_code :: "u8 \<Rightarrow> 'm anslp_object \<Rightarrow> 'm anslp_object" where
  "set_response_code v obj = (case body obj of
     Information_code s c t \<Rightarrow> obj\<lparr>body := Information_code s v t\<rparr> | _ \<Rightarrow> obj)"

definition set_response_object_type :: "u16 \<Rightarrow> 'm anslp_object \<Rightarrow> 'm anslp_object" where
  "set_response_object_type v obj = (case body obj of
     Information_code s c t \<Rightarrow> obj\<lparr>body := Information_code s c v\<rparr> | _ \<Rightarrow> obj)"

definition set_value_selection :: "u32 \<Rightarrow> 'm anslp_object \<Rightarrow> 'm anslp_object" where
  "set_value_selection v obj = (case body obj of
     Selection_auctioning_entities _ \<Rightarrow> obj\<lparr>body := Selection_auctioning_entities v\<rparr> | _ \<Rightarrow> obj)"

definition set_value_hop_count :: "u32 \<Rightarrow> 'm anslp_object \<Rightarrow> 'm anslp_object" where
  "set_value_hop_count v obj = (case body obj of
     Message_hop_count _ \<Rightarrow> obj\<lparr>body := Message_hop_count v\<rparr> | _ \<Rightarrow> obj)"

definition set_value_msn :: "u32 \<Rightarrow> 'm anslp_object \<Rightarrow> 'm anslp_object" where
  "set_value_msn v obj = (case body obj of
     Msg_sequence_number _ \<Rightarrow> obj\<lparr>body := Msg_sequence_number v\<rparr> | _ \<Rightarrow> obj)"

definition set_value_lifetime :: "u32 \<Rightarrow> 'm anslp_object \<Rightarrow> 'm anslp_object" where
  "set_value_lifetime v obj = (case body obj of
     Session_lifetime _ \<Rightarrow> obj\<lparr>body := Session_lifetime v\<rparr> | _ \<Rightarrow> obj)"

lemma setters_keep_wf:
  assumes "wf_object obj"
  shows "wf_object (set_treatment tr obj)" "wf_object (set_severity_class v8 obj)" "wf_object (set_response_code v8 obj)"
    "wf_object (set_response_object_type v16 obj)" "wf_object (set_value_selection v obj)" "wf_object (set_value_hop_count v obj)"
    "wf_object (set_value_msn v obj)" "wf_object (set_value_lifetime v obj)"
  using assms
  by (cases "body obj"; simp add: wf_object_def is_mspec_def set_treatment_def set_severity_class_def set_response_code_def
      set_response_object_type_def set_value_selection_def set_value_hop_count_def set_value_msn_def set_value_lifetime_def)+

end
