(* ===== verification/Wire_Format.thy ===== *)
theory Wire_Format
  imports Anslp_Message
begin

text \<open>
  The wire format: \<open>serialize\<close> and \<open>deserialize\<close> of the object and message classes
  (\<open>src/src/msg\<close>) and of \<open>ANSLP_IEManager\<close> (\<open>src/src/msg/anslp_ie.cpp\<close>).

  The record \<open>wire\<close> collects what these call in other libraries: \<open>NetMsg\<close>, \<open>IE\<close> and
  \<open>IEManager\<close> of protlib, and the import and export of \<open>ipap_message\<close>. \<open>'b\<close> is a
  \<open>NetMsg\<close>, a buffer with a position. \<open>None\<close> is the exception \<open>NetMsgError\<close> (or
  \<open>ipap_bad_argument\<close>). The byte counts that only feed log messages are left out.
\<close>

datatype coding_t = Protocol_v1 | Other_coding

datatype category_t = Cat_anslp_msg | Cat_anslp_object | Cat_default_anslp_msg | Cat_default_anslp_object

datatype ie_error =
    Msg_too_short coding_t category_t u32
  | Pdu_syntax_error coding_t category_t u16 u32
  | Error_wrong_type | Error_wrong_subtype | Error_category | Error_obj_set_failed
  | Protlib_error nat

datatype wire_exn = Net_msg_error | Ie_error ie_error

text \<open>Values of the class \<open>IE\<close>.\<close>

datatype 'm ie = Ie_msg "'m anslp_msg" | Ie_object "'m anslp_object"

record ('b, 'm) wire =
  new_sized :: "nat \<Rightarrow> 'b"
  new_filled :: "u8 list \<Rightarrow> 'b"
  get_buffer :: "'b \<Rightarrow> u8 list"
  get_pos :: "'b \<Rightarrow> u32"
  set_pos :: "u32 \<Rightarrow> 'b \<Rightarrow> 'b option"
  get_bytes_left :: "'b \<Rightarrow> u32"
  decode32 :: "'b \<Rightarrow> (u32 \<times> 'b) option"
  peek32 :: "'b \<Rightarrow> u32 option"
  encode8 :: "u8 \<Rightarrow> 'b \<Rightarrow> 'b option"
  encode16 :: "u16 \<Rightarrow> 'b \<Rightarrow> 'b option"
  encode32 :: "u32 \<Rightarrow> 'b \<Rightarrow> 'b option"
  copy_to :: "u32 \<Rightarrow> u16 \<Rightarrow> 'b \<Rightarrow> u8 list option"
  copy_from :: "u8 list \<Rightarrow> u32 \<Rightarrow> 'b \<Rightarrow> 'b option"
  check_ser_args :: "bool \<Rightarrow> bool \<Rightarrow> ie_error option"
  check_deser_args :: "bool \<Rightarrow> ie_error list \<Rightarrow> bool \<times> ie_error list"
  iem_lookup :: "'m ie list \<Rightarrow> category_t \<Rightarrow> u16 \<Rightarrow> 'm ie option"
  iem_new_instance :: "('m ie \<Rightarrow> 'm ie) \<Rightarrow> (category_t \<Rightarrow> u16 \<Rightarrow> 'm ie option) \<Rightarrow> category_t \<Rightarrow> u16 \<Rightarrow> 'm ie option"
  ipap_default :: 'm
  ipap_get_message :: "'m \<Rightarrow> u8 list option"
  ipap_get_require_output :: "'m \<Rightarrow> bool"
  ipap_get_offset :: "'m \<Rightarrow> nat"
  ipap_import :: "u8 list \<Rightarrow> 'm \<Rightarrow> (nat \<times> 'm) option"

section \<open>Objects\<close>

definition treatment_code :: "treatment_t \<Rightarrow> u32" where
  "treatment_code tr = (case tr of Tr_mandatory \<Rightarrow> 0 | Tr_optional \<Rightarrow> 1 | Tr_forward \<Rightarrow> 2 | Tr_reserved \<Rightarrow> 3)"

text \<open>\<open>treatment_t(header_raw >> 30)\<close>.\<close>

definition treatment_of :: "u32 \<Rightarrow> treatment_t" where
  "treatment_of header_raw = (let c = drop_bit 30 header_raw in
     if c = 0 then Tr_mandatory else if c = 1 then Tr_optional else if c = 2 then Tr_forward else Tr_reserved)"

definition extract_object_type :: "u32 \<Rightarrow> u16" where
  "extract_object_type header_raw = ucast (drop_bit 16 header_raw AND 0xFFF)"

definition extract_msg_type :: "u32 \<Rightarrow> u8" where
  "extract_msg_type header_raw = ucast (drop_bit 24 header_raw)"

definition HEADER_LENGTH :: nat where
  "HEADER_LENGTH = 4"

definition supports_coding :: "coding_t \<Rightarrow> bool" where
  "supports_coding coding = (coding = Protocol_v1)"

text \<open>\<open>get_serialized_size\<close> of the object classes; mspec objects are padded to full words.\<close>

definition object_serialized_size :: "('b, 'm) wire \<Rightarrow> 'm anslp_object \<Rightarrow> nat" where
  "object_serialized_size L obj = (case body obj of
       Ipap_message m \<Rightarrow>
         let val_return = HEADER_LENGTH;
             val_return = val_return + ipap_get_offset L m;
             num_padding = val_return mod 4;
             num_padding = (if num_padding \<noteq> 0 then 4 - num_padding else num_padding)
         in val_return + num_padding
     | _ \<Rightarrow> HEADER_LENGTH + 4)"

definition ipap_object_check :: "('b, 'm) wire \<Rightarrow> 'm anslp_object \<Rightarrow> bool" where
  "ipap_object_check L obj = object_check (\<lambda>m. int (ipap_get_offset L m)) obj"

text \<open>Running an operation of \<open>NetMsg\<close>.\<close>

definition net :: "'b \<Rightarrow> 'b option \<Rightarrow> (wire_exn, unit) outcome \<times> 'b" where
  "net b r = (case r of None \<Rightarrow> (Throw Net_msg_error, b) | Some b' \<Rightarrow> (Ok (), b'))"

definition serialize_header :: "('b, 'm) wire \<Rightarrow> 'm anslp_object \<Rightarrow> u16 \<Rightarrow> 'b \<Rightarrow> (wire_exn, unit) outcome \<times> 'b" where
  "serialize_header L obj body_length b =
     (let header = push_bit 30 (treatment_code (treatment obj)) OR push_bit 16 (ucast (obj_type obj)) OR
            ucast (body_length div 4)
      in net b (encode32 L header b))"

text \<open>\<open>anslp_ipap_message::get_message\<close>: null when the message is not exported.\<close>

definition mspec_get_message :: "('b, 'm) wire \<Rightarrow> 'm \<Rightarrow> u8 list option" where
  "mspec_get_message L m = (case ipap_get_message L m of
       None \<Rightarrow> None
     | Some bs \<Rightarrow> if ipap_get_require_output L m then None else Some bs)"

text \<open>Copying \<open>n\<close> bytes to the position and moving it past them.\<close>

definition put_bytes :: "('b, 'm) wire \<Rightarrow> u8 list \<Rightarrow> nat \<Rightarrow> 'b \<Rightarrow> (wire_exn, unit) outcome \<times> 'b" where
  "put_bytes L bs n b =
     (let start_pos = get_pos L b
      in call (net b (copy_from L (take n bs) start_pos b)) (\<lambda>_ b. net b (set_pos L (start_pos + of_nat n) b)))"

definition serialize_ipap_body :: "('b, 'm) wire \<Rightarrow> 'm \<Rightarrow> 'b \<Rightarrow> (wire_exn, unit) outcome \<times> 'b" where
  "serialize_ipap_body L m b =
     (let offset = ipap_get_offset L m
      in deref (mspec_get_message L m) Null_deref b (\<lambda>bs.
         call (put_bytes L bs offset b) (\<lambda>_ b.
           let num_padding = offset mod 4
           in if num_padding \<noteq> 0
              then let num_padding = 4 - num_padding in put_bytes L (replicate 4 0) num_padding b
              else (Ok (), b))))"

definition serialize_body :: "('b, 'm) wire \<Rightarrow> 'm object_body \<Rightarrow> 'b \<Rightarrow> (wire_exn, unit) outcome \<times> 'b" where
  "serialize_body L bd b = (case bd of
       Information_code severity code ot \<Rightarrow>
         call (net b (encode8 L (severity AND 0xF) b)) (\<lambda>_ b.
         call (net b (encode8 L code b)) (\<lambda>_ b.
           net b (encode16 L (ot AND 0xFFFF) b)))
     | Selection_auctioning_entities v \<Rightarrow> net b (encode32 L v b)
     | Message_hop_count v \<Rightarrow> net b (encode32 L v b)
     | Msg_sequence_number v \<Rightarrow> net b (encode32 L v b)
     | Session_lifetime v \<Rightarrow> net b (encode32 L v b)
     | Ipap_message m \<Rightarrow> serialize_ipap_body L m b)"

text \<open>\<open>catch (NetMsgError)\<close>: rethrown as an error of the IE framework.\<close>

definition too_short :: "('b, 'm) wire \<Rightarrow> coding_t \<Rightarrow> category_t \<Rightarrow> (wire_exn, unit) outcome \<times> 'b \<Rightarrow> (wire_exn, unit) outcome \<times> 'b" where
  "too_short L coding cat r = (case r of
       (Throw Net_msg_error, b) \<Rightarrow> (Throw (Ie_error (Msg_too_short coding cat (get_pos L b))), b)
     | _ \<Rightarrow> r)"

definition object_serialize :: "('b, 'm) wire \<Rightarrow> coding_t \<Rightarrow> 'm anslp_object \<Rightarrow> 'b \<Rightarrow> (wire_exn, unit) outcome \<times> 'b" where
  "object_serialize L coding obj b =
     (case check_ser_args L (supports_coding coding) (ipap_object_check L obj) of
        Some e \<Rightarrow> (Throw (Ie_error e), b)
      | None \<Rightarrow>
          let body_length = of_nat (object_serialized_size L obj - HEADER_LENGTH)
          in call (too_short L Protocol_v1 Cat_anslp_object (serialize_header L obj body_length b)) (\<lambda>_ b.
               too_short L Protocol_v1 Cat_anslp_object (serialize_body L (body obj) b)))"

text \<open>
  Reading works on the list of errors and the buffer. \<open>deserialize_header\<close> gives the length of the
  body and the object with its header set, or \<open>None\<close> after it has recorded an error.
\<close>

definition deserialize_header :: "('b, 'm) wire \<Rightarrow> 'm anslp_object \<Rightarrow> ie_error list \<times> 'b
    \<Rightarrow> (wire_exn, (u16 \<times> 'm anslp_object) option) outcome \<times> ie_error list \<times> 'b" where
  "deserialize_header L obj = (\<lambda>(err, b).
     let start_pos = get_pos L b
     in case decode32 L b of
          None \<Rightarrow> (Ok None, err @ [Msg_too_short Protocol_v1 Cat_anslp_object start_pos], b)
        | Some (header_raw, b) \<Rightarrow>
            let obj = obj\<lparr>treatment := treatment_of header_raw, obj_type := extract_object_type header_raw\<rparr>;
                body_length = ucast ((header_raw AND 0xFFF) * 4) :: u16
            in if get_bytes_left L b < ucast body_length
               then let err = err @ [Msg_too_short Protocol_v1 Cat_anslp_object start_pos]
                    in (case set_pos L start_pos b of
                          None \<Rightarrow> (Throw Net_msg_error, err, b)
                        | Some b \<Rightarrow> (Ok None, err, b))
               else (Ok (Some (body_length, obj)), err, b))"

definition decode_value :: "('b, 'm) wire \<Rightarrow> (u32 \<Rightarrow> 'm object_body) \<Rightarrow> ie_error list \<times> 'b
    \<Rightarrow> (wire_exn, 'm object_body option) outcome \<times> ie_error list \<times> 'b" where
  "decode_value L mk = (\<lambda>(err, b). case decode32 L b of
       None \<Rightarrow> (Throw Net_msg_error, err, b)
     | Some (v, b) \<Rightarrow> (Ok (Some (mk v)), err, b))"

text \<open>The bytes after the imported message are padding and have to be 0; a violation is not recorded as an error.\<close>

definition deserialize_ipap_body :: "('b, 'm) wire \<Rightarrow> u16 \<Rightarrow> 'm \<Rightarrow> ie_error list \<times> 'b
    \<Rightarrow> (wire_exn, 'm object_body option) outcome \<times> ie_error list \<times> 'b" where
  "deserialize_ipap_body L body_length m = (\<lambda>(err, b).
     let start_pos = get_pos L b
     in case copy_to L start_pos body_length b of
          None \<Rightarrow> (Throw Net_msg_error, err, b)
        | Some messdef \<Rightarrow> (case ipap_import L messdef m of
              None \<Rightarrow> (Throw (Ie_error (Msg_too_short Protocol_v1 Cat_anslp_object (get_pos L b))), err, b)
            | Some (num_read, m) \<Rightarrow>
                if list_ex (\<lambda>x. x \<noteq> 0) (drop num_read messdef) then (Ok None, err, b)
                else (case set_pos L (start_pos + ucast body_length) b of
                        None \<Rightarrow> (Throw Net_msg_error, err, b)
                      | Some b \<Rightarrow> (Ok (Some (Ipap_message m)), err, b))))"

definition deserialize_body :: "('b, 'm) wire \<Rightarrow> u16 \<Rightarrow> bool \<Rightarrow> 'm anslp_object \<Rightarrow> ie_error list \<times> 'b
    \<Rightarrow> (wire_exn, 'm object_body option) outcome \<times> ie_error list \<times> 'b" where
  "deserialize_body L body_length skip obj eb = (case body obj of
       Information_code _ _ _ \<Rightarrow> (case eb of (err, b) \<Rightarrow>
         (case decode32 L b of
            None \<Rightarrow> (Throw Net_msg_error, err, b)
          | Some (v, b) \<Rightarrow>
              let bd = Information_code (ucast (drop_bit 24 v AND 0xF)) (ucast (drop_bit 16 v AND 0xFF)) (ucast (v AND 0xFFFF))
              in if \<not> ipap_object_check L (obj\<lparr>body := bd\<rparr>)
                 then let err = err @ [Pdu_syntax_error Protocol_v1 Cat_anslp_object (obj_type obj) (get_pos L b - 4)]
                      in if \<not> skip then (Ok None, err, b) else (Ok (Some bd), err, b)
                 else (Ok (Some bd), err, b)))
     | Selection_auctioning_entities _ \<Rightarrow> decode_value L Selection_auctioning_entities eb
     | Message_hop_count _ \<Rightarrow> decode_value L Message_hop_count eb
     | Msg_sequence_number _ \<Rightarrow> decode_value L Msg_sequence_number eb
     | Session_lifetime _ \<Rightarrow> decode_value L Session_lifetime eb
     | Ipap_message m \<Rightarrow> deserialize_ipap_body L body_length m eb)"

definition object_deserialize :: "('b, 'm) wire \<Rightarrow> bool \<Rightarrow> 'm anslp_object \<Rightarrow> ie_error list \<times> 'b
    \<Rightarrow> (wire_exn, 'm anslp_object option) outcome \<times> ie_error list \<times> 'b" where
  "object_deserialize L skip obj = (\<lambda>(err, b).
     let (ok, err) = check_deser_args L (supports_coding Protocol_v1) err
     in if \<not> ok then (Ok None, err, b)
        else call (deserialize_header L obj (err, b)) (\<lambda>h eb. case h of
               None \<Rightarrow> (Ok None, eb)
             | Some (body_length, obj) \<Rightarrow>
                 call (deserialize_body L body_length skip obj eb) (\<lambda>bd eb. case bd of
                   None \<Rightarrow> (Ok None, eb)
                 | Some bd \<Rightarrow> (Ok (Some (obj\<lparr>body := bd\<rparr>)), eb))))"

section \<open>The registry\<close>

text \<open>\<open>register_known_ies\<close>, in the order of the source, and the virtual \<open>new_instance\<close>.\<close>

definition ie_category :: "'m ie \<Rightarrow> category_t" where
  "ie_category e = (case e of Ie_msg _ \<Rightarrow> Cat_anslp_msg | Ie_object _ \<Rightarrow> Cat_anslp_object)"

definition ie_type :: "'m ie \<Rightarrow> u16" where
  "ie_type e = (case e of Ie_msg m \<Rightarrow> ucast (msg_type m) | Ie_object obj \<Rightarrow> obj_type obj)"

definition register_known_ies :: "('b, 'm) wire \<Rightarrow> 'm ie list" where
  "register_known_ies L =
     [Ie_msg new_anslp_create, Ie_msg new_anslp_refresh, Ie_msg new_anslp_response, Ie_msg new_anslp_notify,
      Ie_msg new_anslp_bidding,
      Ie_object (new_session_lifetime 0 Tr_mandatory True), Ie_object (new_information_code 0 0 0 Tr_mandatory True),
      Ie_object (new_message_hop_count 0 Tr_mandatory True),
      Ie_object (new_selection_auctioning_entities sme_all Tr_mandatory True),
      Ie_object (new_msg_sequence_number 0 Tr_mandatory True), Ie_object (new_anslp_ipap_message (ipap_default L))]"

definition object_new_instance :: "('b, 'm) wire \<Rightarrow> 'm anslp_object \<Rightarrow> 'm anslp_object" where
  "object_new_instance L obj = (case body obj of
       Information_code _ _ _ \<Rightarrow> new_information_code 0 0 0 Tr_mandatory True
     | Selection_auctioning_entities _ \<Rightarrow> new_selection_auctioning_entities sme_all Tr_mandatory True
     | Message_hop_count _ \<Rightarrow> new_message_hop_count 0 Tr_mandatory True
     | Msg_sequence_number _ \<Rightarrow> new_msg_sequence_number 0 Tr_mandatory True
     | Session_lifetime _ \<Rightarrow> new_session_lifetime 0 Tr_mandatory True
     | Ipap_message _ \<Rightarrow> new_anslp_ipap_message (ipap_default L))"

definition msg_new_instance :: "'m anslp_msg \<Rightarrow> 'm anslp_msg" where
  "msg_new_instance m = (case msg_class m of
       Anslp_create \<Rightarrow> new_anslp_create | Anslp_refresh \<Rightarrow> new_anslp_refresh | Anslp_response \<Rightarrow> new_anslp_response
     | Anslp_notify \<Rightarrow> new_anslp_notify | Anslp_bidding \<Rightarrow> new_anslp_bidding)"

definition ie_new_instance :: "('b, 'm) wire \<Rightarrow> 'm ie \<Rightarrow> 'm ie" where
  "ie_new_instance L e = (case e of
       Ie_msg m \<Rightarrow> Ie_msg (msg_new_instance m)
     | Ie_object obj \<Rightarrow> Ie_object (object_new_instance L obj))"

definition lookup_ie :: "('b, 'm) wire \<Rightarrow> category_t \<Rightarrow> u16 \<Rightarrow> 'm ie option" where
  "lookup_ie L category type = (case iem_lookup L (register_known_ies L) category type of
       Some ret \<Rightarrow> Some ret
     | None \<Rightarrow> (case category of
           Cat_anslp_msg \<Rightarrow> iem_lookup L (register_known_ies L) Cat_default_anslp_msg 0
         | Cat_anslp_object \<Rightarrow> iem_lookup L (register_known_ies L) Cat_default_anslp_object 0
         | _ \<Rightarrow> None))"

text \<open>
  The registry gives an IE of the category that it is asked for, so that a message in the place of an object
  is the failed cast of \<open>anslp_msg::deserialize\<close>.
\<close>

definition deserialize_object :: "('b, 'm) wire \<Rightarrow> coding_t \<Rightarrow> bool \<Rightarrow> ie_error list \<times> 'b
    \<Rightarrow> (wire_exn, 'm ie option) outcome \<times> ie_error list \<times> 'b" where
  "deserialize_object L coding skip = (\<lambda>(err, b). case peek32 L b of
       None \<Rightarrow> (Ok None, err @ [Msg_too_short coding Cat_anslp_object (get_pos L b)], b)
     | Some header_raw \<Rightarrow>
         let object_type = extract_object_type header_raw
         in (case iem_new_instance L (ie_new_instance L) (lookup_ie L) Cat_anslp_object object_type of
               None \<Rightarrow> (Ok None, err @ [Error_wrong_subtype], b)
             | Some (Ie_object obj) \<Rightarrow>
                 call (object_deserialize L skip obj (err, b)) (\<lambda>r eb. (Ok (map_option Ie_object r), eb))
             | Some (Ie_msg m) \<Rightarrow> (Crash Null_deref, err, b)))"

section \<open>Messages\<close>

definition msg_check :: "'m anslp_msg \<Rightarrow> bool" where
  "msg_check m = (case msg_class m of
       Anslp_create \<Rightarrow> create_check m | Anslp_refresh \<Rightarrow> refresh_check m | Anslp_response \<Rightarrow> response_check m
     | Anslp_notify \<Rightarrow> notify_check m | Anslp_bidding \<Rightarrow> bidding_check m)"

definition msg_serialized_size :: "('b, 'm) wire \<Rightarrow> 'm anslp_msg \<Rightarrow> nat" where
  "msg_serialized_size L m = fold (\<lambda>(key, obj) size. size + object_serialized_size L obj) (objects m) HEADER_LENGTH"

text \<open>\<open>anslp_msg::serialize\<close> writes the header only.\<close>

definition msg_serialize_header :: "('b, 'm) wire \<Rightarrow> coding_t \<Rightarrow> 'm anslp_msg \<Rightarrow> 'b \<Rightarrow> (wire_exn, unit) outcome \<times> 'b" where
  "msg_serialize_header L coding m b =
     (case check_ser_args L (supports_coding coding) (msg_check m) of
        Some e \<Rightarrow> (Throw (Ie_error e), b)
      | None \<Rightarrow> too_short L coding Cat_anslp_msg (net b (encode32 L (push_bit 24 (ucast (msg_type m))) b)))"

text \<open>\<open>serialize_object\<close> returns no value when the message has no such object.\<close>

definition serialize_object :: "('b, 'm) wire \<Rightarrow> coding_t \<Rightarrow> 'm anslp_msg \<Rightarrow> ie_object_key \<Rightarrow> 'b \<Rightarrow> (wire_exn, unit) outcome \<times> 'b" where
  "serialize_object L coding m key b = (case get_object key m of
       Some obj \<Rightarrow> object_serialize L coding obj b
     | None \<Rightarrow> (Crash Missing_return, b))"

fun serialize_objects :: "('b, 'm) wire \<Rightarrow> coding_t \<Rightarrow> 'm anslp_msg \<Rightarrow> ie_object_key list \<Rightarrow> 'b \<Rightarrow> (wire_exn, unit) outcome \<times> 'b" where
  "serialize_objects L coding m [] b = (Ok (), b)"
| "serialize_objects L coding m (key # keys) b =
     call (serialize_object L coding m key b) (\<lambda>_. serialize_objects L coding m keys)"

text \<open>The loop over the mspec objects runs from 1 to the largest sequence number.\<close>

definition ipap_keys :: "'m anslp_msg \<Rightarrow> ie_object_key list" where
  "ipap_keys m = map (\<lambda>i. mk_key (ucast OT_ipap_message) (of_nat i))
     [1 ..< Suc (unat (getMaxSequence (ucast OT_ipap_message) (objects m)))]"

definition create_serialize :: "('b, 'm) wire \<Rightarrow> coding_t \<Rightarrow> 'm anslp_msg \<Rightarrow> 'b \<Rightarrow> (wire_exn, unit) outcome \<times> 'b" where
  "create_serialize L coding m b =
     (if create_check m
      then call (msg_serialize_header L coding m b) (\<lambda>_.
             serialize_objects L coding m ([unique_key OT_msg_sequence_number, unique_key OT_session_lifetime,
               unique_key OT_selection_auctioning_entities, unique_key OT_message_hop_count] @ ipap_keys m))
      else (Throw (Ie_error Error_obj_set_failed), b))"

definition response_serialize :: "('b, 'm) wire \<Rightarrow> coding_t \<Rightarrow> 'm anslp_msg \<Rightarrow> 'b \<Rightarrow> (wire_exn, unit) outcome \<times> 'b" where
  "response_serialize L coding m b =
     call (msg_serialize_header L coding m b) (\<lambda>_.
       serialize_objects L coding m ([unique_key OT_msg_sequence_number, unique_key OT_information_code,
         unique_key OT_session_lifetime] @ ipap_keys m))"

definition refresh_serialize :: "('b, 'm) wire \<Rightarrow> coding_t \<Rightarrow> 'm anslp_msg \<Rightarrow> 'b \<Rightarrow> (wire_exn, unit) outcome \<times> 'b" where
  "refresh_serialize L coding m b =
     call (msg_serialize_header L coding m b) (\<lambda>_.
       serialize_objects L coding m [unique_key OT_msg_sequence_number, unique_key OT_session_lifetime])"

definition notify_serialize :: "('b, 'm) wire \<Rightarrow> coding_t \<Rightarrow> 'm anslp_msg \<Rightarrow> 'b \<Rightarrow> (wire_exn, unit) outcome \<times> 'b" where
  "notify_serialize L coding m b =
     call (msg_serialize_header L coding m b) (\<lambda>_. serialize_objects L coding m [unique_key OT_information_code])"

definition bidding_serialize :: "('b, 'm) wire \<Rightarrow> coding_t \<Rightarrow> 'm anslp_msg \<Rightarrow> 'b \<Rightarrow> (wire_exn, unit) outcome \<times> 'b" where
  "bidding_serialize L coding m b =
     (if bidding_check m
      then call (msg_serialize_header L coding m b) (\<lambda>_.
             serialize_objects L coding m ([unique_key OT_msg_sequence_number] @ ipap_keys m))
      else (Throw (Ie_error Error_obj_set_failed), b))"

text \<open>The virtual \<open>serialize\<close> of a message.\<close>

definition msg_serialize :: "('b, 'm) wire \<Rightarrow> coding_t \<Rightarrow> 'm anslp_msg \<Rightarrow> 'b \<Rightarrow> (wire_exn, unit) outcome \<times> 'b" where
  "msg_serialize L coding m = (case msg_class m of
       Anslp_create \<Rightarrow> create_serialize L coding m | Anslp_refresh \<Rightarrow> refresh_serialize L coding m
     | Anslp_response \<Rightarrow> response_serialize L coding m | Anslp_notify \<Rightarrow> notify_serialize L coding m
     | Anslp_bidding \<Rightarrow> bidding_serialize L coding m)"

text \<open>
  The loop of \<open>anslp_msg::deserialize\<close> over the objects of the body. Whether it ends depends on
  \<open>NetMsg\<close>, so that the result is an option.
\<close>

definition is_duplicate :: "'m anslp_object \<Rightarrow> 'm anslp_msg \<Rightarrow> bool" where
  "is_duplicate obj m = (unique obj \<and> get_object (unique_key (obj_type obj)) m \<noteq> None)"

partial_function (option) deserialize_objects :: "('b, 'm) wire \<Rightarrow> coding_t \<Rightarrow> bool \<Rightarrow> 'm anslp_msg \<Rightarrow> ie_error list \<times> 'b
    \<Rightarrow> ((wire_exn, 'm anslp_msg option) outcome \<times> ie_error list \<times> 'b) option" where
  "deserialize_objects L coding skip m eb =
     (if get_bytes_left L (snd eb) = 0 then Some (Ok (Some m), eb)
      else case deserialize_object L coding skip eb of
             (Throw e, eb) \<Rightarrow> Some (Throw e, eb)
           | (Crash f, eb) \<Rightarrow> Some (Crash f, eb)
           | (Ok r, err, b) \<Rightarrow> (case r of
                 None \<Rightarrow> Some (Ok None, err, b)
               | Some (Ie_msg _) \<Rightarrow> Some (Crash Null_deref, err, b)
               | Some (Ie_object obj) \<Rightarrow>
                   if is_duplicate obj m
                   then let err = err @ [Pdu_syntax_error coding Cat_anslp_msg (obj_type obj) (get_pos L (snd eb))]
                        in if \<not> skip then Some (Ok None, err, b)
                           else deserialize_objects L coding skip (set_object obj m) (err, b)
                   else deserialize_objects L coding skip (set_object obj m) (err, b)))"

definition msg_deserialize :: "('b, 'm) wire \<Rightarrow> coding_t \<Rightarrow> bool \<Rightarrow> 'm anslp_msg \<Rightarrow> ie_error list \<times> 'b
    \<Rightarrow> ((wire_exn, 'm anslp_msg option) outcome \<times> ie_error list \<times> 'b) option" where
  "msg_deserialize L coding skip m = (\<lambda>(err, b).
     let start_pos = get_pos L b
     in case decode32 L b of
          None \<Rightarrow> Some (Ok (if skip then Some m else None), err @ [Msg_too_short coding Cat_anslp_msg start_pos], b)
        | Some (header_raw, b) \<Rightarrow>
            (case deserialize_objects L coding skip (m\<lparr>msg_type := extract_msg_type header_raw\<rparr>) (err, b) of
               None \<Rightarrow> None
             | Some r \<Rightarrow> Some (call r (\<lambda>r (err, b). case r of
                   None \<Rightarrow> (Ok None, err, b)
                 | Some m \<Rightarrow>
                     if get_num_objects m = 0
                     then let err = err @ [Pdu_syntax_error coding Cat_anslp_msg 0 start_pos]
                          in if \<not> skip then (Ok None, err, b) else (Ok (Some m), err, b)
                     else (Ok (Some m), err, b)))))"

definition deserialize_msg :: "('b, 'm) wire \<Rightarrow> coding_t \<Rightarrow> bool \<Rightarrow> ie_error list \<times> 'b
    \<Rightarrow> ((wire_exn, 'm ie option) outcome \<times> ie_error list \<times> 'b) option" where
  "deserialize_msg L coding skip = (\<lambda>(err, b). case peek32 L b of
       None \<Rightarrow> Some (Ok None, err @ [Msg_too_short coding Cat_anslp_msg (get_pos L b)], b)
     | Some header_raw \<Rightarrow>
         let msg_type = extract_msg_type header_raw
         in (case iem_new_instance L (ie_new_instance L) (lookup_ie L) Cat_anslp_msg (ucast msg_type) of
               None \<Rightarrow> Some (Ok None, err @ [Error_wrong_type], b)
             | Some (Ie_msg m) \<Rightarrow>
                 map_option (\<lambda>r. call r (\<lambda>r eb. (Ok (map_option Ie_msg r), eb))) (msg_deserialize L coding skip m (err, b))
             | Some (Ie_object obj) \<Rightarrow> Some (Crash Assert_failed, err, b)))"

text \<open>\<open>ANSLP_IEManager::deserialize\<close>.\<close>

definition manager_deserialize :: "('b, 'm) wire \<Rightarrow> category_t \<Rightarrow> coding_t \<Rightarrow> bool \<Rightarrow> ie_error list \<times> 'b
    \<Rightarrow> ((wire_exn, 'm ie option) outcome \<times> ie_error list \<times> 'b) option" where
  "manager_deserialize L category coding skip = (\<lambda>(err, b). case category of
       Cat_anslp_msg \<Rightarrow> deserialize_msg L coding skip (err, b)
     | Cat_anslp_object \<Rightarrow> Some (deserialize_object L coding skip (err, b))
     | _ \<Rightarrow> Some (Ok None, err @ [Error_category], b))"

end
