(* ===== verification/Wire_Properties.thy ===== *)
theory Wire_Properties
  imports Wire_Format
begin

text \<open>
  What the wire format promises: an object or a message that is written is read back as it was, the buffer is
  filled exactly, reading ends on every input, and how malformed input is treated.
\<close>

unbundle bit_operations_syntax

section \<open>Network byte order\<close>

definition be32 :: "u32 \<Rightarrow> u8 list" where
  "be32 v = [ucast (drop_bit 24 v), ucast (drop_bit 16 v), ucast (drop_bit 8 v), ucast v]"

definition be16 :: "u16 \<Rightarrow> u8 list" where
  "be16 v = [ucast (drop_bit 8 v), ucast v]"

definition of_be32 :: "u8 list \<Rightarrow> u32" where
  "of_be32 bs = push_bit 24 (ucast (bs ! 0)) OR push_bit 16 (ucast (bs ! 1)) OR push_bit 8 (ucast (bs ! 2)) OR ucast (bs ! 3)"

lemma be_length [simp]: "length (be32 v) = 4" "length (be16 h) = 2"
  by (simp_all add: be32_def be16_def)

lemma word32_cases:
  assumes "n < LENGTH(32)"
  obtains (byte0) "n < 8" | (byte1) "8 \<le> n" "n < 16" | (byte2) "16 \<le> n" "n < 24" | (byte3) "24 \<le> n" "n < 32"
  using assms by fastforce

lemma of_be32_be32 [simp]: "of_be32 (be32 v) = v"
proof (rule bit_word_eqI)
  fix n assume "n < LENGTH(32)"
  then show "bit (of_be32 (be32 v)) n = bit v n"
    by (cases rule: word32_cases) (simp_all add: of_be32_def be32_def bit_simps less_diff_conv2)
qed

lemma masks: "(0xFF :: u32) = mask 8" "(0xFFF :: u32) = mask 12" "(0xFFFF :: u32) = mask 16" "(0xF :: u32) = mask 4"
  by (simp_all add: mask_eq_exp_minus_1)

lemma of_be32_parts:
  "drop_bit 24 (of_be32 ([s, c] @ be16 t)) = ucast s"
  "drop_bit 16 (of_be32 ([s, c] @ be16 t)) AND 0xFF = ucast c"
  "of_be32 ([s, c] @ be16 t) AND 0xFFFF = ucast t"
proof (rule_tac [!] bit_word_eqI)
  fix n assume n: "n < LENGTH(32)"
  show "bit (drop_bit 24 (of_be32 ([s, c] @ be16 t))) n = bit (ucast s :: u32) n"
    using n by (cases rule: word32_cases) (auto simp: of_be32_def be16_def bit_simps dest: bit_imp_le_length)
  show "bit (drop_bit 16 (of_be32 ([s, c] @ be16 t)) AND 0xFF) n = bit (ucast c :: u32) n"
    using n by (cases rule: word32_cases) (auto simp: of_be32_def be16_def masks bit_simps less_diff_conv2 dest: bit_imp_le_length)
  show "bit (of_be32 ([s, c] @ be16 t) AND 0xFFFF) n = bit (ucast t :: u32) n"
    using n by (cases rule: word32_cases) (auto simp: of_be32_def be16_def masks bit_simps less_diff_conv2 dest: bit_imp_le_length)
qed

lemma bit_below:
  fixes x :: "'a::len word"
  assumes "unat x < 2 ^ n" "bit x k"
  shows "k < n"
proof -
  have "bit (unat x) k" using assms(2) bit_imp_le_length [OF assms(2)] by (simp add: bit_simps)
  then have "bit (take_bit n (unat x)) k" using take_bit_nat_eq_self [OF assms(1)] by simp
  then show ?thesis by (simp add: bit_take_bit_iff)
qed

lemma header_fields:
  fixes tr len :: u32 and ty :: u16
  assumes "tr < 4" "ty < 0x1000" "len < 0x1000"
  shows "drop_bit 30 (push_bit 30 tr OR push_bit 16 (ucast ty) OR len) = tr"
    "drop_bit 16 (push_bit 30 tr OR push_bit 16 (ucast ty) OR len) AND 0xFFF = ucast ty"
    "(push_bit 30 tr OR push_bit 16 (ucast ty) OR len) AND 0xFFF = len"
proof -
  have tr: "bit tr k \<Longrightarrow> k < 2" and ty: "bit ty k \<Longrightarrow> k < 12" and len: "bit len k \<Longrightarrow> k < 12" for k
    using assms bit_below [of tr 2 k] bit_below [of ty 12 k] bit_below [of len 12 k]
    by (simp_all add: word_less_nat_alt)
  show "drop_bit 30 (push_bit 30 tr OR push_bit 16 (ucast ty) OR len) = tr"
    by (rule bit_word_eqI) (auto simp: bit_simps dest: tr ty len)
  show "drop_bit 16 (push_bit 30 tr OR push_bit 16 (ucast ty) OR len) AND 0xFFF = ucast ty"
    by (rule bit_word_eqI) (auto simp: bit_simps masks dest: tr ty len)
  show "(push_bit 30 tr OR push_bit 16 (ucast ty) OR len) AND 0xFFF = len"
    by (rule bit_word_eqI) (auto simp: bit_simps masks dest: tr ty len)
qed

section \<open>What the external code is relied on for\<close>

text \<open>
  \<open>R b pre suf\<close> says that the buffer holds the bytes \<open>pre @ suf\<close> and that its position is after \<open>pre\<close>.
  A \<open>NetMsg\<close> reads and writes at its position, in network byte order, and refuses to go beyond its end.
\<close>

definition netmsg_step :: "('b, 'm) wire \<Rightarrow> ('b \<Rightarrow> u8 list \<Rightarrow> u8 list \<Rightarrow> bool) \<Rightarrow> 'b \<Rightarrow> u8 list \<Rightarrow> u8 list \<Rightarrow> bool" where
  "netmsg_step L R b pre suf = (
     length pre + length suf < 2 ^ 32 \<and> get_buffer L b = pre @ suf \<and>
     get_pos L b = of_nat (length pre) \<and> get_bytes_left L b = of_nat (length suf) \<and>
     (if length suf < 4 then decode32 L b = None \<and> peek32 L b = None
      else peek32 L b = Some (of_be32 (take 4 suf)) \<and>
        (\<exists>b'. decode32 L b = Some (of_be32 (take 4 suf), b') \<and> R b' (pre @ take 4 suf) (drop 4 suf))) \<and>
     (\<forall>v. 1 \<le> length suf \<longrightarrow> (\<exists>b'. encode8 L v b = Some b' \<and> R b' (pre @ [v]) (drop 1 suf))) \<and>
     (\<forall>v. 2 \<le> length suf \<longrightarrow> (\<exists>b'. encode16 L v b = Some b' \<and> R b' (pre @ be16 v) (drop 2 suf))) \<and>
     (\<forall>v. 4 \<le> length suf \<longrightarrow> (\<exists>b'. encode32 L v b = Some b' \<and> R b' (pre @ be32 v) (drop 4 suf))) \<and>
     (\<forall>n. unat n \<le> length suf \<longrightarrow> copy_to L (of_nat (length pre)) n b = Some (take (unat n) suf)) \<and>
     (\<forall>bs. length bs \<le> length suf \<longrightarrow>
        (\<exists>b'. copy_from L bs (of_nat (length pre)) b = Some b' \<and> R b' pre (bs @ drop (length bs) suf))) \<and>
     (\<forall>n. n \<le> length pre + length suf \<longrightarrow>
        (\<exists>b'. set_pos L (of_nat n) b = Some b' \<and> R b' (take n (pre @ suf)) (drop n (pre @ suf)))))"

definition netmsg_laws :: "('b, 'm) wire \<Rightarrow> ('b \<Rightarrow> u8 list \<Rightarrow> u8 list \<Rightarrow> bool) \<Rightarrow> bool" where
  "netmsg_laws L R = (
     (\<forall>bs. length bs < 2 ^ 32 \<longrightarrow> R (new_filled L bs) [] bs) \<and>
     (\<forall>n. n < 2 ^ 32 \<longrightarrow> (\<exists>bs. length bs = n \<and> R (new_sized L n) [] bs)) \<and>
     (\<forall>b pre suf. R b pre suf \<longrightarrow> netmsg_step L R b pre suf))"

text \<open>The framework accepts a valid object in a supported coding and finds the registered elements.\<close>

definition ie_laws :: "('b, 'm) wire \<Rightarrow> bool" where
  "ie_laws L = (
     check_ser_args L True True = None \<and> (\<forall>err. check_deser_args L True err = (True, err)) \<and>
     (\<forall>regs c t. iem_lookup L regs c t = find (\<lambda>e. ie_category e = c \<and> ie_type e = t) regs) \<and>
     (\<forall>f lookup c t. iem_new_instance L f lookup c t = map_option f (lookup c t)))"

text \<open>A mspec message that is exported and that an import reads back, with the padding left over.\<close>

definition exportable :: "('b, 'm) wire \<Rightarrow> 'm \<Rightarrow> bool" where
  "exportable L m = (case ipap_get_message L m of
       None \<Rightarrow> False
     | Some bs \<Rightarrow> \<not> ipap_get_require_output L m \<and> ipap_get_offset L m = length bs \<and> 0 < length bs \<and> length bs \<le> 16380 \<and>
         (\<forall>n < 4. ipap_import L (bs @ replicate n 0) (ipap_default L) = Some (length bs, m)))"

lemma netmsg_new:
  assumes "netmsg_laws L R"
  shows "length bs < 2 ^ 32 \<Longrightarrow> R (new_filled L bs) [] bs"
    "n < 2 ^ 32 \<Longrightarrow> \<exists>bs. length bs = n \<and> R (new_sized L n) [] bs"
  using assms by (simp_all add: netmsg_laws_def)

lemma netmsg_facts:
  assumes "netmsg_laws L R" "R b pre suf"
  shows "length pre + length suf < 2 ^ 32" "get_buffer L b = pre @ suf" "get_pos L b = of_nat (length pre)"
    "get_bytes_left L b = of_nat (length suf)"
    "length suf < 4 \<Longrightarrow> decode32 L b = None" "length suf < 4 \<Longrightarrow> peek32 L b = None"
    "4 \<le> length suf \<Longrightarrow> peek32 L b = Some (of_be32 (take 4 suf))"
    "4 \<le> length suf \<Longrightarrow> \<exists>b'. decode32 L b = Some (of_be32 (take 4 suf), b') \<and> R b' (pre @ take 4 suf) (drop 4 suf)"
    "1 \<le> length suf \<Longrightarrow> \<exists>b'. encode8 L v b = Some b' \<and> R b' (pre @ [v]) (drop 1 suf)"
    "2 \<le> length suf \<Longrightarrow> \<exists>b'. encode16 L v16 b = Some b' \<and> R b' (pre @ be16 v16) (drop 2 suf)"
    "4 \<le> length suf \<Longrightarrow> \<exists>b'. encode32 L v32 b = Some b' \<and> R b' (pre @ be32 v32) (drop 4 suf)"
    "unat n16 \<le> length suf \<Longrightarrow> copy_to L (of_nat (length pre)) n16 b = Some (take (unat n16) suf)"
    "length bs \<le> length suf \<Longrightarrow>
       \<exists>b'. copy_from L bs (of_nat (length pre)) b = Some b' \<and> R b' pre (bs @ drop (length bs) suf)"
    "n \<le> length pre + length suf \<Longrightarrow>
       \<exists>b'. set_pos L (of_nat n) b = Some b' \<and> R b' (take n (pre @ suf)) (drop n (pre @ suf))"
  using assms by (simp_all add: netmsg_laws_def netmsg_step_def split: if_splits)

section \<open>The bytes of an object\<close>

definition padding :: "nat \<Rightarrow> u8 list" where
  "padding n = replicate (if n mod 4 = 0 then 0 else 4 - n mod 4) 0"

definition body_bytes :: "('b, 'm) wire \<Rightarrow> 'm object_body \<Rightarrow> u8 list" where
  "body_bytes L bd = (case bd of
       Information_code s c t \<Rightarrow> [s AND 0xF, c] @ be16 t
     | Selection_auctioning_entities v \<Rightarrow> be32 v
     | Message_hop_count v \<Rightarrow> be32 v
     | Msg_sequence_number v \<Rightarrow> be32 v
     | Session_lifetime v \<Rightarrow> be32 v
     | Ipap_message m \<Rightarrow> (case ipap_get_message L m of None \<Rightarrow> [] | Some bs \<Rightarrow> bs @ padding (length bs)))"

definition object_header :: "'m anslp_object \<Rightarrow> nat \<Rightarrow> u32" where
  "object_header obj n = push_bit 30 (treatment_code (treatment obj)) OR push_bit 16 (ucast (obj_type obj)) OR of_nat (n div 4)"

definition object_bytes :: "('b, 'm) wire \<Rightarrow> 'm anslp_object \<Rightarrow> u8 list" where
  "object_bytes L obj = be32 (object_header obj (length (body_bytes L (body obj)))) @ body_bytes L (body obj)"

text \<open>The objects that can be sent: those of the constructors that pass their own check.\<close>

definition sendable :: "('b, 'm) wire \<Rightarrow> 'm anslp_object \<Rightarrow> bool" where
  "sendable L obj = (wf_object obj \<and> (case body obj of
       Information_code s c t \<Rightarrow> s < 16 \<and> t = 0
     | Ipap_message m \<Rightarrow> exportable L m
     | _ \<Rightarrow> True))"

definition padded :: "nat \<Rightarrow> nat" where
  "padded n = n + (if n mod 4 = 0 then 0 else 4 - n mod 4)"

lemma padded_facts: "padded n mod 4 = 0" "n \<le> 16380 \<Longrightarrow> padded n \<le> 16380" "padded (4 + n) = 4 + padded n"
proof -
  obtain q r where n: "n = 4 * q + r" "r < 4" by (metis mod_less_divisor mult_div_mod_eq zero_less_numeral)
  then have r: "n mod 4 = r" by simp
  from n(2) consider "r = 0" | "r = 1" | "r = 2" | "r = 3" by linarith
  then show "padded n mod 4 = 0" "n \<le> 16380 \<Longrightarrow> padded n \<le> 16380" "padded (4 + n) = 4 + padded n"
    by (cases; simp add: padded_def r; simp add: n(1))+
qed

lemma body_bytes_length:
  assumes "sendable L obj"
  shows "length (body_bytes L (body obj)) mod 4 = 0" "length (body_bytes L (body obj)) \<le> 16380"
    "length (body_bytes L (body obj)) = object_serialized_size L obj - HEADER_LENGTH"
proof -
  have "length (body_bytes L (body obj)) mod 4 = 0 \<and> length (body_bytes L (body obj)) \<le> 16380 \<and>
    length (body_bytes L (body obj)) = object_serialized_size L obj - HEADER_LENGTH"
  proof (cases "body obj")
    case (Ipap_message m)
    then obtain bs where bs: "ipap_get_message L m = Some bs" "ipap_get_offset L m = length bs" "length bs \<le> 16380"
      using assms by (auto simp: sendable_def exportable_def split: option.splits)
    then have "length (body_bytes L (body obj)) = padded (length bs)"
      using Ipap_message by (simp add: body_bytes_def padding_def padded_def)
    moreover have "object_serialized_size L obj = padded (HEADER_LENGTH + length bs)"
      using Ipap_message bs(2) by (simp add: object_serialized_size_def padded_def Let_def)
    ultimately show ?thesis using padded_facts [of "length bs"] bs(3) by (simp add: HEADER_LENGTH_def)
  qed (simp_all add: body_bytes_def object_serialized_size_def)
  then show "length (body_bytes L (body obj)) mod 4 = 0" "length (body_bytes L (body obj)) \<le> 16380"
    "length (body_bytes L (body obj)) = object_serialized_size L obj - HEADER_LENGTH" by blast+
qed

lemma treatment_of_code: "treatment_code tr < 4" "drop_bit 30 h = treatment_code tr \<Longrightarrow> treatment_of h = tr"
  by (cases tr; simp add: treatment_code_def treatment_of_def Let_def)+

lemma ucast_there_and_back: "ucast (ucast (t :: u16) :: u32) = t"
  by (rule bit_word_eqI) (simp add: bit_simps)

lemma sendable_type: "sendable L obj \<Longrightarrow> obj_type obj < 0x1000"
  by (cases "body obj") (auto simp: sendable_def wf_object_def OT_defs)

lemma object_header_parts:
  assumes "obj_type obj < 0x1000" and n: "n mod 4 = 0" "n \<le> 16380"
  shows "treatment_of (object_header obj n) = treatment obj" "extract_object_type (object_header obj n) = obj_type obj"
    "ucast ((object_header obj n AND 0xFFF) * 4) = (of_nat n :: u16)"
proof -
  have div: "unat (of_nat (n div 4) :: u32) = n div 4" using n(2) by (simp add: unat_of_nat take_bit_nat_eq_self)
  then have small: "(of_nat (n div 4) :: u32) < 0x1000" using n(2) by (simp add: word_less_nat_alt)
  note f = header_fields [OF treatment_of_code(1) [of "treatment obj"] assms(1) small]
  show "treatment_of (object_header obj n) = treatment obj"
    using treatment_of_code(2) f(1) by (simp add: object_header_def)
  show "extract_object_type (object_header obj n) = obj_type obj"
    using f(2) ucast_there_and_back by (simp add: object_header_def extract_object_type_def)
  have "(of_nat (n div 4) * 4 :: u32) = of_nat (n div 4 * 4)" by simp
  also have "n div 4 * 4 = n" using n(1) by presburger
  finally have "(of_nat (n div 4) * 4 :: u32) = of_nat n" .
  moreover have "ucast (of_nat n :: u32) = (of_nat n :: u16)"
    using n(2) by (simp add: unsigned_of_nat take_bit_nat_eq_self)
  ultimately show "ucast ((object_header obj n AND 0xFFF) * 4) = (of_nat n :: u16)"
    using f(3) by (simp add: object_header_def)
qed

lemmas object_header_fields = object_header_parts [OF sendable_type body_bytes_length(1,2)]

section \<open>Writing\<close>

text \<open>\<open>writes L R f bs\<close>: wherever there is room, \<open>f\<close> writes exactly the bytes \<open>bs\<close>.\<close>

definition writes :: "('b \<Rightarrow> u8 list \<Rightarrow> u8 list \<Rightarrow> bool) \<Rightarrow> ('b \<Rightarrow> (wire_exn, unit) outcome \<times> 'b) \<Rightarrow> u8 list \<Rightarrow> bool" where
  "writes R f bs = (\<forall>b pre suf. R b pre suf \<and> length bs \<le> length suf \<longrightarrow>
     (\<exists>b'. f b = (Ok (), b') \<and> R b' (pre @ bs) (drop (length bs) suf)))"

lemma writes_call:
  assumes "writes R f bs" "writes R g bs'"
  shows "writes R (\<lambda>b. call (f b) (\<lambda>_. g)) (bs @ bs')"
  unfolding writes_def
proof (intro allI impI, elim conjE)
  fix b pre suf assume R: "R b pre suf" and len: "length (bs @ bs') \<le> length suf"
  from R len assms(1) obtain b1 where one: "f b = (Ok (), b1)" "R b1 (pre @ bs) (drop (length bs) suf)"
    unfolding writes_def by (metis le_trans length_append le_add1)
  moreover from one(2) len assms(2) obtain b2 where "g b1 = (Ok (), b2)"
    "R b2 ((pre @ bs) @ bs') (drop (length bs') (drop (length bs) suf))"
    unfolding writes_def by (metis add_le_imp_le_diff add.commute length_append length_drop)
  ultimately show "\<exists>b'. call (f b) (\<lambda>_. g) = (Ok (), b') \<and> R b' (pre @ bs @ bs') (drop (length (bs @ bs')) suf)"
    by (simp add: add.commute)
qed

lemma writes_none: "writes R (\<lambda>b. (Ok (), b)) []"
  by (simp add: writes_def)

lemma writes_encode8: "netmsg_laws L R \<Longrightarrow> writes R (\<lambda>b. net b (encode8 L v b)) [v]"
  using netmsg_facts(9) [of L R _ _ _ v] by (force simp: writes_def net_def)

lemma writes_encode16: "netmsg_laws L R \<Longrightarrow> writes R (\<lambda>b. net b (encode16 L v b)) (be16 v)"
  using netmsg_facts(10) [of L R _ _ _ v] by (force simp: writes_def net_def)

lemma writes_encode32: "netmsg_laws L R \<Longrightarrow> writes R (\<lambda>b. net b (encode32 L v b)) (be32 v)"
  using netmsg_facts(11) [of L R _ _ _ v] by (force simp: writes_def net_def)

lemma writes_too_short: "writes R f bs \<Longrightarrow> writes R (\<lambda>b. too_short L c k (f b)) bs"
  by (fastforce simp: writes_def too_short_def)

lemma writes_put:
  assumes "netmsg_laws L R" "n \<le> length bs"
  shows "writes R (put_bytes L bs n) (take n bs)"
  unfolding writes_def
proof (intro allI impI, elim conjE)
  fix b pre suf assume R: "R b pre suf" and len: "length (take n bs) \<le> length suf"
  note f = netmsg_facts [OF assms(1) R]
  have n: "length (take n bs) = n" using assms(2) by simp
  obtain b1 where one: "copy_from L (take n bs) (of_nat (length pre)) b = Some b1" "R b1 pre (take n bs @ drop n suf)"
    using f(13) [OF len] n by auto
  have "length pre + n \<le> length pre + length (take n bs @ drop n suf)" using n by simp
  then obtain b2 where "set_pos L (of_nat (length pre + n)) b1 = Some b2" "R b2 (pre @ take n bs) (drop n suf)"
    using netmsg_facts(14) [OF assms(1) one(2), of "length pre + n"] n by auto
  then show "\<exists>b'. put_bytes L bs n b = (Ok (), b') \<and> R b' (pre @ take n bs) (drop (length (take n bs)) suf)"
    using one(1) f(3) n by (simp add: put_bytes_def net_def)
qed

lemma writes_ipap:
  assumes "netmsg_laws L R" "exportable L m"
  shows "writes R (serialize_ipap_body L m) (body_bytes L (Ipap_message m))"
proof -
  obtain bs where bs: "ipap_get_message L m = Some bs" "\<not> ipap_get_require_output L m" "ipap_get_offset L m = length bs"
    using assms(2) by (auto simp: exportable_def split: option.splits)
  let ?tail = "\<lambda>b. if length bs mod 4 = 0 then (Ok (), b) else put_bytes L (replicate 4 0) (4 - length bs mod 4) b"
  have "writes R ?tail (padding (length bs))"
    using writes_put [OF assms(1), of "4 - length bs mod 4" "replicate 4 0"] writes_none [of R] by (simp add: padding_def)
  from writes_call [OF writes_put [OF assms(1) order.refl] this] have
    "writes R (\<lambda>b. call (put_bytes L bs (length bs) b) (\<lambda>_. ?tail)) (bs @ padding (length bs))" by simp
  moreover have "serialize_ipap_body L m = (\<lambda>b. call (put_bytes L bs (length bs) b) (\<lambda>_. ?tail))"
    using bs by (auto simp: serialize_ipap_body_def mspec_get_message_def Let_def fun_eq_iff intro!: arg_cong2 [where f = call])
  ultimately show ?thesis using bs(1) by (simp add: body_bytes_def)
qed

lemma writes_body:
  assumes "netmsg_laws L R" "sendable L obj"
  shows "writes R (serialize_body L (body obj)) (body_bytes L (body obj))"
proof (cases "body obj")
  case (Information_code s c t)
  have "(0xFFFF :: u16) = - 1" by simp
  then have "t AND 0xFFFF = t" by (simp only: and.right_neutral)
  then show ?thesis
    using Information_code writes_call [OF writes_encode8 [OF assms(1)] writes_call [OF writes_encode8 writes_encode16], OF assms(1,1), of "s AND 0xF" c t]
    by (simp add: serialize_body_def body_bytes_def writes_def)
next
  case (Ipap_message m)
  then have "serialize_body L (body obj) = serialize_ipap_body L m" by (simp add: serialize_body_def fun_eq_iff)
  moreover have "exportable L m" using assms(2) Ipap_message by (simp add: sendable_def)
  ultimately show ?thesis using writes_ipap [OF assms(1)] Ipap_message by metis
qed (use writes_encode32 [OF assms(1)] in \<open>simp_all add: writes_def serialize_body_def body_bytes_def\<close>)

text \<open>The objects that can be sent are those that pass their check.\<close>

lemma sendable_check: "sendable L obj \<Longrightarrow> ipap_object_check L obj"
proof -
  assume send: "sendable L obj"
  have "obj_type obj AND NOT 0xFFF = 0"
    using send by (cases "body obj") (auto simp: sendable_def wf_object_def OT_defs)
  moreover have "s AND 0xF0 = 0" if "s < 16" for s :: u8
  proof (rule bit_word_eqI)
    fix n :: nat assume "n < LENGTH(8)"
    have "bit s n \<Longrightarrow> n < 4" using bit_below [of s 4 n] that by (simp add: word_less_nat_alt)
    moreover have "\<not> bit (0xF0 :: u8) n" if "n < 4" using that by (auto simp: less_Suc_eq numeral_eq_Suc)
    ultimately show "bit (s AND 0xF0) n = bit (0 :: u8) n" by (auto simp: bit_simps)
  qed
  ultimately show ?thesis using send
    by (cases "body obj") (auto simp: sendable_def ipap_object_check_def object_check_def check_body_def exportable_def
        split: option.splits)
qed

lemma writes_object:
  assumes "netmsg_laws L R" "ie_laws L" "sendable L obj"
  shows "writes R (object_serialize L Protocol_v1 obj) (object_bytes L obj)"
proof -
  let ?n = "length (body_bytes L (body obj))"
  note n = body_bytes_length [OF assms(3)]
  have "ucast (of_nat ?n div 4 :: u16) = (of_nat (?n div 4) :: u32)"
    using n(2) by (intro word_unat_eq_iff [THEN iffD2]) (simp add: unat_div unat_of_nat take_bit_nat_eq_self unsigned_ucast_eq
        take_bit_word_eq_self)
  then have "serialize_header L obj (of_nat ?n) = (\<lambda>b. net b (encode32 L (object_header obj ?n) b))"
    by (simp add: serialize_header_def object_header_def Let_def fun_eq_iff)
  then have "writes R (serialize_header L obj (of_nat ?n)) (be32 (object_header obj ?n))"
    using writes_encode32 [OF assms(1)] by metis
  from writes_call [OF writes_too_short [OF this] writes_too_short [OF writes_body [OF assms(1,3)]]]
  have "writes R (\<lambda>b. call (too_short L Protocol_v1 Cat_anslp_object (serialize_header L obj (of_nat ?n) b))
      (\<lambda>_ b. too_short L Protocol_v1 Cat_anslp_object (serialize_body L (body obj) b))) (object_bytes L obj)"
    unfolding object_bytes_def .
  moreover have "object_serialize L Protocol_v1 obj = (\<lambda>b. call (too_short L Protocol_v1 Cat_anslp_object (serialize_header L obj (of_nat ?n) b))
      (\<lambda>_ b. too_short L Protocol_v1 Cat_anslp_object (serialize_body L (body obj) b)))"
    using assms(2) sendable_check [OF assms(3)]
    by (simp add: object_serialize_def fun_eq_iff ie_laws_def supports_coding_def n(3))
  ultimately show ?thesis by simp
qed

section \<open>Reading an object\<close>

text \<open>The instance that the registry gives for the type of an object.\<close>

lemmas new_object_defs = new_information_code_def new_selection_auctioning_entities_def new_message_hop_count_def
  new_msg_sequence_number_def new_session_lifetime_def new_anslp_ipap_message_def

lemma registry_object:
  assumes "ie_laws L" "wf_object obj"
  shows "iem_new_instance L (ie_new_instance L) (lookup_ie L) Cat_anslp_object (obj_type obj) =
      Some (Ie_object (object_new_instance L obj))"
    "unique (object_new_instance L obj) = unique obj"
  using assms
  by (cases "body obj"; simp add: ie_laws_def lookup_ie_def register_known_ies_def ie_category_def ie_type_def
      ie_new_instance_def object_new_instance_def wf_object_def is_mspec_def OT_defs new_object_defs)+

text \<open>\<open>reads L R f bs x\<close>: \<open>f\<close> consumes the bytes \<open>bs\<close>, whatever follows them, gives \<open>x\<close> and records no error.\<close>

definition reads :: "('b \<Rightarrow> u8 list \<Rightarrow> u8 list \<Rightarrow> bool) \<Rightarrow> (ie_error list \<times> 'b \<Rightarrow> (wire_exn, 'a) outcome \<times> ie_error list \<times> 'b)
    \<Rightarrow> u8 list \<Rightarrow> 'a \<Rightarrow> bool" where
  "reads R f bs x = (\<forall>err b pre rest. R b pre (bs @ rest) \<longrightarrow>
     (\<exists>b'. f (err, b) = (Ok x, err, b') \<and> R b' (pre @ bs) rest))"

lemma decode32_reads:
  assumes "netmsg_laws L R" "R b pre (bs @ rest)" "length bs = 4"
  obtains b' where "decode32 L b = Some (of_be32 bs, b')" "R b' (pre @ bs) rest"
  using netmsg_facts(8) [OF assms(1,2)] assms(3) by auto

lemma reads_value: "netmsg_laws L R \<Longrightarrow> reads R (decode_value L mk) (be32 v) (Some (mk v))"
  by (auto simp: reads_def decode_value_def elim: decode32_reads)

lemma reads_ipap:
  assumes "netmsg_laws L R" "exportable L m" "n = of_nat (length (body_bytes L (Ipap_message m)))"
  shows "reads R (deserialize_ipap_body L n (ipap_default L)) (body_bytes L (Ipap_message m)) (Some (Ipap_message m))"
  unfolding reads_def
proof (intro allI impI)
  fix err b pre rest assume R: "R b pre (body_bytes L (Ipap_message m) @ rest)"
  obtain bs where bs: "ipap_get_message L m = Some bs" "length bs \<le> 16380"
    "\<And>k. k < 4 \<Longrightarrow> ipap_import L (bs @ replicate k 0) (ipap_default L) = Some (length bs, m)"
    using assms(2) by (auto simp: exportable_def split: option.splits)
  let ?bytes = "body_bytes L (Ipap_message m)"
  have bytes: "?bytes = bs @ padding (length bs)" using bs(1) by (simp add: body_bytes_def)
  then have len: "length ?bytes \<le> 16380" using padded_facts(2) [OF bs(2)] by (simp add: padding_def padded_def)
  then have n: "unat n = length ?bytes" using assms(3) by (simp add: unat_of_nat take_bit_nat_eq_self)
  note f = netmsg_facts [OF assms(1) R]
  have "copy_to L (get_pos L b) n b = Some ?bytes" using f(3,12) n by simp
  moreover have "ipap_import L ?bytes (ipap_default L) = Some (length bs, m)"
    unfolding bytes padding_def by (rule bs(3)) simp
  moreover have "\<not> list_ex (\<lambda>x. x \<noteq> 0) (drop (length bs) ?bytes)"
    unfolding bytes by (simp add: padding_def list_ex_iff)
  moreover have "ucast n = (of_nat (length ?bytes) :: u32)"
    using n len by (intro word_unat_eq_iff [THEN iffD2]) (simp add: unsigned_ucast_eq take_bit_word_eq_self unat_of_nat
        take_bit_nat_eq_self)
  moreover obtain b' where "set_pos L (of_nat (length pre + length ?bytes)) b = Some b'" "R b' (pre @ ?bytes) rest"
    using f(14) [of "length pre + length ?bytes"] by auto
  ultimately show "\<exists>b'. deserialize_ipap_body L n (ipap_default L) (err, b) = (Ok (Some (Ipap_message m)), err, b') \<and>
      R b' (pre @ ?bytes) rest"
    using f(3) by (simp add: deserialize_ipap_body_def Let_def)
qed

lemma nibble:
  assumes "(s :: u8) < 16"
  shows "s AND 0xF = s" "ucast ((ucast s :: u32) AND 0xF) = s"
proof -
  have bits: "bit s k \<Longrightarrow> k < 4" for k using assms bit_below [of s 4 k] by (simp add: word_less_nat_alt)
  have mask: "(0xF :: u8) = mask 4" by (simp add: mask_eq_exp_minus_1)
  show "s AND 0xF = s" unfolding mask using bits by (intro bit_word_eqI) (auto simp: bit_simps)
  show "ucast ((ucast s :: u32) AND 0xF) = s"
    unfolding masks using bits by (intro bit_word_eqI) (auto simp: bit_simps)
qed

lemma ucast_byte: "ucast (ucast (c :: u8) :: u32) = c"
  by (rule bit_word_eqI) (simp add: bit_simps)

lemma reads_body:
  assumes "netmsg_laws L R" "sendable L obj" "n = of_nat (length (body_bytes L (body obj)))"
    and "obj_type inst = obj_type obj" "treatment inst = treatment obj" "unique inst = unique obj"
    and "body inst = body (object_new_instance L obj)"
  shows "reads R (deserialize_body L n skip inst) (body_bytes L (body obj)) (Some (body obj))"
proof (cases "body obj")
  case (Information_code s c t)
  then have t: "s < 16" "t = 0" using assms(2) by (simp_all add: sendable_def)
  let ?bs = "[s AND 0xF, c] @ be16 t"
  have v: "Information_code (ucast (drop_bit 24 (of_be32 ?bs) AND 0xF)) (ucast (drop_bit 16 (of_be32 ?bs) AND 0xFF))
      (ucast (of_be32 ?bs AND 0xFFFF)) = body obj"
    using t Information_code by (simp only: of_be32_parts nibble ucast_byte ucast_there_and_back)
  have "inst\<lparr>body := body obj\<rparr> = obj" using assms(4-6) by simp
  then have check: "ipap_object_check L (inst\<lparr>body := body obj\<rparr>)" using sendable_check [OF assms(2)] by simp
  have body: "body inst = Information_code 0 0 0" using assms(7) Information_code by (simp add: object_new_instance_def new_object_defs)
  have bytes: "body_bytes L (body obj) = ?bs" using Information_code by (simp add: body_bytes_def)
  have len: "length ?bs = 4" by simp
  show ?thesis unfolding reads_def bytes
  proof (intro allI impI)
    fix err b pre rest assume R: "R b pre (?bs @ rest)"
    obtain b' where "decode32 L b = Some (of_be32 ?bs, b')" "R b' (pre @ ?bs) rest"
      using decode32_reads [OF assms(1) R len] by blast
    then show "\<exists>b'. deserialize_body L n skip inst (err, b) = (Ok (Some (body obj)), err, b') \<and> R b' (pre @ ?bs) rest"
      using v check unfolding deserialize_body_def body by (simp add: Let_def)
  qed
next
  case (Ipap_message m)
  then show ?thesis using assms reads_ipap [OF assms(1), of m n]
    unfolding reads_def deserialize_body_def sendable_def by (simp add: object_new_instance_def new_object_defs)
qed (use assms(7) reads_value [OF assms(1)] in \<open>simp_all add: reads_def deserialize_body_def body_bytes_def
    object_new_instance_def new_object_defs\<close>)

lemma header_read:
  assumes "netmsg_laws L R" "decode32 L b = Some (object_header obj n, b1)" "R b1 pre suf" "obj_type obj < 0x1000"
    "n mod 4 = 0" "n \<le> 16380" "n \<le> length suf"
  shows "deserialize_header L inst (err, b) =
    (Ok (Some (of_nat n, inst\<lparr>treatment := treatment obj, obj_type := obj_type obj\<rparr>)), err, b1)"
proof -
  have n16: "unat (of_nat n :: u16) = n" using assms(6) by (simp add: unat_of_nat take_bit_nat_eq_self)
  have "unat (get_bytes_left L b1) = length suf"
    using netmsg_facts(1,4) [OF assms(1,3)] by (simp add: unat_of_nat take_bit_nat_eq_self)
  then have "\<not> get_bytes_left L b1 < ucast (of_nat n :: u16)"
    using n16 assms(7) le_trans [OF take_bit_nat_less_eq_self [of 32 n] assms(7)]
    by (simp add: word_less_nat_alt unsigned_ucast_eq take_bit_word_eq_self not_less)
  then show ?thesis using assms(2) object_header_parts [OF assms(4-6)] by (simp add: deserialize_header_def Let_def)
qed

lemma reads_object:
  assumes "netmsg_laws L R" "ie_laws L" "sendable L obj"
  shows "reads R (deserialize_object L Protocol_v1 skip) (object_bytes L obj) (Some (Ie_object obj))"
  unfolding reads_def
proof (intro allI impI)
  fix err b pre rest assume R: "R b pre (object_bytes L obj @ rest)"
  let ?body = "body_bytes L (body obj)"
  let ?n = "length ?body"
  let ?h = "object_header obj ?n"
  note n = body_bytes_length [OF assms(3)] and h = object_header_fields [OF assms(3) assms(3) assms(3)]
  have wf: "wf_object obj" using assms(3) by (simp add: sendable_def)
  have R': "R b pre (be32 ?h @ ?body @ rest)" using R by (simp add: object_bytes_def)
  obtain b1 where b1: "decode32 L b = Some (?h, b1)" "R b1 (pre @ be32 ?h) (?body @ rest)"
    using decode32_reads [OF assms(1) R'] by auto
  have peek: "peek32 L b = Some ?h" using netmsg_facts(7) [OF assms(1) R'] by simp
  let ?inst = "(object_new_instance L obj)\<lparr>treatment := treatment obj, obj_type := obj_type obj\<rparr>"
  have header: "deserialize_header L (object_new_instance L obj) (err, b) = (Ok (Some (of_nat ?n, ?inst)), err, b1)"
    using header_read [OF assms(1) b1 sendable_type [OF assms(3)] n(1,2)] by simp
  have "reads R (deserialize_body L (of_nat ?n) skip ?inst) ?body (Some (body obj))"
    using reads_body [OF assms(1,3) refl, of ?inst] registry_object(2) [OF assms(2) wf] by simp
  then obtain b' where "deserialize_body L (of_nat ?n) skip ?inst (err, b1) = (Ok (Some (body obj)), err, b')"
    "R b' ((pre @ be32 ?h) @ ?body) rest"
    using b1(2) unfolding reads_def by blast
  moreover have "?inst\<lparr>body := body obj\<rparr> = obj" using registry_object(2) [OF assms(2) wf] by simp
  moreover have "check_deser_args L (supports_coding Protocol_v1) err = (True, err)"
    using assms(2) by (simp add: ie_laws_def supports_coding_def)
  ultimately show "\<exists>b'. deserialize_object L Protocol_v1 skip (err, b) = (Ok (Some (Ie_object obj)), err, b') \<and>
      R b' (pre @ object_bytes L obj) rest"
    using header peek h(2) registry_object(1) [OF assms(2) wf]
    by (simp add: deserialize_object_def object_deserialize_def Let_def object_bytes_def)
qed

text \<open>
  C19: writing an object of any class and reading it back gives the same object. The object takes exactly the
  announced size, reading consumes exactly what was written, whatever follows, and records no error.
\<close>

theorem object_roundtrip:
  assumes "netmsg_laws L R" "ie_laws L" "sendable L obj"
  shows "\<exists>bs. length bs = object_serialized_size L obj \<and> writes R (object_serialize L Protocol_v1 obj) bs \<and>
    reads R (deserialize_object L Protocol_v1 skip) bs (Some (Ie_object obj))"
proof (intro exI conjI)
  have "HEADER_LENGTH \<le> object_serialized_size L obj"
    by (cases "body obj") (simp_all add: object_serialized_size_def Let_def HEADER_LENGTH_def)
  then show "length (object_bytes L obj) = object_serialized_size L obj"
    using body_bytes_length(3) [OF assms(3)] by (simp add: object_bytes_def HEADER_LENGTH_def)
qed (rule writes_object [OF assms] reads_object [OF assms])+

end
