(* ===== verification/Wire_Messages.thy ===== *)
theory Wire_Messages
  imports Wire_Properties
begin

text \<open>
  Messages on the wire: a message with the objects of its class is written completely and read back as it was.
  Reading rebuilds the object store with \<open>set_object\<close>, object by object; the round trip therefore rests on
  the laws of the store (\<open>Ie_Store\<close>) and on those of single objects (\<open>Wire_Properties\<close>).
\<close>

section \<open>Stores with the same objects are the same\<close>

lemma ordered_same_set:
  assumes "ie_store_ordered st" "ie_store_ordered st'" "set st = set st'"
  shows "st = st'"
  using assms
proof (induction st arbitrary: st')
  case (Cons p st)
  obtain p' st'' where st': "st' = p' # st''" using Cons.prems(3) by (cases st') auto
  have below: "\<forall>q \<in> set st. ie_object_key_lt (fst p) (fst q)" "\<forall>q \<in> set st''. ie_object_key_lt (fst p') (fst q)"
    and rest: "ie_store_ordered st" "ie_store_ordered st''"
    using Cons.prems(1,2) st' by (cases p; cases p'; auto simp: map_ordered_Cons)+
  have "p \<in> set (p' # st'')" "p' \<in> set (p # st)" using Cons.prems(3) st' by auto
  then have p: "p = p'" using below key_order.lt_asym by auto
  then have "set st = set st''"
    using Cons.prems(3) st' below key_order.lt_irrefl by (metis (no_types, lifting) insert_eq_iff list.simps(15))
  then show ?case using Cons.IH [OF rest] p st' by simp
qed simp

lemma stores_with_same_objects:
  assumes "registered_store st" "registered_store st'"
    and "\<And>k. registered_key k \<Longrightarrow> ie_store_get k st = ie_store_get k st'"
  shows "st = st'"
proof (rule ordered_same_set)
  have "(k, x) \<in> set b" if "(k, x) \<in> set a" "registered_store a" "registered_store b"
    "\<And>k. registered_key k \<Longrightarrow> ie_store_get k a = ie_store_get k b" for k x and a b :: "'a ie_store"
  proof -
    have "registered_key k" using that(1,2) by (force simp: registered_store_def)
    then show ?thesis using that ie_store_get_member [of a k x] ie_store_get_Some [of b k x] by simp
  qed
  then show "set st = set st'" using assms by (metis (no_types, opaque_lifting) subrelI subset_antisym)
qed (use assms in \<open>simp_all add: registered_store_def\<close>)

section \<open>Rebuilding a message object by object\<close>

text \<open>\<open>part m m0 D\<close>: \<open>m0\<close> has exactly the objects of \<open>m\<close> whose keys are in \<open>D\<close>.\<close>

definition part :: "'m anslp_msg \<Rightarrow> 'm anslp_msg \<Rightarrow> ie_object_key set \<Rightarrow> bool" where
  "part m m0 D = (wf_msg m0 \<and> msg_class m0 = msg_class m \<and> msg_type m0 = msg_type m \<and>
     (\<forall>k. registered_key k \<longrightarrow> get_object k m0 = (if k \<in> D then get_object k m else None)))"

text \<open>No object of the list is refused as a duplicate when they are set in order.\<close>

fun accepts :: "'m anslp_msg \<Rightarrow> 'm anslp_object list \<Rightarrow> bool" where
  "accepts m [] = True"
| "accepts m (obj # objs) = (\<not> is_duplicate obj m \<and> accepts (set_object obj m) objs)"

lemma accepts_append: "accepts m (xs @ ys) \<longleftrightarrow> accepts m xs \<and> accepts (fold set_object xs m) ys"
  by (induction xs arbitrary: m) simp_all

lemma msg_type_set_object [simp]: "msg_type (set_object obj m) = msg_type m"
  by (simp add: set_object_storage_key)

lemma part_step:
  assumes "part m m0 D" "k \<notin> D" "get_object k m = Some obj" "wf_object obj" "storage_key obj m0 = k"
    "unique obj \<or> mspec_room m0"
  shows "part m (set_object obj m0) (insert k D)" "\<not> is_duplicate obj m0"
proof -
  have reg: "registered_key k"
    using assms(4-6) storage_key_registered storage_key_registered_unique by blast
  have wf: "wf_msg (set_object obj m0)" using assms by (simp add: part_def wf_set_object)
  have "registered_store (objects m0)" using assms(1) by (simp add: part_def wf_msg_def wf_store_def)
  then show "part m (set_object obj m0) (insert k D)"
    using assms(1,3,5) reg wf by (auto simp: part_def get_object_def set_object_storage_key ie_store_get_set)
  have "k = unique_key (obj_type obj)" if "unique obj"
    using assms(5) that by (auto simp: storage_key_def unique_key_def)
  then show "\<not> is_duplicate obj m0" using assms(1,2) reg by (auto simp: is_duplicate_def part_def)
qed

lemma part_whole:
  assumes "part m m0 D" "wf_msg m" "\<forall>k. registered_key k \<longrightarrow> k \<notin> D \<longrightarrow> get_object k m = None"
  shows "m0 = m"
proof -
  have "objects m0 = objects m"
    using assms by (intro stores_with_same_objects) (auto simp: part_def wf_msg_def wf_store_def get_object_def)
  then show ?thesis using assms(1) by (simp add: part_def)
qed

definition object_at :: "'m anslp_msg \<Rightarrow> ie_object_key \<Rightarrow> 'm anslp_object" where
  "object_at m k = the (get_object k m)"

abbreviation mspec_key :: "nat \<Rightarrow> ie_object_key" where
  "mspec_key i \<equiv> mk_key 0xF9 (of_nat i)"

lemma stored_object:
  assumes "wf_msg m" "registered_key k" "get_object k m = Some obj"
  shows "wf_object obj" "object_type k = ucast (obj_type obj)" "unique obj \<longleftrightarrow> object_type k \<in> set unique_types"
proof -
  have mem: "(k, obj) \<in> set (objects m)"
    using assms ie_store_get_Some by (auto simp: get_object_def wf_msg_def wf_store_def)
  then show wf: "wf_object obj" "object_type k = ucast (obj_type obj)"
    using assms(1) by (auto simp: wf_msg_def wf_store_def)
  show "unique obj \<longleftrightarrow> object_type k \<in> set unique_types"
    using wf by (cases "body obj") (auto simp: wf_object_def is_mspec_def unique_types_def)
qed

lemma part_unique:
  assumes "part m m0 D" "wf_msg m" "distinct us" "\<forall>t \<in> set us. ucast t \<in> set unique_types \<and> unique_key t \<notin> D \<and>
    get_object (unique_key t) m \<noteq> None"
  shows "part m (fold set_object (map (object_at m \<circ> unique_key) us) m0) (D \<union> unique_key ` set us) \<and>
    accepts m0 (map (object_at m \<circ> unique_key) us) \<and>
    mspec_count (fold set_object (map (object_at m \<circ> unique_key) us) m0) = mspec_count m0"
  using assms
proof (induction us arbitrary: m0 D)
  case (Cons t us)
  have reg: "registered_key (unique_key t)" using Cons.prems(4) by (simp add: registered_key_def unique_key_def)
  obtain obj where obj: "get_object (unique_key t) m = Some obj" using Cons.prems(4) by auto
  note so = stored_object [OF Cons.prems(2) reg obj]
  have un: "unique obj" using so(3) Cons.prems(4) by (simp add: unique_key_def)
  have key: "storage_key obj m0 = unique_key t" using so(2) un by (simp add: storage_key_def unique_key_def)
  have at: "object_at m (unique_key t) = obj" using obj by (simp add: object_at_def)
  have fresh: "unique_key t \<notin> D" using Cons.prems(4) by simp
  note step = part_step [OF Cons.prems(1) fresh obj so(1) key]
  have other: "unique_key u \<noteq> unique_key t" if "u \<in> set us" for u
    using that Cons.prems(3) by (auto simp: unique_key_def ucast_u16_inj)
  have "mspec_count (set_object obj m0) = mspec_count m0"
    using Cons.prems(1) so(1) un by (simp add: mspec_count_def part_def set_unique_keeps_mspec)
  then show ?case
    using Cons.IH [OF step(1) Cons.prems(2)] Cons.prems(3,4) other step(2) un at by simp
qed simp

lemma part_mspec:
  assumes "part m m0 D" "wf_msg m" "mspec_count m0 = j" "j + n < mspec_limit"
    "\<forall>i. j < i \<and> i \<le> j + n \<longrightarrow> mspec_key i \<notin> D \<and> get_object (mspec_key i) m \<noteq> None"
  shows "part m (fold set_object (map (object_at m \<circ> mspec_key) [Suc j ..< Suc (j + n)]) m0)
      (D \<union> mspec_key ` {Suc j ..< Suc (j + n)}) \<and>
    accepts m0 (map (object_at m \<circ> mspec_key) [Suc j ..< Suc (j + n)])"
  using assms
proof (induction n arbitrary: m0 D j)
  case (Suc n)
  let ?k = "mspec_key (Suc j)"
  have "Suc j < 2 ^ 32" using Suc.prems(4) by (simp add: mspec_limit_def)
  then have un: "unat (of_nat (Suc j) :: u32) = Suc j" by (simp add: unat_of_nat take_bit_nat_eq_self del: of_nat_Suc)
  then have reg: "registered_key ?k" using Suc.prems(4)
    by (simp add: registered_key_def word_less_nat_alt word_le_nat_alt mspec_limit_def del: of_nat_Suc)
  obtain obj where obj: "get_object ?k m = Some obj" using Suc.prems(5) by (auto simp del: of_nat_Suc)
  note so = stored_object [OF Suc.prems(2) reg obj]
  have nu: "\<not> unique obj" "is_mspec obj" using so by (auto simp: unique_types_def wf_object_def)
  have mx: "getMaxSequence 0xF9 (objects m0) = of_nat j"
    using Suc.prems(3) by (metis mspec_count_def of_nat_unat ucast_id)
  have key: "storage_key obj m0 = ?k" using so(2) nu mx by (simp add: storage_key_def add.commute flip: so(2))
  have at: "object_at m ?k = obj" using obj by (simp add: object_at_def)
  have fresh: "?k \<notin> D" using Suc.prems(5) by (simp del: of_nat_Suc)
  have room: "mspec_count m0 < mspec_limit" using Suc.prems(3,4) by simp
  note step = part_step [OF Suc.prems(1) fresh obj so(1) key] 
  have wf: "wf_msg m0" using Suc.prems(1) by (simp add: part_def)
  have count: "mspec_count (set_object obj m0) = Suc j"
    using mspec_count_set_mspec [OF wf room so(1) nu(2)] Suc.prems(3) by (simp add: set_mspec_object_def)
  have other: "mspec_key i \<noteq> ?k" if "Suc j < i" "i \<le> Suc j + n" for i
  proof -
    have "unat (of_nat i :: u32) = i" using that Suc.prems(4) by (simp add: unat_of_nat take_bit_nat_eq_self mspec_limit_def)
    then show ?thesis using un that(1) by (metis mk_key_simps(3) less_irrefl)
  qed
  have range: "[Suc j ..< Suc (j + Suc n)] = Suc j # [Suc (Suc j) ..< Suc (Suc j + n)]"
    "{Suc j ..< Suc (j + Suc n)} = insert (Suc j) {Suc (Suc j) ..< Suc (Suc j + n)}"
    by (auto simp: upt_conv_Cons simp del: upt_Suc)
  have roomy: "unique obj \<or> mspec_room m0" using room by (simp add: mspec_room_count)
  have IH: "part m (fold set_object (map (object_at m \<circ> mspec_key) [Suc (Suc j) ..< Suc (Suc j + n)]) (set_object obj m0))
      (insert ?k D \<union> mspec_key ` {Suc (Suc j) ..< Suc (Suc j + n)}) \<and>
    accepts (set_object obj m0) (map (object_at m \<circ> mspec_key) [Suc (Suc j) ..< Suc (Suc j + n)])"
  proof (rule Suc.IH [OF step(1) [OF roomy] Suc.prems(2) count])
    show "\<forall>i. Suc j < i \<and> i \<le> Suc j + n \<longrightarrow> mspec_key i \<notin> insert ?k D \<and> get_object (mspec_key i) m \<noteq> None"
      using Suc.prems(5) other by (simp del: of_nat_Suc)
  qed (use Suc.prems(4) in simp)
  then show ?case using step(2) [OF roomy] at unfolding range by (simp add: comp_def del: upt_Suc of_nat_Suc)
qed simp

section \<open>Complete messages\<close>

text \<open>The objects that \<open>serialize\<close> writes for each class, in order.\<close>

definition wire_types :: "msg_class \<Rightarrow> u16 list" where
  "wire_types c = (case c of
       Anslp_create \<Rightarrow> [OT_msg_sequence_number, OT_session_lifetime, OT_selection_auctioning_entities, OT_message_hop_count]
     | Anslp_refresh \<Rightarrow> [OT_msg_sequence_number, OT_session_lifetime]
     | Anslp_response \<Rightarrow> [OT_msg_sequence_number, OT_information_code, OT_session_lifetime]
     | Anslp_notify \<Rightarrow> [OT_information_code]
     | Anslp_bidding \<Rightarrow> [OT_msg_sequence_number])"

definition wire_keys :: "'m anslp_msg \<Rightarrow> ie_object_key list" where
  "wire_keys m = map unique_key (wire_types (msg_class m)) @
     (if msg_class m = Anslp_refresh \<or> msg_class m = Anslp_notify then [] else ipap_keys m)"

text \<open>A message that passes its check and has exactly the objects that are written, each of them sendable.\<close>

definition complete :: "('b, 'm) wire \<Rightarrow> 'm anslp_msg \<Rightarrow> bool" where
  "complete L m = (wf_msg m \<and> msg_check m \<and> msg_type m = msg_type (msg_new_instance m) \<and> mspec_count m < mspec_limit \<and>
     list_all (\<lambda>(k, obj). sendable L obj \<and> k \<in> set (wire_keys m)) (objects m) \<and>
     list_all (\<lambda>k. get_object k m \<noteq> None) (wire_keys m))"

lemma ipap_keys_mspec: "ipap_keys m = map mspec_key [1 ..< Suc (mspec_count m)]"
  by (simp add: ipap_keys_def mspec_count_def)

lemma wire_types_facts: "distinct (wire_types c)" "t \<in> set (wire_types c) \<Longrightarrow> ucast t \<in> set unique_types"
  by (cases c; auto simp: wire_types_def OT_defs unique_types_def)+

lemma mspec_key_inj: "i < 2 ^ 32 \<Longrightarrow> j < 2 ^ 32 \<Longrightarrow> mspec_key i = mspec_key j \<longleftrightarrow> i = j"
  by (auto dest!: arg_cong [where f = unat] simp: unat_of_nat take_bit_nat_eq_self)

lemma mspec_key_registered_nat: "1 \<le> i \<Longrightarrow> i \<le> mspec_limit \<Longrightarrow> registered_key (mspec_key i)"
  by (simp add: registered_key_def word_less_nat_alt word_le_nat_alt mspec_limit_def unat_of_nat take_bit_nat_eq_self)

lemma wire_keys_registered:
  assumes "mspec_count m < mspec_limit" "k \<in> set (wire_keys m)"
  shows "registered_key k"
proof -
  consider t where "t \<in> set (wire_types (msg_class m))" "k = unique_key t" | i where "1 \<le> i" "i \<le> mspec_count m" "k = mspec_key i"
    using assms(2) by (auto simp: wire_keys_def ipap_keys_mspec less_Suc_eq_le simp del: upt_Suc split: if_splits)
  then show ?thesis
  proof cases
    case 1
    then show ?thesis using wire_types_facts(2) by (simp add: registered_key_def unique_key_def)
  next
    case 2
    then show ?thesis using assms(1) mspec_key_registered_nat by simp
  qed
qed

lemma wire_keys_distinct:
  assumes "mspec_count m < mspec_limit"
  shows "distinct (wire_keys m)"
proof -
  have "inj_on mspec_key (set [1 ..< Suc (mspec_count m)])"
    using assms by (auto simp: inj_on_def mspec_limit_def mspec_key_inj simp del: mk_key_simps(3))
  then have "distinct (ipap_keys m)" by (simp add: ipap_keys_mspec distinct_map del: upt_Suc)
  moreover have "distinct (map unique_key (wire_types c))" for c
    using wire_types_facts(1) [of c] by (auto simp: distinct_map inj_on_def unique_key_def ucast_u16_inj)
  moreover have "set (map unique_key (wire_types c)) \<inter> set (ipap_keys m) = {}" for c
    by (cases c) (auto simp: ipap_keys_mspec unique_key_def wire_types_def)
  ultimately show ?thesis by (simp add: wire_keys_def)
qed

lemma complete_object:
  assumes "complete L m" "k \<in> set (wire_keys m)"
  shows "get_object k m = Some (object_at m k)" "sendable L (object_at m k)" "(k, object_at m k) \<in> set (objects m)"
proof -
  have wf: "wf_msg m" "mspec_count m < mspec_limit" using assms(1) by (simp_all add: complete_def)
  show get: "get_object k m = Some (object_at m k)"
    using assms by (auto simp: complete_def object_at_def list_all_iff)
  then show mem: "(k, object_at m k) \<in> set (objects m)"
    using wf wire_keys_registered [OF wf(2) assms(2)] ie_store_get_Some
    by (auto simp: get_object_def wf_msg_def wf_store_def)
  show "sendable L (object_at m k)" using mem assms(1) by (auto simp: complete_def list_all_iff)
qed

text \<open>A complete message holds exactly the objects that are written.\<close>

lemma complete_store:
  assumes "complete L m"
  shows "set (objects m) = set (map (\<lambda>k. (k, object_at m k)) (wire_keys m))"
proof (intro equalityI subsetI)
  fix p assume "p \<in> set (objects m)"
  moreover obtain k obj where p: "p = (k, obj)" by fastforce
  ultimately have "k \<in> set (wire_keys m)" "get_object k m = Some obj"
    using assms ie_store_get_member [of "objects m" k obj]
    by (auto simp: complete_def list_all_iff get_object_def wf_msg_def wf_store_def)
  then show "p \<in> set (map (\<lambda>k. (k, object_at m k)) (wire_keys m))" using p by (auto simp: object_at_def)
qed (use complete_object(3) [OF assms] in auto)

text \<open>Reading the objects of a complete message in the order of writing gives the message.\<close>

lemma complete_rebuilt:
  assumes "complete L m"
  shows "accepts (msg_new_instance m) (map (object_at m) (wire_keys m)) \<and>
    fold set_object (map (object_at m) (wire_keys m)) (msg_new_instance m) = m"
proof -
  let ?m0 = "msg_new_instance m" and ?us = "wire_types (msg_class m)"
  have wf: "wf_msg m" "mspec_count m < mspec_limit" "msg_type m = msg_type ?m0" using assms by (simp_all add: complete_def)
  note get = complete_object(1) [OF assms]
  have start: "part m ?m0 {}" "mspec_count ?m0 = 0"
    using wf(3) by (cases "msg_class m"; simp add: part_def msg_new_instance_def get_object_def ie_store_get_def
        new_anslp_create_def new_anslp_refresh_def new_anslp_response_def new_anslp_notify_def new_anslp_bidding_def
        wf_msg_def wf_store_def mspec_count_def getMaxSequence_def)+
  have us: "\<forall>t \<in> set ?us. ucast t \<in> set unique_types \<and> unique_key t \<notin> {} \<and> get_object (unique_key t) m \<noteq> None"
    using get wire_types_facts(2) by (auto simp: wire_keys_def)
  note u = part_unique [OF start(1) wf(1) wire_types_facts(1) us]
  let ?n = "if msg_class m = Anslp_refresh \<or> msg_class m = Anslp_notify then 0 else mspec_count m"
  have keys: "wire_keys m = map unique_key ?us @ map mspec_key [Suc 0 ..< Suc (0 + ?n)]"
    by (simp add: wire_keys_def ipap_keys_mspec)
  have "\<forall>i. 0 < i \<and> i \<le> 0 + ?n \<longrightarrow> mspec_key i \<notin> {} \<union> unique_key ` set ?us \<and> get_object (mspec_key i) m \<noteq> None"
  proof (intro allI impI)
    fix i assume "0 < i \<and> i \<le> 0 + ?n"
    then have "i \<in> {Suc 0 ..< Suc (0 + ?n)}" by auto
    then have "mspec_key i \<in> set (wire_keys m)" unfolding keys by (simp del: upt_Suc)
    moreover have "mspec_key i \<notin> unique_key ` set ?us"
      by (cases "msg_class m") (auto simp: unique_key_def wire_types_def)
    ultimately show "mspec_key i \<notin> {} \<union> unique_key ` set ?us \<and> get_object (mspec_key i) m \<noteq> None" using get by auto
  qed
  with u wf start(2) have v: "part m (fold set_object (map (object_at m) (wire_keys m)) ?m0) (set (wire_keys m))"
      "accepts ?m0 (map (object_at m) (wire_keys m))"
    using part_mspec [of m _ "{} \<union> unique_key ` set ?us" 0 ?n]
    unfolding keys by (simp_all add: accepts_append del: upt_Suc)
  moreover have "\<forall>k. registered_key k \<longrightarrow> k \<notin> set (wire_keys m) \<longrightarrow> get_object k m = None"
  proof (intro allI impI)
    fix k assume k: "registered_key k" "k \<notin> set (wire_keys m)"
    show "get_object k m = None"
    proof (cases "get_object k m")
      case (Some obj)
      then have "(k, obj) \<in> set (objects m)"
        using k(1) wf(1) ie_store_get_Some by (auto simp: get_object_def wf_msg_def wf_store_def)
      then show ?thesis using k(2) assms by (auto simp: complete_def list_all_iff)
    qed
  qed
  ultimately show ?thesis using part_whole [OF v(1) wf(1)] by blast
qed

section \<open>The bytes of a message\<close>

definition msg_header :: "'m anslp_msg \<Rightarrow> u32" where
  "msg_header m = push_bit 24 (ucast (msg_type m))"

definition objects_bytes :: "('b, 'm) wire \<Rightarrow> 'm anslp_object list \<Rightarrow> u8 list" where
  "objects_bytes L objs = concat (map (object_bytes L) objs)"

definition msg_bytes :: "('b, 'm) wire \<Rightarrow> 'm anslp_msg \<Rightarrow> u8 list" where
  "msg_bytes L m = be32 (msg_header m) @ objects_bytes L (map (object_at m) (wire_keys m))"

lemma extract_msg_header: "extract_msg_type (msg_header m) = msg_type m"
  unfolding extract_msg_type_def msg_header_def
  by (rule bit_word_eqI) (auto simp: bit_simps dest: bit_imp_le_length)

lemma writes_objects:
  assumes "netmsg_laws L R" "ie_laws L"
    "\<forall>k \<in> set ks. get_object k m = Some (object_at m k) \<and> sendable L (object_at m k)"
  shows "writes R (serialize_objects L Protocol_v1 m ks) (objects_bytes L (map (object_at m) ks))"
  using assms(3)
proof (induction ks)
  case Nil
  then show ?case using writes_none by (simp add: objects_bytes_def writes_def)
next
  case (Cons k ks)
  have "serialize_object L Protocol_v1 m k = object_serialize L Protocol_v1 (object_at m k)"
    using Cons.prems by (simp add: serialize_object_def fun_eq_iff)
  then have "writes R (serialize_object L Protocol_v1 m k) (object_bytes L (object_at m k))"
    using Cons.prems writes_object [OF assms(1,2)] by simp
  from writes_call [OF this] Cons show ?case by (simp add: objects_bytes_def writes_def)
qed

lemma writes_header:
  assumes "netmsg_laws L R" "ie_laws L" "msg_check m"
  shows "writes R (msg_serialize_header L Protocol_v1 m) (be32 (msg_header m))"
proof -
  have "msg_serialize_header L Protocol_v1 m = (\<lambda>b. too_short L Protocol_v1 Cat_anslp_msg (net b (encode32 L (msg_header m) b)))"
    using assms(2,3) by (simp add: msg_serialize_header_def ie_laws_def supports_coding_def msg_header_def fun_eq_iff)
  then show ?thesis using writes_too_short [OF writes_encode32 [OF assms(1)]] by metis
qed

lemma writes_msg:
  assumes "netmsg_laws L R" "ie_laws L" "complete L m"
  shows "writes R (msg_serialize L Protocol_v1 m) (msg_bytes L m)"
proof -
  have check: "msg_check m" using assms(3) by (simp add: complete_def)
  note header = writes_header [OF assms(1,2) check]
  have "\<forall>k \<in> set (wire_keys m). get_object k m = Some (object_at m k) \<and> sendable L (object_at m k)"
    using complete_object [OF assms(3)] by blast
  from writes_call [OF header writes_objects [OF assms(1,2) this]]
  have "writes R (\<lambda>b. call (msg_serialize_header L Protocol_v1 m b) (\<lambda>_. serialize_objects L Protocol_v1 m (wire_keys m))) (msg_bytes L m)"
    unfolding msg_bytes_def .
  moreover have "msg_serialize L Protocol_v1 m =
      (\<lambda>b. call (msg_serialize_header L Protocol_v1 m b) (\<lambda>_. serialize_objects L Protocol_v1 m (wire_keys m)))"
    using check by (cases "msg_class m") (simp_all add: msg_serialize_def create_serialize_def refresh_serialize_def
        response_serialize_def notify_serialize_def bidding_serialize_def wire_keys_def wire_types_def msg_check_def fun_eq_iff)
  ultimately show ?thesis by simp
qed

lemma object_bytes_length: "sendable L obj \<Longrightarrow> length (object_bytes L obj) = object_serialized_size L obj"
  using body_bytes_length(3) [of L obj]
  by (cases "body obj") (auto simp: object_bytes_def object_serialized_size_def Let_def HEADER_LENGTH_def)

lemma msg_bytes_length:
  assumes "complete L m"
  shows "length (msg_bytes L m) = msg_serialized_size L m"
proof -
  have wf: "wf_msg m" "mspec_count m < mspec_limit" using assms by (simp_all add: complete_def)
  let ?size = "\<lambda>(k :: ie_object_key, obj). object_serialized_size L obj"
  let ?ps = "map (\<lambda>k. (k, object_at m k)) (wire_keys m)"
  have keys: "sorted_wrt ie_object_key_lt (map fst (objects m))"
    using wf(1) by (simp add: wf_msg_def wf_store_def registered_store_def map_ordered_def)
  then have "distinct (map fst (objects m))"
    using sorted_wrt_nth_less [OF keys] key_order.lt_irrefl
    by (intro distinct_conv_nth [THEN iffD2]) (metis linorder_neqE_nat)
  then have "distinct (objects m)" by (simp add: distinct_map)
  moreover have "distinct ?ps" using wire_keys_distinct [OF wf(2)] by (simp add: distinct_map inj_on_def)
  moreover have "set (objects m) = set ?ps" by (rule complete_store [OF assms])
  ultimately have "mset (objects m) = mset ?ps" by (rule set_eq_iff_mset_eq_distinct [THEN iffD1])
  then have "mset (map ?size (objects m)) = mset (map ?size ?ps)" by (simp only: mset_map)
  then have "sum_list (map ?size (objects m)) = sum_list (map ?size ?ps)" by (simp only: flip: sum_mset_sum_list)
  moreover have "msg_serialized_size L m = HEADER_LENGTH + sum_list (map ?size (objects m))"
  proof -
    have "fold (\<lambda>(key, obj) size. size + object_serialized_size L obj) st n = n + sum_list (map ?size st)"
      for st :: "'b anslp_object ie_store" and n
      by (induction st arbitrary: n) auto
    then show ?thesis by (simp add: msg_serialized_size_def)
  qed
  moreover have "length (objects_bytes L (map (object_at m) (wire_keys m))) = sum_list (map ?size ?ps)"
    unfolding objects_bytes_def length_concat map_map comp_def case_prod_conv
    using object_bytes_length [OF complete_object(2) [OF assms]] by (intro arg_cong [where f = sum_list] map_cong) simp_all
  ultimately show ?thesis by (simp add: msg_bytes_def HEADER_LENGTH_def)
qed

text \<open>Writing into a new buffer of the announced size.\<close>

lemma serialize_fresh:
  assumes "netmsg_laws L R" "ie_laws L" "complete L m" "msg_serialized_size L m < 2 ^ 32"
  shows "\<exists>b. msg_serialize L Protocol_v1 m (new_sized L (msg_serialized_size L m)) = (Ok (), b) \<and> get_buffer L b = msg_bytes L m"
proof -
  obtain suf where suf: "length suf = msg_serialized_size L m" "R (new_sized L (msg_serialized_size L m)) [] suf"
    using netmsg_new(2) [OF assms(1,4)] by blast
  then obtain b where "msg_serialize L Protocol_v1 m (new_sized L (msg_serialized_size L m)) = (Ok (), b)"
    "R b ([] @ msg_bytes L m) (drop (length (msg_bytes L m)) suf)"
    using writes_msg [OF assms(1-3)] msg_bytes_length [OF assms(3)] unfolding writes_def by fastforce
  then show ?thesis using netmsg_facts(2) [OF assms(1)] suf(1) msg_bytes_length [OF assms(3)] by fastforce
qed

section \<open>Reading a message\<close>

lemma objects_bytes_nonempty: "objs \<noteq> [] \<Longrightarrow> objects_bytes L objs \<noteq> []"
  by (cases objs) (auto simp: objects_bytes_def object_bytes_def be32_def)

lemma bytes_left_zero:
  assumes "netmsg_laws L R" "R b pre suf"
  shows "get_bytes_left L b = 0 \<longleftrightarrow> suf = []"
proof -
  have "unat (get_bytes_left L b) = length suf"
    using netmsg_facts(1,4) [OF assms] by (simp add: unat_of_nat take_bit_nat_eq_self)
  then show ?thesis by (auto simp: unat_eq_0)
qed

lemma reads_objects:
  assumes "netmsg_laws L R" "ie_laws L" "\<forall>obj \<in> set objs. sendable L obj" "accepts m objs" "R b pre (objects_bytes L objs)"
  shows "\<exists>b'. deserialize_objects L Protocol_v1 skip m (err, b) = Some (Ok (Some (fold set_object objs m)), err, b') \<and>
    R b' (pre @ objects_bytes L objs) []"
  using assms(3-5)
proof (induction objs arbitrary: m b pre)
  case Nil
  then have "get_bytes_left L b = 0" using bytes_left_zero [OF assms(1)] by (simp add: objects_bytes_def)
  then show ?case using Nil.prems(3) by (simp add: deserialize_objects.simps objects_bytes_def)
next
  case (Cons obj objs)
  have left: "get_bytes_left L b \<noteq> 0"
    using bytes_left_zero [OF assms(1) Cons.prems(3)] objects_bytes_nonempty by blast
  have bytes: "objects_bytes L (obj # objs) = object_bytes L obj @ objects_bytes L objs" by (simp add: objects_bytes_def)
  then obtain b1 where b1: "deserialize_object L Protocol_v1 skip (err, b) = (Ok (Some (Ie_object obj)), err, b1)"
    "R b1 (pre @ object_bytes L obj) (objects_bytes L objs)"
    using reads_object [OF assms(1,2), of obj skip] Cons.prems(1,3) unfolding reads_def by fastforce
  then show ?case
    using left Cons.prems(1,2) Cons.IH [of "set_object obj m" b1 "pre @ object_bytes L obj"]
    by (simp add: deserialize_objects.simps [of L Protocol_v1 skip m] bytes)
qed

lemma registry_msg:
  assumes "ie_laws L" "msg_type m = msg_type (msg_new_instance m)"
  shows "iem_new_instance L (ie_new_instance L) (lookup_ie L) Cat_anslp_msg (ucast (msg_type m)) =
      Some (Ie_msg (msg_new_instance m))"
  unfolding assms(2) using assms(1)
  by (cases "msg_class m") (simp_all add: ie_laws_def lookup_ie_def register_known_ies_def ie_category_def ie_type_def
      ie_new_instance_def msg_new_instance_def new_anslp_create_def new_anslp_refresh_def new_anslp_response_def
      new_anslp_notify_def new_anslp_bidding_def)

lemma reads_msg:
  assumes "netmsg_laws L R" "ie_laws L" "complete L m" "R b pre (msg_bytes L m)"
  shows "\<exists>b'. manager_deserialize L Cat_anslp_msg Protocol_v1 skip (err, b) = Some (Ok (Some (Ie_msg m)), err, b') \<and>
    R b' (pre @ msg_bytes L m) []"
proof -
  let ?objs = "map (object_at m) (wire_keys m)" and ?m0 = "msg_new_instance m"
  have ty: "msg_type m = msg_type ?m0" using assms(3) by (simp add: complete_def)
  have R: "R b pre (be32 (msg_header m) @ objects_bytes L ?objs)" using assms(4) by (simp add: msg_bytes_def)
  obtain b1 where b1: "decode32 L b = Some (msg_header m, b1)" "R b1 (pre @ be32 (msg_header m)) (objects_bytes L ?objs)"
    using decode32_reads [OF assms(1) R] by auto
  have peek: "peek32 L b = Some (msg_header m)" using netmsg_facts(7) [OF assms(1) R] by simp
  have "\<forall>obj \<in> set ?objs. sendable L obj" using complete_object(2) [OF assms(3)] by auto
  then obtain b2 where b2: "deserialize_objects L Protocol_v1 skip ?m0 (err, b1) = Some (Ok (Some m), err, b2)"
    "R b2 (pre @ msg_bytes L m) []"
    using reads_objects [OF assms(1,2) _ _ b1(2), of ?m0 skip err] complete_rebuilt [OF assms(3)] by (auto simp: msg_bytes_def)
  have m0: "?m0\<lparr>msg_type := msg_type m\<rparr> = ?m0" using ty by simp
  have "get_object (hd (wire_keys m)) m \<noteq> None"
    using complete_object(1) [OF assms(3), of "hd (wire_keys m)"]
    by (cases "msg_class m") (simp_all add: wire_keys_def wire_types_def)
  then have "get_num_objects m \<noteq> 0"
    by (auto simp: get_num_objects_def get_object_def ie_store_size_def ie_store_get_def)
  then have "msg_deserialize L Protocol_v1 skip ?m0 (err, b) = Some (Ok (Some m), err, b2)"
    using b1(1) b2(1) m0 by (simp add: msg_deserialize_def extract_msg_header)
  then show ?thesis
    using b2(2) peek registry_msg [OF assms(2) ty]
    by (simp add: manager_deserialize_def deserialize_msg_def extract_msg_header)
qed

section \<open>Reading arbitrary bytes\<close>

text \<open>
  \<open>sane R k suf r\<close>: a reading operation that found \<open>suf\<close> ahead does not fault, and when it gives a
  value, it has consumed at least \<open>k\<close> bytes.
\<close>

definition sane :: "('b \<Rightarrow> u8 list \<Rightarrow> u8 list \<Rightarrow> bool) \<Rightarrow> nat \<Rightarrow> u8 list \<Rightarrow> (wire_exn, 'a option) outcome \<times> ie_error list \<times> 'b \<Rightarrow> bool" where
  "sane R k suf r = (case r of
       (Ok (Some x), err, b) \<Rightarrow> \<exists>pre' suf'. R b pre' suf' \<and> length suf' + k \<le> length suf
     | (Crash f, _) \<Rightarrow> False
     | _ \<Rightarrow> True)"

lemma sane_call:
  assumes "sane R k suf r" "\<And>x err b pre' suf'. r = (Ok (Some x), err, b) \<Longrightarrow> R b pre' suf' \<Longrightarrow> length suf' + k \<le> length suf \<Longrightarrow>
      sane R 0 suf' (f (Some x) (err, b))" "\<And>eb. sane R k suf (f None eb)"
  shows "sane R k suf (call r f)"
  using assms by (fastforce simp: sane_def split: prod.splits outcome.splits option.splits)

lemma sane_decode:
  assumes "netmsg_laws L R" "R b pre suf" "decode32 L b = Some (v, b')"
  shows "R b' (pre @ take 4 suf) (drop 4 suf)" "4 \<le> length suf"
  using netmsg_facts(5,8) [OF assms(1,2)] assms(3) by (cases "length suf < 4"; auto)+

lemma sane_value:
  assumes "netmsg_laws L R" "R b pre suf"
  shows "sane R 0 suf (decode_value L mk (err, b))"
  using sane_decode [OF assms] by (fastforce simp: decode_value_def sane_def split: option.splits)

lemma sane_ipap:
  assumes "netmsg_laws L R" "R b pre suf" "unat n \<le> length suf"
  shows "sane R 0 suf (deserialize_ipap_body L n m (err, b))"
proof -
  note f = netmsg_facts [OF assms(1,2)]
  obtain b' where "set_pos L (get_pos L b + ucast n) b = Some b'"
    "R b' (take (length pre + unat n) (pre @ suf)) (drop (length pre + unat n) (pre @ suf))"
    using f(14) [of "length pre + unat n"] f(3) assms(3) by auto
  then have set: "set_pos L (get_pos L b + ucast n) b = Some b'"
    "\<exists>pre' suf'. R b' pre' suf' \<and> length suf' \<le> length suf" by (force, force)
  show ?thesis
  proof (cases "ipap_import L (take (unat n) suf) m")
    case (Some r)
    then show ?thesis using set f(12) [OF assms(3)] f(3)
      by (cases r) (simp add: deserialize_ipap_body_def Let_def sane_def)
  qed (use f(12) [OF assms(3)] f(3) in \<open>simp add: deserialize_ipap_body_def Let_def sane_def\<close>)
qed

lemma sane_body:
  assumes "netmsg_laws L R" "R b pre suf" "unat n \<le> length suf"
  shows "sane R 0 suf (deserialize_body L n skip obj (err, b))"
proof (cases "body obj")
  case (Information_code s c t)
  then show ?thesis using sane_decode [OF assms(1,2)]
    by (fastforce simp: deserialize_body_def sane_def Let_def split: option.splits)
qed (use sane_value [OF assms(1,2)] sane_ipap [OF assms] in \<open>simp_all add: deserialize_body_def\<close>)

lemma sane_header:
  assumes "netmsg_laws L R" "R b pre suf"
  shows "sane R 4 suf (deserialize_header L obj (err, b))"
    "deserialize_header L obj (err, b) = (Ok (Some (n, obj')), err', b') \<Longrightarrow> R b' pre' suf' \<Longrightarrow> unat n \<le> length suf'"
proof -
  note f = netmsg_facts [OF assms]
  have reset: "\<exists>b''. set_pos L (get_pos L b) b' = Some b''" if d: "decode32 L b = Some (v, b')" for v b'
    using netmsg_facts(14) [OF assms(1) sane_decode(1) [OF assms d], of "length pre"] sane_decode(2) [OF assms d] f(3) by auto
  show "sane R 4 suf (deserialize_header L obj (err, b))"
    using sane_decode [OF assms] reset
    by (fastforce simp: deserialize_header_def sane_def Let_def split: option.splits)
  assume h: "deserialize_header L obj (err, b) = (Ok (Some (n, obj')), err', b')" and R: "R b' pre' suf'"
  then have "\<not> get_bytes_left L b' < ucast n"
    by (auto simp: deserialize_header_def Let_def split: option.splits if_splits)
  moreover have "unat (get_bytes_left L b') = length suf'"
    using netmsg_facts(1,4) [OF assms(1) R] by (simp add: unat_of_nat take_bit_nat_eq_self)
  moreover have "unat (ucast n :: u32) = unat n"
    using unsigned_less [of n, where 'a = nat] by (simp add: unsigned_ucast_eq take_bit_nat_eq_self)
  ultimately show "unat n \<le> length suf'" by (simp add: word_less_nat_alt not_less)
qed

lemma sane_object_deserialize:
  assumes "netmsg_laws L R" "ie_laws L" "R b pre suf"
  shows "sane R 4 suf (object_deserialize L skip obj (err, b))"
proof -
  let ?body = "\<lambda>h eb. case h of None \<Rightarrow> (Ok None, eb)
      | Some (body_length, obj) \<Rightarrow> call (deserialize_body L body_length skip obj eb) (\<lambda>bd eb. case bd of
          None \<Rightarrow> (Ok None, eb) | Some bd \<Rightarrow> (Ok (Some (obj\<lparr>body := bd\<rparr>)), eb))"
  have "sane R 4 suf (call (deserialize_header L obj (err, b)) ?body)"
  proof (rule sane_call [OF sane_header(1) [OF assms(1,3)]])
    fix x err' b' pre' suf'
    assume h: "deserialize_header L obj (err, b) = (Ok (Some x), err', b')" "R b' pre' suf'"
    obtain n obj' where x: "x = (n, obj')" by fastforce
    have "unat n \<le> length suf'" using sane_header(2) [OF assms(1,3)] h x by blast
    note body = sane_body [OF assms(1) h(2) this, of skip obj' err']
    show "sane R 0 suf' (?body (Some x) (err', b'))"
      unfolding x option.case prod.case by (rule sane_call [OF body]) (auto simp: sane_def)
  qed (simp add: sane_def)
  then show ?thesis using assms(2) by (simp add: object_deserialize_def ie_laws_def supports_coding_def)
qed

lemma registry_kind:
  assumes "ie_laws L" "iem_new_instance L (ie_new_instance L) (lookup_ie L) c t = Some e"
  shows "c = Cat_anslp_object \<Longrightarrow> \<exists>obj. e = Ie_object obj" "c = Cat_anslp_msg \<Longrightarrow> \<exists>m. e = Ie_msg m"
proof -
  have find: "ie_category x = k" if "iem_lookup L xs k t = Some x" for k t xs x
    using that assms(1) by (auto simp: ie_laws_def find_Some_iff)
  obtain x where x: "lookup_ie L c t = Some x" "e = ie_new_instance L x" using assms by (auto simp: ie_laws_def)
  then have "ie_category x = c \<or> ie_category x \<in> {Cat_default_anslp_msg, Cat_default_anslp_object}"
    by (cases "iem_lookup L (register_known_ies L) c t"; cases c) (auto simp: lookup_ie_def dest: find)
  then show "c = Cat_anslp_object \<Longrightarrow> \<exists>obj. e = Ie_object obj" "c = Cat_anslp_msg \<Longrightarrow> \<exists>m. e = Ie_msg m"
    using x(2) by (auto simp: ie_category_def ie_new_instance_def split: ie.splits)
qed

lemma sane_object:
  assumes "netmsg_laws L R" "ie_laws L" "R b pre suf"
  shows "sane R 4 suf (deserialize_object L coding skip (err, b))"
    "deserialize_object L coding skip (err, b) = (Ok (Some e), eb) \<Longrightarrow> \<exists>obj. e = Ie_object obj"
proof -
  have kind: "\<exists>obj. e = Ie_object obj"
    if "iem_new_instance L (ie_new_instance L) (lookup_ie L) Cat_anslp_object t = Some e" for t e
    using registry_kind(1) [OF assms(2) that] by simp
  have lift: "sane R 4 suf (call (object_deserialize L skip obj (err, b)) (\<lambda>r eb. (Ok (map_option Ie_object r), eb)))" for obj
    by (rule sane_call [OF sane_object_deserialize [OF assms]]) (auto simp: sane_def)
  show "sane R 4 suf (deserialize_object L coding skip (err, b))"
  proof (cases "peek32 L b")
    case (Some v)
    show ?thesis
    proof (cases "iem_new_instance L (ie_new_instance L) (lookup_ie L) Cat_anslp_object (extract_object_type v)")
      case None
      then show ?thesis using Some by (simp add: deserialize_object_def sane_def)
    next
      case e: (Some e)
      then obtain obj where "e = Ie_object obj" using kind by blast
      then show ?thesis using Some e lift [of obj] by (simp add: deserialize_object_def)
    qed
  qed (simp add: deserialize_object_def sane_def)
  show "deserialize_object L coding skip (err, b) = (Ok (Some e), eb) \<Longrightarrow> \<exists>obj. e = Ie_object obj"
    by (auto simp: deserialize_object_def Let_def call_def split: option.splits ie.splits prod.splits outcome.splits)
qed

text \<open>Every object that is read is at least its header, so that the loop over the objects ends.\<close>

lemma deserialize_objects_ends:
  assumes "netmsg_laws L R" "ie_laws L" "R b pre suf"
  shows "\<exists>res. deserialize_objects L coding skip m (err, b) = Some res \<and> (\<forall>f. fst res \<noteq> Crash f)"
  using assms(3)
proof (induction "length suf" arbitrary: b pre suf m err rule: less_induct)
  case less
  note unfold = deserialize_objects.simps [of L coding skip m]
  show ?case
  proof (cases "get_bytes_left L b = 0")
    case True
    then show ?thesis by (simp add: unfold)
  next
    case False
    obtain r err' b' where d: "deserialize_object L coding skip (err, b) = (r, err', b')" by (cases rule: prod_cases3)
    note s = sane_object [OF assms(1,2) less.prems, of coding skip err, unfolded d]
    consider e where "r = Ok (Some e)" | "r = Ok None" | e where "r = Throw e"
      using s(1) by (cases r) (auto simp: sane_def split: option.splits)
    then show ?thesis
    proof cases
      case 1
      then obtain obj where obj: "r = Ok (Some (Ie_object obj))" using s(2) by blast
      then obtain pre' suf' where "R b' pre' suf'" "length suf' < length suf" using s(1) by (auto simp: sane_def)
      note IH = less.hyps [OF this(2) this(1)]
      show ?thesis using False d obj IH by (auto simp: unfold Let_def)
    qed (use False d in \<open>simp_all add: unfold\<close>)
  qed
qed

lemma msg_deserialize_ends:
  assumes "netmsg_laws L R" "ie_laws L" "R b pre suf"
  shows "\<exists>r. msg_deserialize L coding skip m (err, b) = Some r \<and> (\<forall>f. fst r \<noteq> Crash f)"
proof (cases "decode32 L b")
  case (Some p)
  obtain v b1 where p: "p = (v, b1)" by fastforce
  note R1 = sane_decode(1) [OF assms(1,3) Some [unfolded p]]
  obtain r eb where r: "deserialize_objects L coding skip (m\<lparr>msg_type := extract_msg_type v\<rparr>) (err, b1) = Some (r, eb)"
    "\<forall>f. r \<noteq> Crash f" using deserialize_objects_ends [OF assms(1,2) R1] by fastforce
  then show ?thesis using Some p
    by (cases r) (auto simp: msg_deserialize_def Let_def split: option.splits prod.splits)
qed (simp add: msg_deserialize_def)

lemma deserialize_total:
  assumes "netmsg_laws L R" "ie_laws L" "length bs < 2 ^ 32"
  shows "\<exists>r. manager_deserialize L category coding skip (err, new_filled L bs) = Some r \<and> (\<forall>f. fst r \<noteq> Crash f)"
proof -
  let ?b = "new_filled L bs"
  have R: "R ?b [] bs" using netmsg_new(1) [OF assms(1,3)] .
  have msg: "\<exists>r. msg_deserialize L coding skip m (err, ?b) = Some r \<and> (\<forall>f. fst r \<noteq> Crash f)" for m
    by (rule msg_deserialize_ends [OF assms(1,2) R])
  have object: "fst (deserialize_object L coding skip (err, ?b)) \<noteq> Crash f" for f
    using sane_object(1) [OF assms(1,2) R, of coding skip err] by (auto simp: sane_def split: prod.splits)
  have kind: "\<exists>m. e = Ie_msg m" if "iem_new_instance L (ie_new_instance L) (lookup_ie L) Cat_anslp_msg t = Some e" for t e
    using registry_kind(2) [OF assms(2) that] by simp
  show ?thesis
  proof (cases category)
    case Cat_anslp_msg
    show ?thesis
    proof (cases "peek32 L ?b")
      case (Some v)
      show ?thesis
      proof (cases "iem_new_instance L (ie_new_instance L) (lookup_ie L) Cat_anslp_msg (ucast (extract_msg_type v))")
        case e: (Some e)
        then obtain m where m: "e = Ie_msg m" using kind by blast
        obtain r eb where "msg_deserialize L coding skip m (err, ?b) = Some (r, eb)" "\<forall>f. r \<noteq> Crash f"
          using msg [of m] by fastforce
        then show ?thesis using Some e Cat_anslp_msg m
          by (cases r) (simp_all add: manager_deserialize_def deserialize_msg_def)
      qed (use Some Cat_anslp_msg in \<open>simp add: manager_deserialize_def deserialize_msg_def\<close>)
    qed (use Cat_anslp_msg in \<open>simp add: manager_deserialize_def deserialize_msg_def\<close>)
  qed (use object in \<open>simp_all add: manager_deserialize_def\<close>)
qed

section \<open>Messages that lack an object\<close>

lemma serialize_objects_append:
  "serialize_objects L coding m (xs @ ys) b = call (serialize_objects L coding m xs b) (\<lambda>_. serialize_objects L coding m ys)"
  by (induction xs arbitrary: b) (auto simp: call_def split: prod.split outcome.split)

lemma serialize_missing:
  assumes "netmsg_laws L R" "ie_laws L" "get_object k m = None"
    "\<forall>x \<in> set xs. get_object x m = Some (object_at m x) \<and> sendable L (object_at m x)"
    "R b pre suf" "length (objects_bytes L (map (object_at m) xs)) \<le> length suf"
  shows "\<exists>b'. serialize_objects L Protocol_v1 m (xs @ k # ys) b = (Crash Missing_return, b')"
proof -
  obtain b' where "serialize_objects L Protocol_v1 m xs b = (Ok (), b')"
    using writes_objects [OF assms(1,2,4)] assms(5,6) unfolding writes_def by blast
  then show ?thesis using assms(3) by (simp add: serialize_objects_append serialize_object_def)
qed

text \<open>A response that has a prefix of the objects to be written and lacks the next one.\<close>

lemma response_missing:
  assumes "netmsg_laws L R" "ie_laws L" "msg_class m = Anslp_response" "response_check m" "wire_keys m = xs @ k # ys"
    "get_object k m = None" "\<forall>x \<in> set xs. get_object x m = Some (object_at m x) \<and> sendable L (object_at m x)"
    "R b pre suf" "4 + length (objects_bytes L (map (object_at m) xs)) \<le> length suf"
  shows "\<exists>b'. msg_serialize L Protocol_v1 m b = (Crash Missing_return, b')"
proof -
  have "msg_check m" using assms(3,4) by (simp add: msg_check_def)
  from writes_header [OF assms(1,2) this] assms(8,9) obtain b1
    where b1: "msg_serialize_header L Protocol_v1 m b = (Ok (), b1)" "R b1 (pre @ be32 (msg_header m)) (drop 4 suf)"
    unfolding writes_def by (metis add_leE be_length(1))
  have "length (objects_bytes L (map (object_at m) xs)) \<le> length (drop 4 suf)" using assms(9) by simp
  from serialize_missing [OF assms(1,2,6,7) b1(2) this, of ys] show ?thesis
    using b1(1) assms(3,5) by (simp add: msg_serialize_def response_serialize_def wire_keys_def wire_types_def)
qed

section \<open>Properties\<close>

text \<open>
  C3: a complete message of any class, written into a buffer of the announced size, fills the buffer exactly, and
  reading these bytes gives the same message back, with no error recorded.
\<close>

theorem msg_roundtrip:
  assumes "netmsg_laws L R" "ie_laws L" "complete L m" "msg_serialized_size L m < 2 ^ 32"
  shows "\<exists>b. msg_serialize L Protocol_v1 m (new_sized L (msg_serialized_size L m)) = (Ok (), b) \<and>
    length (get_buffer L b) = msg_serialized_size L m \<and>
    (\<exists>b'. manager_deserialize L Cat_anslp_msg Protocol_v1 skip (err, new_filled L (get_buffer L b)) =
       Some (Ok (Some (Ie_msg m)), err, b') \<and> get_bytes_left L b' = 0)"
proof -
  obtain b where b: "msg_serialize L Protocol_v1 m (new_sized L (msg_serialized_size L m)) = (Ok (), b)"
    "get_buffer L b = msg_bytes L m" using serialize_fresh [OF assms] by blast
  have "R (new_filled L (msg_bytes L m)) [] (msg_bytes L m)"
    using netmsg_new(1) [OF assms(1)] assms(4) msg_bytes_length [OF assms(3)] by simp
  from reads_msg [OF assms(1-3) this] show ?thesis
    using b msg_bytes_length [OF assms(3)] bytes_left_zero [OF assms(1)] by fastforce
qed

text \<open>
  C18: reading arbitrary bytes, as a message or as an object, always returns: no input makes the reader loop or fault.
\<close>

theorem deserialize_returns:
  assumes "netmsg_laws L R" "ie_laws L" "length bs < 2 ^ 32"
  shows "\<exists>r. manager_deserialize L category coding skip (err, new_filled L bs) = Some r \<and> (\<forall>f. fst r \<noteq> Crash f)"
  by (rule deserialize_total [OF assms])

end
