(* ===== verification/Platform.thy ===== *)
theory Platform
  imports Anslp_Message
begin

text \<open>
  Values that cross the border of the program, and the code behind that border.

  \<open>session_id\<close> is \<open>src/include/session_id.h\<close>; \<open>mri\<close> holds the arguments of
  the constructor through which the source makes message routing informations of the
  external NTLP library. The record \<open>platform\<close> collects the external functions that the
  source calls (\<open>libuuid\<close>, OpenSSL, the NTLP classes, the C queue under
  \<open>FastQueue\<close>, \<open>rand\<close>); it is an argument of every definition that uses one. Functions that give
  a new value at each call take the number of the call; \<open>uninitialised\<close> is what a variable holds
  before its first assignment.
\<close>

record session_id =
  w1 :: u32
  w2 :: u32
  w3 :: u32
  w4 :: u32

definition session_id_eq :: "session_id \<Rightarrow> session_id \<Rightarrow> bool" where
  "session_id_eq a b = (w1 a = w1 b \<and> w2 a = w2 b \<and> w3 a = w3 b \<and> w4 a = w4 b)"

definition session_id_hash :: "session_id \<Rightarrow> u32" where
  "session_id_hash i = w1 i XOR w2 i XOR w3 i XOR w4 i"

lemma session_id_eq_iff [simp]: "session_id_eq a b \<longleftrightarrow> a = b"
  by (cases a; cases b) (auto simp: session_id_eq_def)

lemma session_id_hash_cong: "session_id_eq a b \<Longrightarrow> session_id_hash a = session_id_hash b"
  by simp

text \<open>\<open>to_string\<close> prints the four words in decimal, joined by dots.\<close>

definition digit_char :: "nat \<Rightarrow> char" where
  "digit_char d = char_of (48 + d)"

fun decimal :: "nat \<Rightarrow> string" where
  "decimal n = (if n < 10 then [digit_char n] else decimal (n div 10) @ [digit_char (n mod 10)])"

declare decimal.simps [simp del]

definition session_id_to_string :: "session_id \<Rightarrow> string" where
  "session_id_to_string i =
     decimal (unat (w1 i)) @ ''.'' @ decimal (unat (w2 i)) @ ''.'' @
     decimal (unat (w3 i)) @ ''.'' @ decimal (unat (w4 i))"

text \<open>Message routing information.\<close>

type_synonym hostaddress = string

record mri_pathcoupled =
  sourceaddress :: hostaddress
  sourceprefix :: u8
  sourceport :: u16
  destaddress :: hostaddress
  destprefix :: u8
  destport :: u16
  protocol :: u8
  flowlabel :: u16
  ds_field :: u16
  spi :: u32
  downstream :: bool

datatype mri = Mri_pathcoupled mri_pathcoupled | Mri_other nat

text \<open>\<open>dynamic_cast<mri_pathcoupled *>\<close>.\<close>

definition as_pathcoupled :: "mri \<Rightarrow> mri_pathcoupled option" where
  "as_pathcoupled m = (case m of Mri_pathcoupled p \<Rightarrow> Some p | Mri_other _ \<Rightarrow> None)"

type_synonym uuid = "u8 list"

type_synonym 'm object_list = "(uuid, 'm anslp_object) std_map"

text \<open>The events that go to the auctioning application (\<open>src/include/aqueue.h\<close>).\<close>

datatype anslp_event_t = Create_session | Create_check_session | Response_create_session
  | Response_create_check_session | Auction_interaction | Remove_session | Response_remove_session
  | Create_anslp_session

datatype 'm anslp_event =
    Anslp_event (ev_type: anslp_event_t) (ev_session: string) (ev_objects: "'m object_list")
  | Add_anslp_session_event (add_session: string) (add_anslp_session: string)

record 'm platform =
  uuid_compare :: "uuid \<Rightarrow> uuid \<Rightarrow> int"
  uuid_generate :: "nat \<Rightarrow> uuid"
  random_id :: "nat \<Rightarrow> session_id"
  random_u32 :: "nat \<Rightarrow> u32"
  uninitialised :: u32
  jitter :: "nat \<Rightarrow> u32 \<Rightarrow> u32"
  timer_msg_id :: "nat \<Rightarrow> nat"
  invert_pathcoupled :: "mri_pathcoupled \<Rightarrow> mri_pathcoupled"
  invert_other :: "nat \<Rightarrow> nat"
  enqueue_element :: "'m anslp_event list \<Rightarrow> 'm anslp_event \<Rightarrow> 'm anslp_event list option"

definition invertDirection :: "'m platform \<Rightarrow> mri \<Rightarrow> mri" where
  "invertDirection P m = (case m of
       Mri_pathcoupled p \<Rightarrow> Mri_pathcoupled (invert_pathcoupled P p)
     | Mri_other n \<Rightarrow> Mri_other (invert_other P n))"

end
