(* ===== verification/Ntlp_Msg.thy ===== *)
theory Ntlp_Msg
  imports Platform
begin

text \<open>
  \<open>ntlp_msg\<close> (\<open>src/src/msg/ntlp_msg.cpp\<close>): an A-NSLP message with its session, its
  routing information and the SII handle; the construction of responses; and the comparison of
  message sequence numbers as per RFC 1982. The body is null when deserializing failed.

  Exceptions of the source are the values of \<open>exn\<close>, without their log texts:
  \<open>request_error\<close>, its subclass \<open>auction_rule_installer_error\<close>, and
  \<open>override_lifetime\<close> (\<open>src/include/session.h\<close>).
\<close>

datatype exn =
    Request_error (severity: u8) (response_code: u8)
  | Installer_error (severity: u8) (response_code: u8)
  | Override_lifetime (severity: u8) (response_code: u8)

record 'm ntlp_msg =
  sid :: session_id
  msg :: "'m anslp_msg option"
  routing_info :: mri
  sii_handle :: u32

definition new_ntlp_msg :: "session_id \<Rightarrow> 'm anslp_msg \<Rightarrow> mri \<Rightarrow> u32 \<Rightarrow> 'm ntlp_msg" where
  "new_ntlp_msg i b m sii = \<lparr>sid = i, msg = Some b, routing_info = m, sii_handle = sii\<rparr>"

text \<open>\<open>copy\<close> calls a method of the body; \<open>None\<close> is the call through the null body.\<close>

definition ntlp_msg_copy :: "'m ntlp_msg \<Rightarrow> 'm ntlp_msg option" where
  "ntlp_msg_copy m = (case msg m of None \<Rightarrow> None
     | Some b \<Rightarrow> Some (new_ntlp_msg (sid m) (anslp_msg_copy b) (routing_info m) (sii_handle m)))"

definition copy_for_forwarding :: "'m ntlp_msg \<Rightarrow> mri option \<Rightarrow> 'm ntlp_msg option" where
  "copy_for_forwarding m new_mri = (case msg m of None \<Rightarrow> None
     | Some b \<Rightarrow> Some (new_ntlp_msg (sid m) (anslp_msg_copy b)
         (case new_mri of None \<Rightarrow> routing_info m | Some n \<Rightarrow> n) 0))"

text \<open>
  \<open>create_response\<close> reads the sequence number only when there is one, so that the asserting
  version of NOTIFY and the overriding versions agree (\<open>virtual_get_when_present\<close>).
\<close>

definition create_response :: "'m platform \<Rightarrow> u8 \<Rightarrow> u8 \<Rightarrow> 'm ntlp_msg \<Rightarrow> 'm ntlp_msg" where
  "create_response P sev code m =
     (let new_mri = invertDirection P (routing_info m);
          resp = set_information_code sev code 0 new_anslp_response;
          resp = (case msg m of
                    None \<Rightarrow> resp
                  | Some b \<Rightarrow> if has_msg_sequence_number b
                             then set_msg_sequence_number (get_msg_sequence_number b) resp
                             else resp)
      in new_ntlp_msg (sid m) resp new_mri 0)"

definition create_error_response :: "'m platform \<Rightarrow> exn \<Rightarrow> 'm ntlp_msg \<Rightarrow> 'm ntlp_msg" where
  "create_error_response P e m = create_response P (severity e) (response_code e) m"

definition create_success_response :: "'m platform \<Rightarrow> u32 \<Rightarrow> 'm ntlp_msg \<Rightarrow> 'm ntlp_msg" where
  "create_success_response P lifetime m =
     (let r = create_response P 2 1 m
      in r\<lparr>msg := map_option (set_session_lifetime lifetime) (msg r)\<rparr>)"

definition cast_msg :: "msg_class \<Rightarrow> 'm ntlp_msg \<Rightarrow> 'm anslp_msg option" where
  "cast_msg c m = (case msg m of None \<Rightarrow> None | Some b \<Rightarrow> if msg_class b = c then Some b else None)"

text \<open>RFC 1982 comparison.\<close>

definition is_greater_than :: "u32 \<Rightarrow> u32 \<Rightarrow> bool" where
  "is_greater_than s1 s2 =
     (s1 \<noteq> s2 \<and> ((s1 < s2 \<and> s2 - s1 > 2147483648) \<or> (s1 > s2 \<and> s1 - s2 < 2147483648)))"

lemma create_response_class [simp]:
  "map_option msg_class (msg (create_response P sev code m)) = Some Anslp_response"
  by (simp add: create_response_def new_ntlp_msg_def Let_def split: option.split)

lemma unat_diff_wrap: "unat ((a :: u32) - b) = (if b \<le> a then unat a - unat b else 4294967296 + unat a - unat b)"
proof (cases "b \<le> a")
  case True
  then show ?thesis by (simp add: unat_sub)
next
  case False
  then have "unat a < unat b" by (simp add: word_less_nat_alt not_le)
  then show ?thesis using False unsigned_less [of b] by (simp add: unat_sub_if')
qed

lemma sint_pos_iff: "0 < sint (x :: u32) \<longleftrightarrow> 0 < unat x \<and> unat x < 2147483648"
proof -
  define n where "n = int (unat x)"
  have n: "0 \<le> n" "n < 4294967296" using unsigned_less [of x] by (simp_all add: n_def)
  have "sint x = (n + 2147483648) mod 4294967296 - 2147483648"
    using int_word_sint [of n, where 'a = 32] by (simp add: n_def)
  also have "(n + 2147483648) mod 4294967296 =
      (if n < 2147483648 then n + 2147483648 else n + 2147483648 - 4294967296)"
  proof (cases "n < 2147483648")
    case False
    have "(n + 2147483648) mod 4294967296 = (n + 2147483648 - 4294967296) mod 4294967296"
      by (rule minus_mod_self2 [symmetric])
    also have "\<dots> = n + 2147483648 - 4294967296" using n False by (intro mod_pos_pos_trivial) simp_all
    finally show ?thesis using False by simp
  qed (use n in simp)
  finally have "0 < sint x \<longleftrightarrow> 0 < n \<and> n < 2147483648" using n by (simp split: if_splits)
  then show ?thesis unfolding n_def by linarith
qed

lemma is_greater_than_sint: "is_greater_than s1 s2 \<longleftrightarrow> 0 < sint (s1 - s2)"
proof -
  have b: "unat s1 < 4294967296" "unat s2 < 4294967296"
    using unsigned_less [of s1] unsigned_less [of s2] by simp_all
  have eq: "s1 = s2 \<longleftrightarrow> unat s1 = unat s2" by (simp add: word_unat_eq_iff)
  show ?thesis
    using b unfolding is_greater_than_def sint_pos_iff eq word_less_nat_alt unat_diff_wrap word_le_nat_alt
    by (auto split: if_splits)
qed

text \<open>
  A response to a message with a sequence number carries that number and the given code, so
  that the sender of the request recognises it.
\<close>

lemma create_response_facts:
  assumes "msg m = Some b" "has_msg_sequence_number b"
  obtains r where "msg (create_response P sev code m) = Some r" "wf_msg r" "msg_class r = Anslp_response"
    "find_msg_sequence_number r = find_msg_sequence_number b" "find_information_code r = Some (sev, code, 0)"
    "find_session_lifetime r = None" "get_mspec_objects r = Some []"
proof -
  let ?r = "set_msg_sequence_number (get_msg_sequence_number b) (set_information_code sev code 0 new_anslp_response)"
  have "msg (create_response P sev code m) = Some ?r"
    using assms by (simp add: create_response_def new_ntlp_msg_def Let_def)
  moreover have "find_msg_sequence_number ?r = find_msg_sequence_number b"
    using assms(2) by (auto simp: getter_defs)
  ultimately show ?thesis by (intro that [of ?r]) simp_all
qed

end
