(* ===== verification/World.thy ===== *)
theory World
  imports Ntlp_Msg
begin

text \<open>
  The state outside the sessions that the session code reads and writes: the sequence
  of observable actions, the queue to the auctioning application, and how often each source of
  fresh values has been used. The operations are those of \<open>dispatcher\<close>
  (\<open>src/src/dispatcher.cpp\<close>), \<open>timer\<close> (\<open>src/src/anslp_timers.cpp\<close>) and
  \<open>FastQueue\<close> (\<open>src/src/aqueue.cpp\<close>).
\<close>

datatype 'm action =
    Send_message "'m ntlp_msg"
  | Start_timer (timer_session: session_id) (timer_number: nat) (timer_seconds: int)
  | Report_async_event string
  | Return_event "'m anslp_event"
  | Return_message session_id
  | Receive_answer session_id mri

record 'm world =
  trace :: "'m action list"
  install_queue :: "'m anslp_event list"
  shutdownflag :: bool
  timers_made :: nat
  uuids_made :: nat
  randoms_made :: nat

definition emit :: "'m action \<Rightarrow> 'm world \<Rightarrow> 'm world" where
  "emit a w = w\<lparr>trace := trace w @ [a]\<rparr>"

text \<open>
  \<open>send_message\<close> has no result and does not touch the state of the sessions: it is recorded here, in order.
  What it does with the message, the serialisation by the mapper and the hand-over to the queue of GIST, either of which
  may stop the process, is \<open>dispatcher_send_message\<close> in \<open>Send_Path\<close>, where \<open>with_mapper\<close> carries out
  what a step has recorded.
\<close>

definition send_message :: "'m ntlp_msg \<Rightarrow> 'm world \<Rightarrow> 'm world" where
  "send_message m w = emit (Send_message m) w"

definition report_async_event :: "string \<Rightarrow> 'm world \<Rightarrow> 'm world" where
  "report_async_event text w = emit (Report_async_event text) w"

text \<open>The identifier of the timer message is returned and identifies the timer.\<close>

definition dispatcher_start_timer :: "'m platform \<Rightarrow> session_id \<Rightarrow> int \<Rightarrow> 'm world \<Rightarrow> nat \<times> 'm world" where
  "dispatcher_start_timer P i seconds w =
     (let ret = timer_msg_id P (timers_made w)
      in (ret, emit (Start_timer i ret seconds) (w\<lparr>timers_made := Suc (timers_made w)\<rparr>)))"

text \<open>\<open>timer::start\<close> and \<open>timer::restart\<close> store the new identifier; \<open>timer::stop\<close> stores 0.\<close>

type_synonym timer = nat

definition timer_start :: "'m platform \<Rightarrow> session_id \<Rightarrow> int \<Rightarrow> 'm world \<Rightarrow> timer \<times> 'm world" where
  "timer_start P i seconds w = dispatcher_start_timer P i seconds w"

definition timer_stop :: timer where
  "timer_stop = 0"

text \<open>\<open>FastQueue::enqueue\<close>.\<close>

definition enqueue :: "'m platform \<Rightarrow> 'm anslp_event \<Rightarrow> 'm world \<Rightarrow> bool \<times> 'm world" where
  "enqueue P e w =
     (if shutdownflag w then (False, w)
      else case enqueue_element P (install_queue w) e of
             None \<Rightarrow> (False, w)
           | Some q \<Rightarrow> (True, w\<lparr>install_queue := q\<rparr>))"

text \<open>The default constructor of \<open>mspec_rule_key\<close>.\<close>

definition new_mspec_rule_key :: "'m platform \<Rightarrow> 'm world \<Rightarrow> uuid \<times> 'm world" where
  "new_mspec_rule_key P w = (uuid_generate P (uuids_made w), w\<lparr>uuids_made := Suc (uuids_made w)\<rparr>)"

definition sent :: "'m world \<Rightarrow> 'm ntlp_msg list" where
  "sent w = List.map_filter (\<lambda>a. case a of Send_message m \<Rightarrow> Some m | _ \<Rightarrow> None) (trace w)"

lemma sent_emit [simp]:
  "sent (emit (Send_message m) w) = sent w @ [m]"
  "sent (emit (Start_timer i n sec) w) = sent w" "sent (emit (Report_async_event t) w) = sent w"
  "sent (emit (Return_event e) w) = sent w" "sent (emit (Return_message i) w) = sent w"
  "sent (emit (Receive_answer i r) w) = sent w"
  by (simp_all add: sent_def emit_def map_filter_def)

lemma emit_simps [simp]:
  "trace (emit a w) = trace w @ [a]" "install_queue (emit a w) = install_queue w"
  "shutdownflag (emit a w) = shutdownflag w" "timers_made (emit a w) = timers_made w"
  "uuids_made (emit a w) = uuids_made w" "randoms_made (emit a w) = randoms_made w"
  by (simp_all add: emit_def)

lemma sent_update [simp]:
  "sent (w\<lparr>install_queue := q\<rparr>) = sent w" "sent (w\<lparr>timers_made := n\<rparr>) = sent w"
  "sent (w\<lparr>uuids_made := n\<rparr>) = sent w" "sent (w\<lparr>randoms_made := n\<rparr>) = sent w"
  by (simp_all add: sent_def)

lemma enqueue_trace [simp]: "trace (snd (enqueue P e w)) = trace w"
  by (simp add: enqueue_def split: option.split)

end
