(* ===== verification/Auction_Rule.thy ===== *)
theory Auction_Rule
  imports World
begin

text \<open>
  Auction rules (\<open>src/src/auction_rule.cpp\<close>): two maps from rule keys
  (\<open>src/src/mspec_rule_key.cpp\<close>, UUIDs compared by \<open>uuid_compare\<close>) to mspec objects.
  Operations that make a new key take it from the world's UUID source.
\<close>

definition mspec_rule_key_eq :: "'m platform \<Rightarrow> uuid \<Rightarrow> uuid \<Rightarrow> bool" where
  "mspec_rule_key_eq P a b = (if uuid_compare P a b = 0 then True else False)"

definition mspec_rule_key_lt :: "'m platform \<Rightarrow> uuid \<Rightarrow> uuid \<Rightarrow> bool" where
  "mspec_rule_key_lt P a b = (if uuid_compare P a b < 0 then True else False)"

record 'm auction_rule =
  object_requests :: "'m object_list"
  object_responses :: "'m object_list"

definition new_auction_rule :: "'m auction_rule" where
  "new_auction_rule = \<lparr>object_requests = [], object_responses = []\<rparr>"

text \<open>The overloads with a key (the object is not null where the model calls them).\<close>

definition set_request_object_at :: "'m platform \<Rightarrow> uuid \<Rightarrow> 'm anslp_object \<Rightarrow> 'm auction_rule \<Rightarrow> 'm auction_rule" where
  "set_request_object_at P key obj r =
     r\<lparr>object_requests := map_insert (mspec_rule_key_lt P) key obj (object_requests r)\<rparr>"

definition set_response_object_at :: "'m platform \<Rightarrow> uuid \<Rightarrow> 'm anslp_object \<Rightarrow> 'm auction_rule \<Rightarrow> 'm auction_rule" where
  "set_response_object_at P key obj r =
     r\<lparr>object_responses := map_insert (mspec_rule_key_lt P) key obj (object_responses r)\<rparr>"

text \<open>The overloads that make the key.\<close>

definition set_request_object :: "'m platform \<Rightarrow> 'm anslp_object \<Rightarrow> 'm auction_rule \<times> 'm world
    \<Rightarrow> 'm auction_rule \<times> 'm world" where
  "set_request_object P obj = (\<lambda>(r, w).
     let (key, w) = new_mspec_rule_key P w
     in (r\<lparr>object_requests := map_insert (mspec_rule_key_lt P) key obj (object_requests r)\<rparr>, w))"

definition set_response_object :: "'m platform \<Rightarrow> 'm anslp_object \<Rightarrow> 'm auction_rule \<times> 'm world
    \<Rightarrow> 'm auction_rule \<times> 'm world" where
  "set_response_object P obj = (\<lambda>(r, w).
     let (key, w) = new_mspec_rule_key P w
     in (r\<lparr>object_responses := map_insert (mspec_rule_key_lt P) key obj (object_responses r)\<rparr>, w))"

text \<open>The copy constructor and \<open>operator=\<close>, which does not clear its left side first.\<close>

definition auction_rule_copy :: "'m platform \<Rightarrow> 'm auction_rule \<Rightarrow> 'm auction_rule" where
  "auction_rule_copy P rhs =
     fold (\<lambda>(key, obj). set_response_object_at P key (object_copy obj)) (object_responses rhs)
       (fold (\<lambda>(key, obj). set_request_object_at P key (object_copy obj)) (object_requests rhs)
         new_auction_rule)"

definition auction_rule_assign :: "'m platform \<Rightarrow> 'm auction_rule \<Rightarrow> 'm auction_rule \<Rightarrow> 'm auction_rule" where
  "auction_rule_assign P this rhs =
     fold (\<lambda>(key, obj). set_response_object_at P key (object_copy obj)) (object_responses rhs)
       (fold (\<lambda>(key, obj). set_request_object_at P key (object_copy obj)) (object_requests rhs)
         this)"

definition get_number_mspec_request_objects :: "'m auction_rule \<Rightarrow> nat" where
  "get_number_mspec_request_objects r = length (object_requests r)"

definition get_number_mspec_response_objects :: "'m auction_rule \<Rightarrow> nat" where
  "get_number_mspec_response_objects r = length (object_responses r)"

text \<open>\<open>operator==\<close>; \<open>ipap_eq\<close> compares the mspec objects' messages.\<close>

definition object_list_eq :: "'m platform \<Rightarrow> ('m \<Rightarrow> 'm \<Rightarrow> bool) \<Rightarrow> 'm object_list \<Rightarrow> 'm object_list \<Rightarrow> bool" where
  "object_list_eq P ipap_eq l rhs =
     (if length l \<noteq> length rhs then False
      else list_all (\<lambda>(key, obj). case map_find (mspec_rule_key_lt P) key rhs of
             None \<Rightarrow> False
           | Some other \<Rightarrow> equals_body ipap_eq (body obj) (body other)) l)"

definition auction_rule_eq :: "'m platform \<Rightarrow> ('m \<Rightarrow> 'm \<Rightarrow> bool) \<Rightarrow> 'm auction_rule \<Rightarrow> 'm auction_rule \<Rightarrow> bool" where
  "auction_rule_eq P ipap_eq r rhs =
     (object_list_eq P ipap_eq (object_requests r) (object_requests rhs) \<and>
      object_list_eq P ipap_eq (object_responses r) (object_responses rhs))"

text \<open>
  What the source relies on in \<open>libuuid\<close>: comparison is a strict weak order (the documented
  lexicographic comparison), and generated UUIDs differ from each other.
\<close>

definition uuid_ok :: "'m platform \<Rightarrow> bool" where
  "uuid_ok P = (weak_order (mspec_rule_key_lt P) \<and>
     (\<forall>i j. i \<noteq> j \<longrightarrow>
        mspec_rule_key_lt P (uuid_generate P i) (uuid_generate P j) \<or>
        mspec_rule_key_lt P (uuid_generate P j) (uuid_generate P i)))"

definition wf_object_list :: "'m platform \<Rightarrow> 'm object_list \<Rightarrow> bool" where
  "wf_object_list P l = (map_ordered (mspec_rule_key_lt P) l \<and> (\<forall>obj \<in> snd ` set l. wf_object obj \<and> is_mspec obj))"

definition wf_rule :: "'m platform \<Rightarrow> 'm auction_rule \<Rightarrow> bool" where
  "wf_rule P r = (wf_object_list P (object_requests r) \<and> wf_object_list P (object_responses r))"

lemma new_auction_rule_simps [simp]:
  "object_requests new_auction_rule = []" "object_responses new_auction_rule = []"
  by (simp_all add: new_auction_rule_def)

lemma wf_rule_new [simp]: "wf_rule P new_auction_rule"
  by (simp add: wf_rule_def wf_object_list_def)

lemma fold_set_at:
  "fold (\<lambda>(key, obj). set_request_object_at P key (object_copy obj)) l r =
     r\<lparr>object_requests := fold (\<lambda>(k, v) acc. map_insert (mspec_rule_key_lt P) k v acc)
         (map (\<lambda>(k, v). (k, object_copy v)) l) (object_requests r)\<rparr>"
  "fold (\<lambda>(key, obj). set_response_object_at P key (object_copy obj)) l r =
     r\<lparr>object_responses := fold (\<lambda>(k, v) acc. map_insert (mspec_rule_key_lt P) k v acc)
         (map (\<lambda>(k, v). (k, object_copy v)) l) (object_responses r)\<rparr>"
  by (induction l arbitrary: r) (auto simp: set_request_object_at_def set_response_object_at_def)

lemma map_object_copy: "\<forall>obj \<in> snd ` set l. wf_object obj \<Longrightarrow> map (\<lambda>(k, v). (k, object_copy v)) l = l"
  by (induction l) (auto simp: wf_copy)

text \<open>
  Copying a well-formed auction rule gives the same rule: every request and every response
  object is copied, under its key and in order. The hypothesis is on \<open>uuid_compare\<close>.
\<close>

theorem auction_rule_copy_id:
  assumes "weak_order (mspec_rule_key_lt P)" "wf_rule P r"
  shows "auction_rule_copy P r = r"
proof -
  have "fold (\<lambda>(k, v) acc. map_insert (mspec_rule_key_lt P) k v acc) l [] = l"
    if "wf_object_list P l" for l :: "'a object_list"
    using weak_order.rebuild_prefix [OF assms(1), of "[]" l] that by (simp add: wf_object_list_def)
  then show ?thesis
    using assms(2) by (simp add: auction_rule_copy_def fold_set_at map_object_copy wf_rule_def wf_object_list_def)
qed

text \<open>
  Keys from the generator: as long as a map holds only such keys, a new object gets a new entry, so
  that adding a list of objects adds exactly these.
\<close>

definition keys_made :: "'m platform \<Rightarrow> nat \<Rightarrow> 'm object_list \<Rightarrow> bool" where
  "keys_made P n l = (\<forall>k \<in> fst ` set l. \<exists>i < n. k = uuid_generate P i)"

lemma keys_made_Nil [simp]: "keys_made P n []"
  by (simp add: keys_made_def)

lemma insert_generated:
  assumes "uuid_ok P" "keys_made P n l"
  shows "mset (map_insert (mspec_rule_key_lt P) (uuid_generate P n) obj l) = add_mset (uuid_generate P n, obj) (mset l) \<and>
    keys_made P (Suc n) (map_insert (mspec_rule_key_lt P) (uuid_generate P n) obj l)"
proof -
  have "\<forall>a \<in> fst ` set l. mspec_rule_key_lt P a (uuid_generate P n) \<or> mspec_rule_key_lt P (uuid_generate P n) a"
  proof
    fix a assume "a \<in> fst ` set l"
    then obtain i where "i < n" "a = uuid_generate P i" using assms(2) unfolding keys_made_def by blast
    then show "mspec_rule_key_lt P a (uuid_generate P n) \<or> mspec_rule_key_lt P (uuid_generate P n) a"
      using assms(1) by (simp add: uuid_ok_def)
  qed
  then have m: "mset (map_insert (mspec_rule_key_lt P) (uuid_generate P n) obj l) = add_mset (uuid_generate P n, obj) (mset l)"
    by (rule mset_insert_new)
  have "fst ` set (map_insert (mspec_rule_key_lt P) (uuid_generate P n) obj l) = insert (uuid_generate P n) (fst ` set l)"
    using arg_cong [OF m, of set_mset] by simp
  then show ?thesis using m assms(2) by (auto simp: keys_made_def less_Suc_eq)
qed

lemma set_objects_generated:
  assumes "uuid_ok P" "keys_made P (uuids_made w) (object_requests r)"
  shows "image_mset snd (mset (object_requests (fst (fold (\<lambda>obj. set_request_object P obj) objs (r, w))))) =
    image_mset snd (mset (object_requests r)) + mset objs"
  using assms(2)
proof (induction objs arbitrary: r w)
  case (Cons obj objs)
  obtain r' w' where step: "set_request_object P obj (r, w) = (r', w')" by fastforce
  then have "mset (object_requests r') = add_mset (uuid_generate P (uuids_made w), obj) (mset (object_requests r))"
    "keys_made P (uuids_made w') (object_requests r')"
    using insert_generated [OF assms(1) Cons.prems, of obj]
    by (auto simp: set_request_object_def new_mspec_rule_key_def)
  then show ?case using Cons.IH [of w' r'] step by simp
qed simp

lemma set_responses_generated:
  assumes "uuid_ok P" "keys_made P (uuids_made w) (object_responses r)"
  shows "image_mset snd (mset (object_responses (fst (fold (\<lambda>obj. set_response_object P obj) objs (r, w))))) =
    image_mset snd (mset (object_responses r)) + mset objs"
  using assms(2)
proof (induction objs arbitrary: r w)
  case (Cons obj objs)
  obtain r' w' where step: "set_response_object P obj (r, w) = (r', w')" by fastforce
  then have "mset (object_responses r') = add_mset (uuid_generate P (uuids_made w), obj) (mset (object_responses r))"
    "keys_made P (uuids_made w') (object_responses r')"
    using insert_generated [OF assms(1) Cons.prems, of obj]
    by (auto simp: set_response_object_def new_mspec_rule_key_def)
  then show ?case using Cons.IH [of w' r'] step by simp
qed simp

lemma set_request_object_simps [simp]:
  "object_responses (fst (set_request_object P obj (r, w))) = object_responses r"
  "trace (snd (set_request_object P obj (r, w))) = trace w"
  "install_queue (snd (set_request_object P obj (r, w))) = install_queue w"
  "sent (snd (set_request_object P obj (r, w))) = sent w"
  by (simp_all add: set_request_object_def new_mspec_rule_key_def)

end
