(* ===== verification/Rule_Installer.thy ===== *)
theory Rule_Installer
  imports Auction_Rule
begin

text \<open>
  The interface to the auctioning application: \<open>auction_rule_installer\<close>
  with its two subclasses \<open>nop_auction_rule_installer\<close> and \<open>netauct_rule_installer\<close>,
  and the dispatcher services that call it (\<open>src/src/dispatcher.cpp\<close>, lines 324 to 411). The network
  installer turns each request into an event on the install queue and throws when
  the queue does not take it. Copies of rules and objects are values.
\<close>

datatype installer_kind = Nop_auction_rule_installer | Netauct_rule_installer

text \<open>The parameters of \<open>anslp_config\<close> that the sessions read.\<close>

record config =
  is_auctioneer :: bool
  install_auction_rules_flag :: bool
  ni_max_retries :: u32
  ni_msg_hop_count :: u32
  ni_response_timeout :: u32
  nf_max_session_lifetime :: u32
  nf_response_timeout :: u32
  nf_is_edge :: bool
  nr_max_session_lifetime :: u32
  nr_max_retries :: u32
  nr_response_timeout :: u32

text \<open>The defaults that \<open>registerAllPars\<close> registers.\<close>

definition default_config :: config where
  "default_config = \<lparr>is_auctioneer = False, install_auction_rules_flag = True,
     ni_max_retries = 3, ni_msg_hop_count = 20, ni_response_timeout = 2,
     nf_max_session_lifetime = 60, nf_response_timeout = 2, nf_is_edge = False,
     nr_max_session_lifetime = 60, nr_max_retries = 3, nr_response_timeout = 2\<rparr>"

text \<open>What a session reaches through its \<open>dispatcher\<close> argument, less the mutable world.\<close>

record 'm dispatcher =
  plat :: "'m platform"
  rule_installer :: installer_kind
  conf :: config

definition wrong_conf_message :: exn where
  "wrong_conf_message = Installer_error 6 7"

text \<open>Posting an event; the objects are set one by one under their keys.\<close>

definition build_event :: "'m platform \<Rightarrow> anslp_event_t \<Rightarrow> string \<Rightarrow> 'm object_list \<Rightarrow> 'm anslp_event" where
  "build_event P t session objs = Anslp_event t session
     (fold (\<lambda>(key, obj) acc. map_insert (mspec_rule_key_lt P) key (object_copy obj) acc) objs [])"

definition post_event :: "'m dispatcher \<Rightarrow> anslp_event_t \<Rightarrow> string \<Rightarrow> 'm object_list \<Rightarrow> 'm world
    \<Rightarrow> (exn, unit) outcome \<times> 'm world" where
  "post_event d t session objs w =
     (let (queued, w) = enqueue (plat d) (build_event (plat d) t session objs) w
      in if queued then (Ok (), w) else (Throw wrong_conf_message, w))"

definition netauct_check :: "'m dispatcher \<Rightarrow> string \<Rightarrow> 'm object_list \<Rightarrow> 'm world \<Rightarrow> (exn, unit) outcome \<times> 'm world" where
  "netauct_check d session missing w =
     (if install_auction_rules_flag (conf d) then post_event d Create_check_session session missing w
      else (Ok (), w))"

definition handle_create_session :: "'m dispatcher \<Rightarrow> string \<Rightarrow> 'm auction_rule \<Rightarrow> 'm world \<Rightarrow> (exn, unit) outcome \<times> 'm world" where
  "handle_create_session d session r w = post_event d Create_session session (object_requests r) w"

definition netauct_create :: "'m dispatcher \<Rightarrow> string \<Rightarrow> 'm auction_rule option \<Rightarrow> 'm world \<Rightarrow> (exn, unit) outcome \<times> 'm world" where
  "netauct_create d session r w = deref r Assert_failed w (\<lambda>r.
     if install_auction_rules_flag (conf d) then handle_create_session d session r w
     else (Ok (), w))"

definition netauct_put_response :: "'m dispatcher \<Rightarrow> string \<Rightarrow> 'm auction_rule option \<Rightarrow> 'm world \<Rightarrow> (exn, unit) outcome \<times> 'm world" where
  "netauct_put_response d session r w =
     (if is_auctioneer (conf d) then deref r Null_deref w (\<lambda>r. handle_create_session d session r w)
      else (Throw wrong_conf_message, w))"

definition handle_remove_session :: "'m dispatcher \<Rightarrow> string \<Rightarrow> 'm auction_rule \<Rightarrow> 'm world \<Rightarrow> (exn, unit) outcome \<times> 'm world" where
  "handle_remove_session d session r w = post_event d Remove_session session (object_requests r) w"

definition netauct_remove :: "'m dispatcher \<Rightarrow> string \<Rightarrow> 'm auction_rule \<Rightarrow> 'm world \<Rightarrow> (exn, unit) outcome \<times> 'm world" where
  "netauct_remove d session r w =
     (if install_auction_rules_flag (conf d) \<or> is_auctioneer (conf d)
      then handle_remove_session d session r w
      else (Ok (), w))"

text \<open>\<open>remove_all\<close> returns no value when rules are not installed.\<close>

definition netauct_remove_all :: "'m dispatcher \<Rightarrow> 'm world \<Rightarrow> (exn, bool) outcome \<times> 'm world" where
  "netauct_remove_all d w =
     (if install_auction_rules_flag (conf d) then (Ok True, w) else (Crash Missing_return, w))"

definition nop_remove_all :: "'m world \<Rightarrow> (exn, bool) outcome \<times> 'm world" where
  "nop_remove_all w = (Ok True, w)"

text \<open>Adding a copy of each request object as a response under a new key.\<close>

definition answer_requests :: "'m platform \<Rightarrow> 'm auction_rule \<times> 'm world \<Rightarrow> 'm auction_rule \<times> 'm world" where
  "answer_requests P = (\<lambda>(r, w).
     fold (\<lambda>(key, obj). set_response_object P (object_copy obj)) (object_requests r) (r, w))"

definition netauct_auction_interaction :: "'m dispatcher \<Rightarrow> string \<Rightarrow> 'm auction_rule \<Rightarrow> 'm world
    \<Rightarrow> (exn, 'm auction_rule) outcome \<times> 'm world" where
  "netauct_auction_interaction d session r w =
     call (post_event d Auction_interaction session (object_requests r) w) (\<lambda>_ w.
       let (auc_return, w) = answer_requests (plat d) (r, w) in (Ok auc_return, w))"

definition nop_auction_interaction :: "'m dispatcher \<Rightarrow> 'm auction_rule \<Rightarrow> 'm world
    \<Rightarrow> (exn, 'm auction_rule) outcome \<times> 'm world" where
  "nop_auction_interaction d r w =
     (let (rule_return, w) = answer_requests (plat d) (r, w) in (Ok rule_return, w))"

section \<open>The dispatcher's services\<close>

definition install_auction_rules :: "'m dispatcher \<Rightarrow> string \<Rightarrow> 'm auction_rule option \<Rightarrow> 'm world \<Rightarrow> (exn, unit) outcome \<times> 'm world" where
  "install_auction_rules d session act_rule w = (case rule_installer d of
       Nop_auction_rule_installer \<Rightarrow> (Ok (), w)
     | Netauct_rule_installer \<Rightarrow> netauct_create d session act_rule w)"

definition auction_interaction :: "'m dispatcher \<Rightarrow> bool \<Rightarrow> string \<Rightarrow> 'm auction_rule \<Rightarrow> 'm world
    \<Rightarrow> (exn, 'm auction_rule) outcome \<times> 'm world" where
  "auction_interaction d server session act_rule w = (case rule_installer d of
       Nop_auction_rule_installer \<Rightarrow> nop_auction_interaction d act_rule w
     | Netauct_rule_installer \<Rightarrow> netauct_auction_interaction d session act_rule w)"

definition send_response :: "'m dispatcher \<Rightarrow> string \<Rightarrow> 'm auction_rule option \<Rightarrow> 'm world \<Rightarrow> (exn, unit) outcome \<times> 'm world" where
  "send_response d session act_rule w = (case rule_installer d of
       Nop_auction_rule_installer \<Rightarrow> (Ok (), w)
     | Netauct_rule_installer \<Rightarrow> netauct_put_response d session act_rule w)"

definition remove_auction_rules :: "'m dispatcher \<Rightarrow> string \<Rightarrow> 'm auction_rule option \<Rightarrow> 'm world \<Rightarrow> (exn, unit) outcome \<times> 'm world" where
  "remove_auction_rules d session act_rule w = (case act_rule of
       None \<Rightarrow> (Ok (), w)
     | Some r \<Rightarrow> (case rule_installer d of
           Nop_auction_rule_installer \<Rightarrow> (Ok (), w)
         | Netauct_rule_installer \<Rightarrow> netauct_remove d session r w))"

definition dispatcher_check :: "'m dispatcher \<Rightarrow> string \<Rightarrow> 'm object_list \<Rightarrow> 'm world \<Rightarrow> (exn, bool) outcome \<times> 'm world" where
  "dispatcher_check d session missing w =
     (if install_auction_rules_flag (conf d)
      then call (case rule_installer d of
                   Nop_auction_rule_installer \<Rightarrow> (Ok (), w)
                 | Netauct_rule_installer \<Rightarrow> netauct_check d session missing w)
             (\<lambda>_ w. (Ok True, w))
      else (Ok False, w))"

definition is_authorized :: "'m ntlp_msg \<Rightarrow> bool" where
  "is_authorized evt = True"

section \<open>The contract of the installer services\<close>

text \<open>
  Whatever the configuration, a service leaves the visible actions and the timers alone, never stops the
  process when it is given a rule, and throws only the error that says that the auctioning application did
  not get the event.
\<close>

locale installer_service =
  fixes svc :: "'m world \<Rightarrow> (exn, 'a) outcome \<times> 'm world"
  assumes svc_trace: "trace (snd (svc w)) = trace w"
    and svc_timers: "timers_made (snd (svc w)) = timers_made w"
    and svc_outcome: "fst (svc w) = Throw wrong_conf_message \<or> (\<exists>a. fst (svc w) = Ok a)"
begin

lemma svc_cases:
  obtains (ok) a w' where "svc w = (Ok a, w')" "trace w' = trace w" "timers_made w' = timers_made w"
        | (error) w' where "svc w = (Throw wrong_conf_message, w')" "trace w' = trace w"
            "timers_made w' = timers_made w"
  using svc_outcome [of w] svc_trace [of w] svc_timers [of w] by (cases "svc w") auto

lemma not_crashed: "\<not> crashed (fst (svc w))"
  using svc_outcome [of w] by auto

lemma sent_kept: "sent (snd (svc w)) = sent w"
  using svc_trace [of w] by (simp add: sent_def)

end

text \<open>Services are closed under the ways in which the installers combine them.\<close>

lemma service_return: "installer_service (\<lambda>w. (Ok a, w))"
  by unfold_locales simp_all

lemma service_refuse: "installer_service (\<lambda>w. (Throw wrong_conf_message, w))"
  by unfold_locales simp_all

lemma service_if: "installer_service f \<Longrightarrow> installer_service g \<Longrightarrow> installer_service (\<lambda>w. if b then f w else g w)"
  by (cases b) simp_all

lemma service_call:
  assumes f: "installer_service f" and k: "\<And>a. installer_service (k a)"
  shows "installer_service (\<lambda>w. call (f w) k)"
proof
  fix w
  show "trace (snd (call (f w) k)) = trace w"
    by (cases rule: installer_service.svc_cases [OF f, of w]) (simp_all add: installer_service.svc_trace [OF k])
  show "timers_made (snd (call (f w) k)) = timers_made w"
    by (cases rule: installer_service.svc_cases [OF f, of w]) (simp_all add: installer_service.svc_timers [OF k])
  show "fst (call (f w) k) = Throw wrong_conf_message \<or> (\<exists>a. fst (call (f w) k) = Ok a)"
    by (cases rule: installer_service.svc_cases [OF f, of w]) (simp_all add: installer_service.svc_outcome [OF k])
qed

lemma service_post: "installer_service (post_event d t session objs)"
proof
  fix w
  obtain q w' where e: "enqueue (plat d) (build_event (plat d) t session objs) w = (q, w')" by fastforce
  have w': "trace w' = trace w" "timers_made w' = timers_made w"
    using e by (auto simp: enqueue_def split: if_splits option.splits)
  then show "trace (snd (post_event d t session objs w)) = trace w"
    "timers_made (snd (post_event d t session objs w)) = timers_made w"
    "fst (post_event d t session objs w) = Throw wrong_conf_message \<or>
     (\<exists>a. fst (post_event d t session objs w) = Ok a)"
    by (simp_all add: post_event_def e)
qed

lemma answer_requests_world:
  "trace (snd (answer_requests P (r, w))) = trace w \<and>
   timers_made (snd (answer_requests P (r, w))) = timers_made w"
proof -
  have "trace (snd (fold (\<lambda>(key, obj). set_response_object P (object_copy obj)) l q)) = trace (snd q) \<and>
    timers_made (snd (fold (\<lambda>(key, obj). set_response_object P (object_copy obj)) l q)) = timers_made (snd q)"
    for l :: "'a object_list" and q
    by (induction l arbitrary: q) (auto simp: set_response_object_def new_mspec_rule_key_def split_beta Let_def)
  then show ?thesis by (simp add: answer_requests_def)
qed

lemma service_answer:
  "installer_service (\<lambda>w. case answer_requests P (r, w) of (a, w) \<Rightarrow> (Ok a, w))"
  by unfold_locales (simp_all add: answer_requests_world split_beta)

lemmas service_rules = service_return service_refuse service_if service_call service_post service_answer

lemmas service_defs = netauct_check_def netauct_create_def netauct_put_response_def netauct_remove_def
  netauct_auction_interaction_def nop_auction_interaction_def handle_create_session_def
  handle_remove_session_def

interpretation check_svc: installer_service "dispatcher_check d session missing" for d session missing
  unfolding dispatcher_check_def service_defs
  by (cases "rule_installer d") (simp_all del: call_simps add: service_rules)

interpretation install_svc: installer_service "install_auction_rules d session (Some r)" for d session r
  unfolding install_auction_rules_def service_defs
  by (cases "rule_installer d") (simp_all add: service_rules)

interpretation response_svc: installer_service "send_response d session (Some r)" for d session r
  unfolding send_response_def service_defs
  by (cases "rule_installer d") (simp_all add: service_rules)

interpretation remove_svc: installer_service "remove_auction_rules d session r" for d session r
  unfolding remove_auction_rules_def service_defs
  by (cases "rule_installer d"; cases r) (simp_all add: service_rules)

interpretation interaction_svc: installer_service "auction_interaction d server session r" for d server session r
  unfolding auction_interaction_def service_defs
  by (cases "rule_installer d") (simp_all add: service_rules)

section \<open>When the application gets an event\<close>

text \<open>
  The outcome of a service in terms of the configuration and the queue: an event that is posted is lost exactly when
  the queue is shut down or full.
\<close>

definition queue_takes :: "'m dispatcher \<Rightarrow> 'm anslp_event \<Rightarrow> 'm world \<Rightarrow> bool" where
  "queue_takes d e w = (\<not> shutdownflag w \<and> enqueue_element (plat d) (install_queue w) e \<noteq> None)"

definition put_taken :: "'m dispatcher \<Rightarrow> string \<Rightarrow> 'm auction_rule \<Rightarrow> 'm world \<Rightarrow> bool" where
  "put_taken d i r w = (rule_installer d = Nop_auction_rule_installer \<or>
     is_auctioneer (conf d) \<and> queue_takes d (build_event (plat d) Create_session i (object_requests r)) w)"

definition removal_taken :: "'m dispatcher \<Rightarrow> string \<Rightarrow> 'm auction_rule \<Rightarrow> 'm world \<Rightarrow> bool" where
  "removal_taken d i r w = (rule_installer d = Nop_auction_rule_installer \<or>
     \<not> install_auction_rules_flag (conf d) \<and> \<not> is_auctioneer (conf d) \<or>
     queue_takes d (build_event (plat d) Remove_session i (object_requests r)) w)"

lemma post_event_exact:
  "post_event d t i objs w = (let e = build_event (plat d) t i objs in
     if queue_takes d e w then (Ok (), w\<lparr>install_queue := the (enqueue_element (plat d) (install_queue w) e)\<rparr>)
     else (Throw wrong_conf_message, w))"
  by (auto simp: post_event_def enqueue_def queue_takes_def Let_def split: option.split)

lemma send_response_exact:
  "send_response d i (Some r) w = (if put_taken d i r w
     then (Ok (), if rule_installer d = Nop_auction_rule_installer then w else w\<lparr>install_queue :=
       the (enqueue_element (plat d) (install_queue w) (build_event (plat d) Create_session i (object_requests r)))\<rparr>)
     else (Throw wrong_conf_message, w))"
  by (cases "rule_installer d")
    (simp_all add: send_response_def netauct_put_response_def handle_create_session_def post_event_exact put_taken_def Let_def)

lemma remove_rules_exact:
  "remove_auction_rules d i (Some r) w = (if removal_taken d i r w
     then (Ok (), if rule_installer d = Nop_auction_rule_installer \<or> \<not> install_auction_rules_flag (conf d) \<and> \<not> is_auctioneer (conf d)
       then w else w\<lparr>install_queue :=
       the (enqueue_element (plat d) (install_queue w) (build_event (plat d) Remove_session i (object_requests r)))\<rparr>)
     else (Throw wrong_conf_message, w))"
  by (cases "rule_installer d")
    (auto simp add: remove_auction_rules_def netauct_remove_def handle_remove_session_def post_event_exact removal_taken_def Let_def)

end
