(* ===== verification/Events.thy ===== *)
theory Events
  imports Rule_Installer
begin

text \<open>
  The events that drive the sessions (\<open>src/include/events.h\<close>): one constructor per event
  class, with the data the source reads, and the predicates on events. An event carries
  the session id it is for, or none. The API return queue is represented by whether it is non-null.
\<close>

record 'm api_create_event =
  ac_session_id :: string
  ac_source_addr :: hostaddress
  ac_dest_addr :: hostaddress
  ac_source_port :: u16
  ac_dest_port :: u16
  ac_protocol :: u8
  ac_session_lifetime :: u32
  ac_sel_auct_entities :: u32
  ac_mspec_objects :: "'m object_list"
  ac_return_queue :: bool

datatype 'm event_data =
    Network_notification_event
  | Route_changed_bad_event
  | No_next_node_found_event
  | Routing_state_check_event mri
  | Msg_event (ev_ntlp_msg: "'m ntlp_msg") (ev_for_this_node: bool)
  | Timer_event (ev_timer_id: timer)
  | Api_create_event "'m api_create_event"
  | Api_check_event "'m object_list"
  | Api_install_event "'m object_list"
  | Api_refresh_event
  | Api_notify_event
  | Api_bidding_event "'m object_list" bool
  | Api_response_event
  | Api_teardown_event
  | Api_remove_event "'m object_list"

record 'm event =
  ev_sid :: "session_id option"
  ev_data :: "'m event_data"

text \<open>\<open>setObject\<close> of the API events that carry objects.\<close>

definition event_setObject :: "'m platform \<Rightarrow> uuid \<Rightarrow> 'm anslp_object \<Rightarrow> 'm object_list \<Rightarrow> 'm object_list" where
  "event_setObject P key obj l = map_insert (mspec_rule_key_lt P) key obj l"

definition msg_of :: "'m event \<Rightarrow> 'm ntlp_msg option" where
  "msg_of evt = (case ev_data evt of Msg_event m _ \<Rightarrow> Some m | _ \<Rightarrow> None)"

definition is_timer_of :: "'m event \<Rightarrow> timer \<Rightarrow> bool" where
  "is_timer_of evt t = (case ev_data evt of Timer_event i \<Rightarrow> i = t | _ \<Rightarrow> False)"

definition is_timer :: "'m event \<Rightarrow> bool" where
  "is_timer evt = (case ev_data evt of Timer_event i \<Rightarrow> True | _ \<Rightarrow> False)"

definition api_create_of :: "'m event \<Rightarrow> 'm api_create_event option" where
  "api_create_of evt = (case ev_data evt of Api_create_event e \<Rightarrow> Some e | _ \<Rightarrow> None)"

definition api_check_of :: "'m event \<Rightarrow> 'm object_list option" where
  "api_check_of evt = (case ev_data evt of Api_check_event l \<Rightarrow> Some l | _ \<Rightarrow> None)"

definition api_install_of :: "'m event \<Rightarrow> 'm object_list option" where
  "api_install_of evt = (case ev_data evt of Api_install_event l \<Rightarrow> Some l | _ \<Rightarrow> None)"

definition api_bidding_of :: "'m event \<Rightarrow> ('m object_list \<times> bool) option" where
  "api_bidding_of evt = (case ev_data evt of Api_bidding_event l rq \<Rightarrow> Some (l, rq) | _ \<Rightarrow> None)"

definition api_remove_of :: "'m event \<Rightarrow> 'm object_list option" where
  "api_remove_of evt = (case ev_data evt of Api_remove_event l \<Rightarrow> Some l | _ \<Rightarrow> None)"

definition is_api_create :: "'m event \<Rightarrow> bool" where
  "is_api_create evt = (api_create_of evt \<noteq> None)"

definition is_api_check :: "'m event \<Rightarrow> bool" where
  "is_api_check evt = (api_check_of evt \<noteq> None)"

definition is_api_install :: "'m event \<Rightarrow> bool" where
  "is_api_install evt = (api_install_of evt \<noteq> None)"

definition is_api_bidding :: "'m event \<Rightarrow> bool" where
  "is_api_bidding evt = (api_bidding_of evt \<noteq> None)"

definition is_api_remove :: "'m event \<Rightarrow> bool" where
  "is_api_remove evt = (api_remove_of evt \<noteq> None)"

definition is_api_teardown :: "'m event \<Rightarrow> bool" where
  "is_api_teardown evt = (case ev_data evt of Api_teardown_event \<Rightarrow> True | _ \<Rightarrow> False)"

definition routing_state_check_of :: "'m event \<Rightarrow> mri option" where
  "routing_state_check_of evt = (case ev_data evt of Routing_state_check_event m \<Rightarrow> Some m | _ \<Rightarrow> None)"

definition is_routing_state_check :: "'m event \<Rightarrow> bool" where
  "is_routing_state_check evt = (routing_state_check_of evt \<noteq> None)"

definition is_route_changed_bad_event :: "'m event \<Rightarrow> bool" where
  "is_route_changed_bad_event evt = (case ev_data evt of Route_changed_bad_event \<Rightarrow> True | _ \<Rightarrow> False)"

definition is_no_next_node_found_event :: "'m event \<Rightarrow> bool" where
  "is_no_next_node_found_event evt = (case ev_data evt of No_next_node_found_event \<Rightarrow> True | _ \<Rightarrow> False)"

text \<open>\<open>dynamic_cast\<close> of the event's message body to one of the message classes.\<close>

definition body_of :: "msg_class \<Rightarrow> 'm event \<Rightarrow> 'm anslp_msg option" where
  "body_of c evt = (case msg_of evt of None \<Rightarrow> None | Some m \<Rightarrow> cast_msg c m)"

text \<open>The event's NTLP message together with that body.\<close>

definition msg_with :: "msg_class \<Rightarrow> 'm event \<Rightarrow> ('m ntlp_msg \<times> 'm anslp_msg) option" where
  "msg_with c evt = (case msg_of evt of
       None \<Rightarrow> None
     | Some m \<Rightarrow> (case cast_msg c m of None \<Rightarrow> None | Some b \<Rightarrow> Some (m, b)))"

definition is_anslp_create :: "'m event \<Rightarrow> bool" where
  "is_anslp_create evt = (body_of Anslp_create evt \<noteq> None)"

definition is_anslp_bidding :: "'m event \<Rightarrow> bool" where
  "is_anslp_bidding evt = (body_of Anslp_bidding evt \<noteq> None)"

definition is_anslp_refresh :: "'m event \<Rightarrow> bool" where
  "is_anslp_refresh evt = (body_of Anslp_refresh evt \<noteq> None)"

definition is_anslp_notify :: "'m event \<Rightarrow> bool" where
  "is_anslp_notify evt = (body_of Anslp_notify evt \<noteq> None)"

definition is_anslp_response_msn :: "'m event \<Rightarrow> u32 \<Rightarrow> bool" where
  "is_anslp_response_msn evt msn = (case body_of Anslp_response evt of
       None \<Rightarrow> False
     | Some r \<Rightarrow> has_msg_sequence_number r \<and> msn = get_msg_sequence_number r)"

text \<open>The overload with a message (not null where it is called).\<close>

definition is_anslp_response :: "'m event \<Rightarrow> 'm ntlp_msg \<Rightarrow> bool" where
  "is_anslp_response evt m = (case msg m of
       None \<Rightarrow> False
     | Some b \<Rightarrow> if \<not> has_msg_sequence_number b then False
                else is_anslp_response_msn evt (get_msg_sequence_number b))"

definition is_invalid_anslp_msg :: "'m event \<Rightarrow> bool" where
  "is_invalid_anslp_msg evt = (case msg_of evt of None \<Rightarrow> False | Some m \<Rightarrow> msg m = None)"

lemmas event_pred_defs = is_timer_of_def is_timer_def api_create_of_def api_check_of_def api_install_of_def
  api_bidding_of_def api_remove_of_def is_api_create_def is_api_check_def is_api_install_def
  is_api_bidding_def is_api_remove_def is_api_teardown_def routing_state_check_of_def is_routing_state_check_def
  is_route_changed_bad_event_def is_no_next_node_found_event_def is_anslp_create_def
  is_anslp_bidding_def is_anslp_refresh_def is_anslp_notify_def is_anslp_response_msn_def
  is_anslp_response_def is_invalid_anslp_msg_def body_of_def msg_with_def msg_of_def cast_msg_def

text \<open>An event is of one kind only.\<close>

lemma body_of_only:
  assumes "body_of c evt = Some b"
  shows "msg_class b = c" "\<not> is_timer evt" "\<not> is_timer_of evt t" "\<not> is_api_teardown evt"
    "\<not> is_no_next_node_found_event evt" "\<not> is_route_changed_bad_event evt" "api_create_of evt = None"
    "api_install_of evt = None" "api_check_of evt = None" "api_bidding_of evt = None" "api_remove_of evt = None"
    "routing_state_check_of evt = None"
    "c \<noteq> c' \<Longrightarrow> body_of c' evt = None" "c \<noteq> c' \<Longrightarrow> msg_with c' evt = None"
  using assms by (auto simp: event_pred_defs split: event_data.splits option.splits if_splits)

lemma timer_only:
  assumes "is_timer evt"
  shows "body_of c evt = None" "msg_with c evt = None" "\<not> is_api_teardown evt" "api_create_of evt = None"
    "api_install_of evt = None" "api_check_of evt = None" "api_bidding_of evt = None" "api_remove_of evt = None"
    "\<not> is_no_next_node_found_event evt" "\<not> is_route_changed_bad_event evt" "msg_of evt = None"
    "routing_state_check_of evt = None"
  using assms by (auto simp: event_pred_defs split: event_data.splits)

lemma teardown_only:
  assumes "is_api_teardown evt"
  shows "body_of c evt = None" "msg_with c evt = None" "\<not> is_timer evt" "\<not> is_timer_of evt t" "api_create_of evt = None"
    "api_install_of evt = None" "api_bidding_of evt = None" "\<not> is_no_next_node_found_event evt"
  using assms by (auto simp: event_pred_defs split: event_data.splits)

lemma api_objects_only:
  assumes "api_install_of evt = Some l \<or> api_bidding_of evt = Some lq \<or> api_check_of evt = Some l \<or> api_remove_of evt = Some l"
  shows "body_of c evt = None" "msg_with c evt = None" "\<not> is_timer evt" "\<not> is_timer_of evt t"
    "api_create_of evt = None" "\<not> is_api_teardown evt" "\<not> is_no_next_node_found_event evt"
    "\<not> is_route_changed_bad_event evt"
  using assms by (auto simp: event_pred_defs split: event_data.splits)

lemma is_timer_of_timer: "is_timer_of evt t \<Longrightarrow> is_timer evt"
  by (auto simp: event_pred_defs split: event_data.splits)

lemma msg_with_body_of: "body_of c evt = map_option snd (msg_with c evt)"
  by (auto simp: body_of_def msg_with_def split: option.splits)

lemma msg_with_SomeD: "msg_with c evt = Some (m, b) \<Longrightarrow> body_of c evt = Some b \<and> msg_of evt = Some m \<and> msg m = Some b"
  by (auto simp: body_of_def msg_with_def cast_msg_def split: option.splits if_splits)

lemma msg_with_cast: "msg_with c evt = Some (m, b) \<Longrightarrow> cast_msg c m = Some b"
  by (auto simp: msg_with_def split: option.splits)

text \<open>A response that was recognised by its sequence number answers the stored request.\<close>

lemma is_response_same_msn:
  "is_anslp_response evt m \<Longrightarrow> body_of Anslp_response evt = Some r \<Longrightarrow> cast_msg Anslp_create m = Some c \<Longrightarrow>
   is_response_to_create r c"
  "is_anslp_response evt m \<Longrightarrow> body_of Anslp_response evt = Some r \<Longrightarrow> cast_msg Anslp_refresh m = Some c \<Longrightarrow>
   is_response_to_refresh r c"
  by (auto simp: is_anslp_response_def is_anslp_response_msn_def is_response_to_create_def
      is_response_to_refresh_def cast_msg_def split: option.splits if_splits)

lemma is_response_has_body: "is_anslp_response evt m \<Longrightarrow> \<exists>r. body_of Anslp_response evt = Some r"
  by (auto simp: is_anslp_response_def is_anslp_response_msn_def split: option.splits if_splits)

text \<open>The kind of an event, the alphabet of the abstract state machines.\<close>

datatype label = L_msg msg_class | L_timer | L_create | L_check | L_install | L_bidding | L_teardown | L_remove
  | L_no_next_node | L_route_changed | L_other

definition label_of :: "'m event \<Rightarrow> label" where
  "label_of evt = (case ev_data evt of
       Msg_event m _ \<Rightarrow> (case msg m of None \<Rightarrow> L_other | Some b \<Rightarrow> L_msg (msg_class b))
     | Timer_event _ \<Rightarrow> L_timer
     | Api_create_event _ \<Rightarrow> L_create
     | Api_check_event _ \<Rightarrow> L_check
     | Api_install_event _ \<Rightarrow> L_install
     | Api_bidding_event _ _ \<Rightarrow> L_bidding
     | Api_teardown_event \<Rightarrow> L_teardown
     | Api_remove_event _ \<Rightarrow> L_remove
     | No_next_node_found_event \<Rightarrow> L_no_next_node
     | Route_changed_bad_event \<Rightarrow> L_route_changed
     | _ \<Rightarrow> L_other)"

text \<open>Predicates on events are facts about the label, so that two of them exclude each other.\<close>

lemma label_of_simps:
  "is_timer evt \<longleftrightarrow> label_of evt = L_timer" "is_api_teardown evt \<longleftrightarrow> label_of evt = L_teardown"
  "is_no_next_node_found_event evt \<longleftrightarrow> label_of evt = L_no_next_node"
  "is_route_changed_bad_event evt \<longleftrightarrow> label_of evt = L_route_changed"
  "is_api_remove evt \<longleftrightarrow> label_of evt = L_remove" "is_api_install evt \<longleftrightarrow> label_of evt = L_install"
  "is_api_check evt \<longleftrightarrow> label_of evt = L_check" "is_anslp_refresh evt \<longleftrightarrow> label_of evt = L_msg Anslp_refresh"
  "is_anslp_bidding evt \<longleftrightarrow> label_of evt = L_msg Anslp_bidding"
  "is_api_create evt \<longleftrightarrow> label_of evt = L_create" "is_anslp_create evt \<longleftrightarrow> label_of evt = L_msg Anslp_create"
  by (auto simp: label_of_def event_pred_defs split: event_data.splits option.splits if_splits)

lemma label_of_some:
  "is_timer_of evt t \<Longrightarrow> label_of evt = L_timer"
  "body_of c evt = Some b \<Longrightarrow> label_of evt = L_msg c" "msg_with c evt = Some p \<Longrightarrow> label_of evt = L_msg c"
  "api_create_of evt = Some e \<Longrightarrow> label_of evt = L_create" "api_check_of evt = Some l \<Longrightarrow> label_of evt = L_check"
  "api_install_of evt = Some l \<Longrightarrow> label_of evt = L_install" "api_bidding_of evt = Some lq \<Longrightarrow> label_of evt = L_bidding"
  "api_remove_of evt = Some l \<Longrightarrow> label_of evt = L_remove"
  by (auto simp: label_of_def event_pred_defs split: event_data.splits option.splits if_splits)

lemma label_of_none: "api_create_of evt = None \<Longrightarrow> label_of evt \<noteq> L_create"
  by (auto simp: label_of_def event_pred_defs split: event_data.splits option.splits)

definition class_of_msg :: "'m ntlp_msg \<Rightarrow> msg_class option" where
  "class_of_msg m = map_option msg_class (msg m)"

lemma msg_class_cast: "cast_msg c m = Some b \<Longrightarrow> class_of_msg m = Some c"
  by (auto simp: cast_msg_def class_of_msg_def split: option.splits if_splits)

lemma cast_msg_class: "cast_msg c m = Some b \<Longrightarrow> msg_class b = c"
  by (auto simp: cast_msg_def split: option.splits if_splits)

lemma class_of_msg_simps [simp]:
  "class_of_msg (new_ntlp_msg i b r n) = Some (msg_class b)"
  "class_of_msg (create_response P sev code m) = Some Anslp_response"
  "class_of_msg (create_error_response P e m) = Some Anslp_response"
  "class_of_msg (create_success_response P lt m) = Some Anslp_response"
  by (simp_all add: class_of_msg_def new_ntlp_msg_def create_error_response_def create_success_response_def Let_def
      create_response_def split: option.split)

text \<open>The classes of the messages that were sent between two worlds.\<close>

definition sent_classes :: "'m world \<Rightarrow> 'm world \<Rightarrow> msg_class option list" where
  "sent_classes w w' = map class_of_msg (drop (length (sent w)) (sent w'))"

lemma sent_classes_simps:
  "sent w' = sent w \<Longrightarrow> sent_classes w w' = []"
  "sent w' = sent w @ [m] \<Longrightarrow> sent_classes w w' = [class_of_msg m]"
  "sent w' = sent w @ [m, m'] \<Longrightarrow> sent_classes w w' = [class_of_msg m, class_of_msg m']"
  by (simp_all add: sent_classes_def)

end
