(* ===== verification/Gistka_Mapper.thy ===== *)
theory Gistka_Mapper
  imports Wire_Format Events
begin

text \<open>
  \<open>gistka_mapper\<close> (\<open>src/src/gistka_mapper.cpp\<close>): messages of the GIST API to events, and messages
  of the sessions to messages of the GIST API.

  \<open>api_msg\<close> holds what the mapper reads of an \<open>ntlp::APIMsg\<close> and \<open>send_msg\<close> what it writes with
  \<open>set_sendmessage\<close>. Pointers that may be null are options. The copy of routing information is the
  identity. The outcome of reading is an option, \<open>None\<close> when the reader does not return.
\<close>

record sessionid =
  n1 :: u32
  n2 :: u32
  n3 :: u32
  n4 :: u32

datatype api_subtype = Recv_message | Network_notification | Message_status | Other_subtype

datatype error_t = Route_changed_status_bad | Error_msg_node_not_found | Other_error

record api_msg =
  am_subtype :: api_subtype
  am_sessionid :: "sessionid option"
  am_data :: "u8 list option"
  am_adjacency_check :: bool
  am_mri :: "mri option"
  am_sii_handle :: u32
  am_final_hop :: bool
  am_msgstatus :: error_t

record send_msg =
  sm_data :: "u8 list"
  sm_msg_handle :: u32
  sm_nslp_id :: u32
  sm_sessionid :: sessionid
  sm_mri :: mri
  sm_sii_handle :: u32
  sm_reliable :: bool
  sm_secure :: bool
  sm_timeout :: u32
  sm_ip_ttl :: u16
  sm_hop_count :: u32

text \<open>The subclasses of \<open>protlib::message\<close> that arrive in the input queue.\<close>

datatype 'm message =
    Api_msg api_msg
  | Anslp_timer_msg session_id timer
  | Anslp_event_msg "'m event option"
  | Other_message

definition NSLP_ID :: u16 where "NSLP_ID = 34"
definition SEND_MSG_TIMEOUT :: u32 where "SEND_MSG_TIMEOUT = 5"
definition SEND_MSG_IP_TTL :: u16 where "SEND_MSG_IP_TTL = 100"
definition SEND_MSG_GIST_HOP_COUNT :: u32 where "SEND_MSG_GIST_HOP_COUNT = 10"

definition create_ntlp_session_id :: "session_id \<Rightarrow> sessionid" where
  "create_ntlp_session_id s = \<lparr>n1 = w1 s, n2 = w2 s, n3 = w3 s, n4 = w4 s\<rparr>"

text \<open>\<open>None\<close> is the failed assertion on the null pointer.\<close>

definition create_anslp_session_id :: "sessionid option \<Rightarrow> session_id option" where
  "create_anslp_session_id i = (case i of
       None \<Rightarrow> None
     | Some i \<Rightarrow> Some \<lparr>w1 = n1 i, w2 = n2 i, w3 = n3 i, w4 = n4 i\<rparr>)"

text \<open>
  An \<open>IEError\<close> is a failed assertion here, and any other exception ends the program, since the
  function is declared not to throw.
\<close>

definition create_api_msg :: "('b, 'm) wire \<Rightarrow> 'm ntlp_msg \<Rightarrow> (wire_exn, send_msg) outcome" where
  "create_api_msg L m = (case msg m of
       None \<Rightarrow> Crash Null_deref
     | Some b \<Rightarrow>
         let payload = new_sized L (msg_serialized_size L b)
         in (case msg_serialize L Protocol_v1 b payload of
               (Crash f, _) \<Rightarrow> Crash f
             | (Throw (Ie_error e), _) \<Rightarrow> Crash Assert_failed
             | (Throw Net_msg_error, _) \<Rightarrow> Crash Unexpected_exception
             | (Ok _, payload) \<Rightarrow>
                 Ok \<lparr>sm_data = get_buffer L payload, sm_msg_handle = 0, sm_nslp_id = ucast NSLP_ID,
                     sm_sessionid = create_ntlp_session_id (sid m), sm_mri = routing_info m,
                     sm_sii_handle = sii_handle m, sm_reliable = True, sm_secure = False,
                     sm_timeout = SEND_MSG_TIMEOUT, sm_ip_ttl = SEND_MSG_IP_TTL,
                     sm_hop_count = SEND_MSG_GIST_HOP_COUNT\<rparr>))"

text \<open>The message body is null when the payload could not be read.\<close>

definition receive_payload :: "('b, 'm) wire \<Rightarrow> u8 list \<Rightarrow> (wire_exn, 'm anslp_msg option) outcome option" where
  "receive_payload L data =
     map_option (\<lambda>(r, errlist, _). case r of
         Crash f \<Rightarrow> Crash f
       | Throw e \<Rightarrow> Throw e
       | Ok None \<Rightarrow> if errlist = [] then Crash Assert_failed else Ok None
       | Ok (Some (Ie_msg m)) \<Rightarrow> Ok (Some m)
       | Ok (Some (Ie_object _)) \<Rightarrow> Crash Assert_failed)
     (manager_deserialize L Cat_anslp_msg Protocol_v1 False ([], new_filled L data))"

definition map_api_receive_message :: "('b, 'm) wire \<Rightarrow> api_msg \<Rightarrow> (wire_exn, 'm event option) outcome option" where
  "map_api_receive_message L apimsg =
     (if am_subtype apimsg \<noteq> Recv_message then Some (Crash Assert_failed)
      else case create_anslp_session_id (am_sessionid apimsg) of
        None \<Rightarrow> Some (Crash Assert_failed)
      | Some i \<Rightarrow> (case am_data apimsg of
          None \<Rightarrow> Some (
            if am_adjacency_check apimsg
            then (case am_mri apimsg of
                    None \<Rightarrow> Crash Null_deref
                  | Some r \<Rightarrow> Ok (Some \<lparr>ev_sid = Some i, ev_data = Routing_state_check_event r\<rparr>))
            else Ok None)
        | Some data \<Rightarrow>
            map_option (\<lambda>r. case r of
                Crash f \<Rightarrow> Crash f
              | Throw e \<Rightarrow> Throw e
              | Ok m \<Rightarrow> (case am_mri apimsg of
                    None \<Rightarrow> Crash Null_deref
                  | Some ri \<Rightarrow> Ok (Some \<lparr>ev_sid = Some i, ev_data =
                      Msg_event \<lparr>sid = i, msg = m, routing_info = ri, sii_handle = am_sii_handle apimsg\<rparr>
                        (am_final_hop apimsg)\<rparr>)))
            (receive_payload L data)))"

definition map_api_network_notification :: "api_msg \<Rightarrow> (wire_exn, 'm event option) outcome" where
  "map_api_network_notification m =
     (if am_subtype m \<noteq> Network_notification then Crash Assert_failed
      else case am_msgstatus m of
        Route_changed_status_bad \<Rightarrow> (case create_anslp_session_id (am_sessionid m) of
            None \<Rightarrow> Crash Assert_failed
          | Some i \<Rightarrow> Ok (Some \<lparr>ev_sid = Some i, ev_data = Route_changed_bad_event\<rparr>))
      | _ \<Rightarrow> Ok None)"

definition map_api_message_status :: "api_msg \<Rightarrow> (wire_exn, 'm event option) outcome" where
  "map_api_message_status m =
     (if am_subtype m \<noteq> Message_status then Crash Assert_failed
      else case am_sessionid m of
        None \<Rightarrow> Ok None
      | Some i \<Rightarrow>
          if am_msgstatus m = Error_msg_node_not_found
          then Ok (Some \<lparr>ev_sid = create_anslp_session_id (Some i), ev_data = No_next_node_found_event\<rparr>)
          else Ok None)"

definition map_api_message :: "('b, 'm) wire \<Rightarrow> api_msg \<Rightarrow> (wire_exn, 'm event option) outcome option" where
  "map_api_message L m = (case am_subtype m of
       Recv_message \<Rightarrow> map_api_receive_message L m
     | Network_notification \<Rightarrow> Some (map_api_network_notification m)
     | Message_status \<Rightarrow> Some (map_api_message_status m)
     | Other_subtype \<Rightarrow> Some (Ok None))"

definition map_timer_message :: "session_id \<Rightarrow> timer \<Rightarrow> 'm event" where
  "map_timer_message i t = \<lparr>ev_sid = Some i, ev_data = Timer_event t\<rparr>"

definition map_to_event :: "('b, 'm) wire \<Rightarrow> 'm message option \<Rightarrow> (wire_exn, 'm event option) outcome option" where
  "map_to_event L m = (case m of
       None \<Rightarrow> Some (Crash Assert_failed)
     | Some (Api_msg a) \<Rightarrow> map_api_message L a
     | Some (Anslp_timer_msg i t) \<Rightarrow> Some (Ok (Some (map_timer_message i t)))
     | Some (Anslp_event_msg e) \<Rightarrow> Some (Ok e)
     | Some Other_message \<Rightarrow> Some (Ok None))"

end
