(* ===== verification/Gistka_Properties.thy ===== *)
theory Gistka_Properties
  imports Wire_Messages Gistka_Mapper
begin

text \<open>
  What the mapper promises: a complete message that is handed to GIST is the event that the next node maps,
  the messages that the setters build are complete, and which messages are not delivered.
\<close>

section \<open>Building complete messages\<close>

text \<open>The numbers of the mspec objects have no gaps, and every object can be sent.\<close>

definition good :: "('b, 'm) wire \<Rightarrow> 'm anslp_msg \<Rightarrow> bool" where
  "good L m = (wf_msg m \<and> (\<forall>i. 1 \<le> i \<and> i \<le> mspec_count m \<longrightarrow> get_object (mspec_key i) m \<noteq> None) \<and>
     (\<forall>obj \<in> snd ` set (objects m). sendable L obj))"

lemma goodD:
  assumes "good L m"
  shows "wf_msg m" "1 \<le> i \<Longrightarrow> i \<le> mspec_count m \<Longrightarrow> get_object (mspec_key i) m \<noteq> None"
    "\<forall>obj \<in> snd ` set (objects m). sendable L obj"
  using assms unfolding good_def by blast+

lemma goodI:
  assumes "wf_msg m" "\<And>i. 1 \<le> i \<Longrightarrow> i \<le> mspec_count m \<Longrightarrow> get_object (mspec_key i) m \<noteq> None"
    "\<forall>obj \<in> snd ` set (objects m). sendable L obj"
  shows "good L m"
  using assms unfolding good_def by blast

lemma good_new [simp]:
  "good L new_anslp_create" "good L new_anslp_response" "good L new_anslp_refresh" "good L new_anslp_bidding" "good L new_anslp_notify"
  by (simp_all add: good_def) (simp_all add: new_anslp_create_def new_anslp_response_def new_anslp_refresh_def new_anslp_bidding_def
      new_anslp_notify_def mspec_count_def getMaxSequence_def)

lemma sendable_set_object:
  assumes "\<forall>obj \<in> snd ` set (objects m). sendable L obj" "sendable L obj"
  shows "\<forall>x \<in> snd ` set (objects (set_object obj m)). sendable L x"
proof
  fix x assume "x \<in> snd ` set (objects (set_object obj m))"
  then have "x \<in> insert obj (snd ` set (objects m))"
    using snd_set_map_insert [of ie_object_key_lt "storage_key obj m" obj "objects m"]
    by (simp add: set_object_storage_key ie_store_set_def) blast
  then show "sendable L x" using assms by blast
qed

lemma mspec_count_le: "mspec_count m < 2 ^ 32"
  using unsigned_less [of "getMaxSequence 0xF9 (objects m)", where 'a = nat] by (simp add: mspec_count_def)

text \<open>The mspec objects of a message are numbered without gaps.\<close>

definition gapless :: "'m anslp_msg \<Rightarrow> bool" where
  "gapless m = (\<forall>i. 1 \<le> i \<and> i \<le> mspec_count m \<longrightarrow> get_object (mspec_key i) m \<noteq> None)"

lemma gapless_set_unique:
  assumes "wf_msg m" "gapless m" "wf_object obj" "unique obj" "mspec_count m \<le> mspec_limit"
  shows "gapless (set_object obj m)" "mspec_count (set_object obj m) = mspec_count m"
proof -
  show count: "mspec_count (set_object obj m) = mspec_count m"
    using set_unique_keeps_mspec(1) [OF assms(1,3,4)] by (simp add: mspec_count_def)
  have other: "mspec_key i \<noteq> storage_key obj m" for i
    using unique_type [OF assms(3,4)] assms(4) by (auto simp: storage_key_def unique_types_def)
  have "get_object (mspec_key i) (set_object obj m) = get_object (mspec_key i) m" if "1 \<le> i" "i \<le> mspec_count m" for i
    using that assms(1) other [of i] assms(5) storage_key_registered_unique [OF assms(3,4), of m] mspec_key_registered_nat [of i]
    by (simp add: get_object_def set_object_storage_key wf_msg_def wf_store_def ie_store_get_set)
  then show "gapless (set_object obj m)" using assms(2) count by (auto simp: gapless_def)
qed

lemma gapless_set_mspec:
  assumes "wf_msg m" "gapless m" "wf_object obj" "is_mspec obj" "mspec_count m < mspec_limit"
  shows "gapless (set_mspec_object obj m)"
proof -
  note count = mspec_count_set_mspec [OF assms(1,5,3,4)]
  have ty: "obj_type obj = OT_ipap_message" "\<not> unique obj"
    using assms(3,4) mspec_type [of obj] by (simp_all add: wf_object_def)
  have room: "mspec_room m" using assms(5) by (simp add: mspec_room_count)
  have mx: "getMaxSequence 0xF9 (objects m) = of_nat (mspec_count m)" by (simp add: mspec_count_def)
  have key: "storage_key obj m = mspec_key (Suc (mspec_count m))" using ty mx by (simp add: storage_key_def add.commute)
  have "get_object (mspec_key i) (set_mspec_object obj m) \<noteq> None" if i: "1 \<le> i" "i \<le> Suc (mspec_count m)" for i
  proof (cases "i = Suc (mspec_count m)")
    case True
    then have k: "mspec_key i = storage_key obj m" using key by simp
    show ?thesis using assms(1) storage_key_registered [OF assms(3) room] unfolding k
      by (simp add: get_object_def set_mspec_object_def set_object_storage_key wf_msg_def wf_store_def ie_store_get_set)
  next
    case False
    then have old: "get_object (mspec_key i) m \<noteq> None" using i assms(2) by (simp add: gapless_def)
    have "mspec_key i \<noteq> storage_key obj m"
      unfolding key using mspec_key_inj [of i "Suc (mspec_count m)"] False i assms(5) by (simp add: mspec_limit_def)
    moreover have "registered_key (mspec_key i)" using mspec_key_registered_nat [of i] i assms(5) by simp
    ultimately show ?thesis using old assms(1) storage_key_registered [OF assms(3) room]
      by (simp add: get_object_def set_mspec_object_def set_object_storage_key wf_msg_def wf_store_def ie_store_get_set)
  qed
  then show ?thesis using count by (simp add: gapless_def)
qed

lemma good_set_unique:
  assumes "good L m" "sendable L obj" "unique obj" "mspec_count m \<le> mspec_limit"
  shows "good L (set_object obj m) \<and> mspec_count (set_object obj m) = mspec_count m"
proof -
  have wf: "wf_msg m" "wf_object obj" using goodD(1) [OF assms(1)] assms(2) by (simp_all add: sendable_def)
  have "gapless m" using goodD(2) [OF assms(1)] by (simp add: gapless_def)
  note set = gapless_set_unique [OF wf(1) this wf(2) assms(3,4)]
  have "good L (set_object obj m)"
    using wf_set_object [OF wf] assms(3) sendable_set_object [OF goodD(3) [OF assms(1)] assms(2)] set(1)
    by (intro goodI) (simp_all add: gapless_def)
  then show ?thesis using set(2) by blast
qed

lemma good_set_mspec:
  assumes "good L m" "sendable L obj" "is_mspec obj" "mspec_count m < mspec_limit"
  shows "good L (set_mspec_object obj m) \<and> mspec_count (set_mspec_object obj m) = Suc (mspec_count m)"
proof -
  have wf: "wf_msg m" "wf_object obj" using goodD(1) [OF assms(1)] assms(2) by (simp_all add: sendable_def)
  have "gapless m" using goodD(2) [OF assms(1)] by (simp add: gapless_def)
  from gapless_set_mspec [OF wf(1) this wf(2) assms(3,4)]
  have "good L (set_mspec_object obj m)"
    using wf_set_mspec [OF wf(1) assms(4) wf(2)] sendable_set_object [OF goodD(3) [OF assms(1)] assms(2)]
    by (intro goodI) (simp_all add: set_mspec_object_def gapless_def)
  then show ?thesis using mspec_count_set_mspec [OF wf(1) assms(4) wf(2) assms(3)] by blast
qed

lemma good_set_mspec_list:
  assumes "good L m" "\<forall>obj \<in> set l. sendable L obj \<and> is_mspec obj" "mspec_count m + length l \<le> mspec_limit"
  shows "good L (set_mspec_list l m) \<and> mspec_count (set_mspec_list l m) = mspec_count m + length l"
  using assms
proof (induction l arbitrary: m)
  case (Cons obj l)
  then show ?case using good_set_mspec [of L m obj] Cons.IH [of "set_mspec_object obj m"] by simp
qed simp

lemma sendable_new:
  "sendable L (new_session_lifetime v tr True)" "sendable L (new_msg_sequence_number v tr True)"
  "sendable L (new_message_hop_count v tr True)" "sendable L (new_selection_auctioning_entities v tr True)"
  "s < 16 \<Longrightarrow> sendable L (new_information_code s c 0 tr True)" "exportable L i \<Longrightarrow> sendable L (new_anslp_ipap_message i)"
  by (simp_all add: sendable_def)

lemma good_setters:
  assumes "good L m" "mspec_count m \<le> mspec_limit"
  shows "good L (set_session_lifetime v m)" "good L (set_msg_sequence_number v m)"
    "good L (set_message_hop_count v m)" "good L (set_selection_auctioning_entities v m)"
    "s < 16 \<Longrightarrow> good L (set_information_code s c 0 m)"
  unfolding setter_defs by (rule conjunct1 [OF good_set_unique [OF assms(1) _ _ assms(2)]]; simp add: sendable_new)+

lemma good_complete:
  assumes "good L m" "msg_check m" "msg_type m = msg_type (msg_new_instance m)" "mspec_count m < mspec_limit"
    "\<forall>t \<in> {OT_information_code, OT_selection_auctioning_entities, OT_message_hop_count, OT_msg_sequence_number, OT_session_lifetime}.
       get_object (unique_key t) m \<noteq> None \<longleftrightarrow> t \<in> set (wire_types (msg_class m))"
    "msg_class m = Anslp_refresh \<or> msg_class m = Anslp_notify \<Longrightarrow> mspec_count m = 0"
  shows "complete L m"
proof -
  have wf: "wf_msg m" by (rule goodD(1) [OF assms(1)])
  have "sendable L obj \<and> k \<in> set (wire_keys m)" if mem: "(k, obj) \<in> set (objects m)" for k obj
  proof -
    have reg: "registered_key k" and get: "get_object k m = Some obj"
      using mem wf ie_store_get_member [of "objects m" k obj] by (force simp: get_object_def wf_msg_def wf_store_def registered_store_def)+
    have "k \<in> set (wire_keys m)" using reg
    proof (cases rule: registered_key_cases)
      case (unique t)
      then have "\<exists>ot \<in> {OT_information_code, OT_selection_auctioning_entities, OT_message_hop_count,
          OT_msg_sequence_number, OT_session_lifetime}. k = unique_key ot"
        by (auto simp: unique_types_def unique_key_def)
      then show ?thesis using assms(5) get by (auto simp: wire_keys_def)
    next
      case (mspec n)
      then have "n \<le> getMaxSequence 0xF9 (objects m)"
        using getMaxSequence_bound [of k "objects m" "0xF9"] mem by (force simp: image_iff)
      then have n: "1 \<le> unat n" "unat n \<le> mspec_count m"
        using mspec(1) by (simp_all add: mspec_count_def word_le_nat_alt)
      then have "msg_class m \<noteq> Anslp_refresh \<and> msg_class m \<noteq> Anslp_notify" using assms(6) by auto
      moreover have "k \<in> mspec_key ` {1 ..< Suc (mspec_count m)}"
        using mspec(3) n by (intro image_eqI [where x = "unat n"]) simp_all
      ultimately show ?thesis by (simp add: wire_keys_def ipap_keys_mspec del: upt_Suc)
    qed
    then show ?thesis using mem goodD(3) [OF assms(1)] by force
  qed
  moreover have "get_object k m \<noteq> None" if k: "k \<in> set (wire_keys m)" for k
  proof -
    consider t where "t \<in> set (wire_types (msg_class m))" "k = unique_key t" | i where "1 \<le> i" "i \<le> mspec_count m" "k = mspec_key i"
      using k by (auto simp: wire_keys_def ipap_keys_mspec less_Suc_eq_le simp del: upt_Suc split: if_splits)
    then show ?thesis
    proof cases
      case 1
      moreover have "t \<in> {OT_information_code, OT_selection_auctioning_entities, OT_message_hop_count,
          OT_msg_sequence_number, OT_session_lifetime}"
        using 1(1) by (cases "msg_class m") (auto simp: wire_types_def)
      ultimately show ?thesis using assms(5) by blast
    qed (use goodD(2) [OF assms(1)] in blast)
  qed
  ultimately show ?thesis using wf assms(2-4) by (auto simp: complete_def list_all_iff)
qed

section \<open>Through GIST\<close>

text \<open>
  What GIST delivers at the next node for a message that was handed to it: the payload and the session id are the
  sender's, the routing information, the handle and the final-hop flag are the receiving node's.
\<close>

definition delivered :: "send_msg \<Rightarrow> mri \<Rightarrow> u32 \<Rightarrow> bool \<Rightarrow> api_msg" where
  "delivered s ri sii final = \<lparr>am_subtype = Recv_message, am_sessionid = Some (sm_sessionid s), am_data = Some (sm_data s),
     am_adjacency_check = False, am_mri = Some ri, am_sii_handle = sii, am_final_hop = final, am_msgstatus = Other_error\<rparr>"

lemma session_id_roundtrip [simp]: "create_anslp_session_id (Some (create_ntlp_session_id i)) = Some i"
  by (simp add: create_anslp_session_id_def create_ntlp_session_id_def)

lemma complete_sent:
  assumes "netmsg_laws L R" "ie_laws L" "msg m = Some b" "complete L b" "msg_serialized_size L b < 2 ^ 32"
  shows "\<exists>s. create_api_msg L m = Ok s \<and> sm_data s = msg_bytes L b \<and> sm_sessionid s = create_ntlp_session_id (sid m) \<and>
    sm_mri s = routing_info m"
  using serialize_fresh [OF assms(1,2,4,5)] assms(3) by (auto simp: create_api_msg_def)

lemma complete_received:
  assumes "netmsg_laws L R" "ie_laws L" "complete L b" "msg_serialized_size L b < 2 ^ 32"
  shows "receive_payload L (msg_bytes L b) = Some (Ok (Some b))"
proof -
  have "R (new_filled L (msg_bytes L b)) [] (msg_bytes L b)"
    using netmsg_new(1) [OF assms(1)] assms(4) msg_bytes_length [OF assms(3)] by simp
  from reads_msg [OF assms(1-3) this, of False "[]"] show ?thesis by (auto simp: receive_payload_def)
qed

lemma complete_delivered:
  assumes "netmsg_laws L R" "ie_laws L" "msg m = Some b" "complete L b" "msg_serialized_size L b < 2 ^ 32"
  shows "\<exists>s. create_api_msg L m = Ok s \<and>
    (\<forall>ri sii final. map_to_event L (Some (Api_msg (delivered s ri sii final))) =
       Some (Ok (Some \<lparr>ev_sid = Some (sid m), ev_data = Msg_event (m\<lparr>routing_info := ri, sii_handle := sii\<rparr>) final\<rparr>)))"
proof -
  obtain s where s: "create_api_msg L m = Ok s" "sm_data s = msg_bytes L b" "sm_sessionid s = create_ntlp_session_id (sid m)"
    using complete_sent [OF assms] by blast
  have "\<lparr>sid = sid m, msg = Some b, routing_info = ri, sii_handle = sii\<rparr> = m\<lparr>routing_info := ri, sii_handle := sii\<rparr>" for ri sii
    using assms(3) by simp
  then show ?thesis using s complete_received [OF assms(1,2,4,5)]
    by (auto simp: map_to_event_def map_api_message_def map_api_receive_message_def delivered_def)
qed

section \<open>The responses of the code\<close>

lemma response_objects:
  "objects (set_information_code s c t new_anslp_response) = [(unique_key OT_information_code, new_information_code s c t Tr_mandatory True)]"
  "objects (set_msg_sequence_number n (set_information_code s c t new_anslp_response)) =
     [(unique_key OT_information_code, new_information_code s c t Tr_mandatory True),
      (unique_key OT_msg_sequence_number, new_msg_sequence_number n Tr_mandatory True)]"
  "objects (set_session_lifetime lt (set_msg_sequence_number n (set_information_code s c t new_anslp_response))) =
     [(unique_key OT_information_code, new_information_code s c t Tr_mandatory True),
      (unique_key OT_msg_sequence_number, new_msg_sequence_number n Tr_mandatory True),
      (unique_key OT_session_lifetime, new_session_lifetime lt Tr_mandatory True)]"
  by (simp_all add: setter_defs set_object_def new_anslp_response_def ie_store_set_def ie_object_key_lt_def unique_key_def)

lemma unique_keys_apart [simp]:
  "ie_object_key_lt (unique_key a) (unique_key b) \<longleftrightarrow> ucast a + (1 :: u32) < ucast b + 1"
  by (simp add: ie_object_key_lt_def unique_key_def)

lemma msg_type_setters [simp]:
  "msg_type (set_session_lifetime v m) = msg_type m" "msg_type (set_msg_sequence_number v m) = msg_type m"
  "msg_type (set_selection_auctioning_entities v m) = msg_type m" "msg_type (set_message_hop_count v m) = msg_type m"
  "msg_type (set_information_code s c t m) = msg_type m" "msg_type (set_mspec_object obj m) = msg_type m"
  by (simp_all add: setter_defs set_mspec_object_def)

lemma msg_type_mspec_list [simp]: "msg_type (set_mspec_list l m) = msg_type m"
  by (induction l arbitrary: m) simp_all

lemma success_response_complete:
  assumes "msg m = Some b" "has_msg_sequence_number b" "r = create_success_response P lt m"
  shows "\<exists>c. msg r = Some c \<and> complete L c \<and> msg_serialized_size L c = 28"
proof -
  let ?c = "set_session_lifetime lt (set_msg_sequence_number (get_msg_sequence_number b) (set_information_code 2 1 0 new_anslp_response))"
  have "msg r = Some ?c"
    using assms by (simp add: create_success_response_def create_response_def new_ntlp_msg_def Let_def)
  moreover have "msg_serialized_size L ?c = 28"
    by (simp add: msg_serialized_size_def response_objects object_serialized_size_def HEADER_LENGTH_def)
  moreover have "good L ?c" by (intro good_setters) (simp_all add: mspec_limit_def)
  then have "complete L ?c"
    by (rule good_complete) (simp_all add: msg_check_def response_check_def response_objects msg_new_instance_def unique_key_def
        mspec_limit_def get_object_def ie_store_get_def wire_types_def ie_object_key_lt_def, simp add: OT_defs)
  ultimately show ?thesis by blast
qed

text \<open>
  The responses without a lifetime: the mapper asks the message for the object, does not find it and runs off the
  end of \<open>serialize_object\<close>.
\<close>

lemma lifetimeless_response_stops:
  assumes "netmsg_laws L R" "ie_laws L" "s < 16" "msg r = Some b"
    "b = set_information_code s c 0 new_anslp_response \<or>
     b = set_msg_sequence_number n (set_information_code s c 0 new_anslp_response)"
  shows "create_api_msg L r = Crash Missing_return"
proof -
  let ?one = "set_information_code s c 0 new_anslp_response :: 'b anslp_msg"
  let ?two = "set_msg_sequence_number n ?one"
  have size: "msg_serialized_size L ?one = 12" "msg_serialized_size L ?two = 20"
    by (simp_all add: msg_serialized_size_def response_objects object_serialized_size_def HEADER_LENGTH_def)
  then obtain suf where suf: "length suf = msg_serialized_size L b" "R (new_sized L (msg_serialized_size L b)) [] suf"
    using netmsg_new(2) [OF assms(1), of "msg_serialized_size L b"] assms(5) by auto
  note ev = response_check_def response_objects get_object_def ie_store_get_def object_at_def
  have "\<exists>b'. msg_serialize L Protocol_v1 b (new_sized L (msg_serialized_size L b)) = (Crash Missing_return, b')"
    using assms(5)
  proof (elim disjE)
    assume b: "b = ?one"
    show ?thesis
      by (rule response_missing [OF assms(1,2), where xs = "[]" and k = "unique_key OT_msg_sequence_number"
            and ys = "[unique_key OT_information_code, unique_key OT_session_lifetime] @ ipap_keys b", OF _ _ _ _ _ suf(2)])
        (use suf(1) size in \<open>simp_all add: b wire_keys_def wire_types_def ev objects_bytes_def unique_key_def ie_object_key_lt_def\<close>)
  next
    assume b: "b = ?two"
    let ?xs = "[unique_key OT_msg_sequence_number, unique_key OT_information_code]"
    have at: "object_at b (unique_key OT_msg_sequence_number) = new_msg_sequence_number n Tr_mandatory True"
      "object_at b (unique_key OT_information_code) = new_information_code s c 0 Tr_mandatory True"
      by (simp_all add: b ev)
    have send: "sendable L (new_msg_sequence_number n Tr_mandatory True)" "sendable L (new_information_code s c 0 Tr_mandatory True)"
      using sendable_new assms(3) by blast+
    then have "length (objects_bytes L (map (object_at b) ?xs)) = 16"
      using object_bytes_length [OF send(1)] object_bytes_length [OF send(2)]
      by (simp add: at objects_bytes_def object_serialized_size_def HEADER_LENGTH_def)
    then show ?thesis
      by (intro response_missing [OF assms(1,2), where xs = ?xs and k = "unique_key OT_session_lifetime"
            and ys = "ipap_keys b", OF _ _ _ _ _ suf(2)])
        (use suf(1) size send at in \<open>simp_all add: b wire_keys_def wire_types_def ev unique_key_def ie_object_key_lt_def\<close>)
  qed
  then show ?thesis using assms(4) by (auto simp: create_api_msg_def)
qed

section \<open>The CREATE message\<close>

lemma unique_set_mspec_list:
  assumes "good L m" "\<forall>obj \<in> set l. sendable L obj \<and> is_mspec obj" "mspec_count m + length l \<le> mspec_limit"
    "ucast t \<in> set unique_types"
  shows "get_object (unique_key t) (set_mspec_list l m) = get_object (unique_key t) m"
  using assms(1-3)
proof (induction l arbitrary: m)
  case (Cons obj l)
  have obj: "wf_object obj" "obj_type obj \<noteq> t"
    using Cons.prems(2) assms(4) mspec_type [of obj] by (auto simp: sendable_def unique_types_def)
  have "mspec_room m" using Cons.prems(3) by (simp add: mspec_room_count)
  then have "get_object (unique_key t) (set_mspec_object obj m) = get_object (unique_key t) m"
    using get_object_set_object [OF goodD(1) [OF Cons.prems(1)] obj(1) _ assms(4)] obj(2) by (simp add: set_mspec_object_def)
  then show ?case using Cons good_set_mspec [of L m obj] by simp
qed simp

lemma length_objects:
  "length (objects (set_object obj m)) \<le> Suc (length (objects m))"
  "length (objects (set_mspec_list l m)) \<le> length (objects m) + length l"
proof -
  show one: "length (objects (set_object obj m)) \<le> Suc (length (objects m))" for obj and m :: "'a anslp_msg"
    using length_map_insert_le by (simp add: set_object_storage_key ie_store_set_def)
  show "length (objects (set_mspec_list l m)) \<le> length (objects m) + length l"
  proof (induction l arbitrary: m)
    case (Cons obj l)
    show ?case using Cons.IH [of "set_mspec_object obj m"] one [of obj m] by (simp add: set_mspec_object_def)
  qed simp
qed

lemma sendable_size: "sendable L obj \<Longrightarrow> object_serialized_size L obj \<le> 16384"
  using body_bytes_length(2,3) [of L obj] by (simp add: HEADER_LENGTH_def)

lemma good_size: "good L m \<Longrightarrow> msg_serialized_size L m \<le> 4 + 16384 * length (objects m)"
proof -
  have "\<forall>obj \<in> snd ` set st. sendable L obj \<Longrightarrow>
      fold (\<lambda>(key, obj) size. size + object_serialized_size L obj) st n \<le> n + 16384 * length st" for st :: "'b anslp_object ie_store" and n
  proof (induction st arbitrary: n)
    case (Cons p st)
    obtain k obj where p: "p = (k, obj)" by fastforce
    then show ?case using Cons.IH [of "n + object_serialized_size L obj"] Cons.prems sendable_size [of L obj] by simp
  qed simp
  then show "good L m \<Longrightarrow> ?thesis" using goodD(3) [of L m] by (simp add: msg_serialized_size_def HEADER_LENGTH_def)
qed

text \<open>The limit on the number of objects keeps the size of the message below \<open>2 ^ 32\<close>.\<close>

lemma create_complete:
  assumes "\<forall>obj \<in> set l. sendable L obj \<and> is_mspec obj" "length l < 2 ^ 17"
    and "c = set_mspec_list l (set_message_hop_count h (set_selection_auctioning_entities sme (set_msg_sequence_number n
      (set_session_lifetime lt new_anslp_create))))"
  shows "complete L c \<and> msg_serialized_size L c < 2 ^ 32"
proof -
  let ?base = "set_message_hop_count h (set_selection_auctioning_entities sme (set_msg_sequence_number n
      (set_session_lifetime lt new_anslp_create))) :: 'a anslp_msg"
  have base: "good L ?base" "mspec_count ?base = 0" by (intro good_setters; simp add: mspec_limit_def)+ simp
  have room: "mspec_count ?base + length l \<le> mspec_limit" using base(2) assms(2) by (simp add: mspec_limit_def)
  note g = good_set_mspec_list [OF base(1) assms(1) room, folded assms(3)]
  have objs: "objects ?base = [(unique_key OT_selection_auctioning_entities, new_selection_auctioning_entities sme Tr_mandatory True),
      (unique_key OT_message_hop_count, new_message_hop_count h Tr_mandatory True),
      (unique_key OT_msg_sequence_number, new_msg_sequence_number n Tr_mandatory True),
      (unique_key OT_session_lifetime, new_session_lifetime lt Tr_mandatory True)]"
    by (simp add: setter_defs set_object_def new_anslp_create_def ie_store_set_def ie_object_key_lt_def unique_key_def)
  have "length (objects c) \<le> 4 + length l" using length_objects(2) [of l ?base] objs assms(3) by simp
  then have size: "msg_serialized_size L c < 2 ^ 32" using good_size [OF conjunct1 [OF g]] assms(2) by simp
  have keys: "get_object (unique_key t) c = get_object (unique_key t) ?base" if "ucast t \<in> set unique_types" for t
    unfolding assms(3) using unique_set_mspec_list [OF base(1) assms(1) room that] .
  have types: "get_object (unique_key t) c \<noteq> None \<longleftrightarrow> t \<in> set (wire_types Anslp_create)"
    if "t \<in> {OT_information_code, OT_selection_auctioning_entities, OT_message_hop_count, OT_msg_sequence_number, OT_session_lifetime}" for t
    using that keys [of t] by (auto simp: unique_types_def objs get_object_def ie_store_get_def wire_types_def unique_key_def
        ie_object_key_lt_def)
  have cls: "msg_class c = Anslp_create" "msg_type c = msg_type (msg_new_instance c)"
    using assms(3) by (simp_all add: msg_new_instance_def)
  have "complete L c"
  proof (rule good_complete [OF conjunct1 [OF g]])
    have "has_type t c" if t: "t \<in> set (wire_types Anslp_create)" for t
    proof -
      have "get_object (unique_key t) c \<noteq> None" using types [of t] t by (auto simp: wire_types_def)
      then show ?thesis using get_object_has_type [OF goodD(1) [OF conjunct1 [OF g]] wire_types_facts(2) [OF t]] by blast
    qed
    then show "msg_check c" by (simp add: msg_check_def cls(1) create_check_def wire_types_def)
  qed (use g base(2) assms(2) cls types in \<open>simp_all add: mspec_limit_def\<close>)
  then show ?thesis using size by blast
qed

section \<open>A payload with padding that is not zero\<close>

text \<open>A message whose first object is an mspec object with the body \<open>bs\<close>.\<close>

definition mspec_payload :: "('b, 'm) wire \<Rightarrow> 'm anslp_msg \<Rightarrow> u8 list \<Rightarrow> u8 list" where
  "mspec_payload L m bs = be32 (msg_header m) @ be32 (object_header (new_anslp_ipap_message (ipap_default L)) (length bs)) @ bs"

lemma mspec_object_refused:
  assumes "netmsg_laws L R" "ie_laws L" "length bs mod 4 = 0" "length bs \<le> 16380"
    "ipap_import L bs (ipap_default L) = Some (k, y)" "list_ex (\<lambda>x. x \<noteq> 0) (drop k bs)"
    "R b pre (be32 (object_header (new_anslp_ipap_message (ipap_default L)) (length bs)) @ bs)"
  shows "\<exists>b'. deserialize_object L Protocol_v1 skip (err, b) = (Ok None, err, b')"
proof -
  let ?obj = "new_anslp_ipap_message (ipap_default L)" and ?n = "length bs"
  let ?h = "object_header ?obj ?n"
  have ty: "obj_type ?obj < 0x1000" by (simp add: OT_defs)
  obtain b1 where b1: "decode32 L b = Some (?h, b1)" "R b1 (pre @ be32 ?h) bs"
    using decode32_reads [OF assms(1,7)] by auto
  note head = header_read [OF assms(1) b1 ty assms(3,4) order.refl]
  have "unat (of_nat ?n :: u16) = ?n" using assms(4) by (simp add: unat_of_nat take_bit_nat_eq_self)
  then have copy: "copy_to L (get_pos L b1) (of_nat ?n) b1 = Some bs"
    using netmsg_facts(3,12) [OF assms(1) b1(2)] by simp
  have inst: "object_new_instance L ?obj = new_anslp_ipap_message (ipap_default L)" by (simp add: object_new_instance_def)
  have "deserialize_ipap_body L (of_nat ?n) (ipap_default L) (err, b1) = (Ok None, err, b1)"
    using copy assms(5,6) by (simp add: deserialize_ipap_body_def)
  then have "object_deserialize L skip (object_new_instance L ?obj) (err, b) = (Ok None, err, b1)"
    using assms(2) head by (simp add: object_deserialize_def ie_laws_def supports_coding_def inst deserialize_body_def)
  moreover have "peek32 L b = Some ?h" using netmsg_facts(7) [OF assms(1,7)] by simp
  ultimately show ?thesis
    using registry_object(1) [OF assms(2), of ?obj] object_header_parts(2) [OF ty assms(3,4)]
    by (simp add: deserialize_object_def)
qed

text \<open>The header of a fixed-size object with nothing behind it.\<close>

lemma short_object_throws:
  fixes L :: "('b, 'm) wire" and obj :: "'m anslp_object"
  assumes "netmsg_laws L R" "ie_laws L" "wf_object obj" "unique obj" "R b pre (be32 (object_header obj 0))"
  shows "\<exists>b'. deserialize_object L Protocol_v1 skip (err, b) = (Throw Net_msg_error, err, b')"
proof -
  let ?h = "object_header obj 0"
  have ty: "obj_type obj < 0x1000" using assms(3) by (cases "body obj") (auto simp: wf_object_def OT_defs)
  have R: "R b pre (be32 ?h @ [])" using assms(5) by simp
  obtain b1 where b1: "decode32 L b = Some (?h, b1)" "R b1 (pre @ be32 ?h) []"
    using decode32_reads [OF assms(1) R] by auto
  note head = header_read [OF assms(1) b1 ty, of "object_new_instance L obj" err]
  have "decode32 L b1 = None" using netmsg_facts(5) [OF assms(1) b1(2)] by simp
  moreover have "\<not> is_mspec obj" using assms(3,4) by (simp add: wf_object_def)
  ultimately have "deserialize_body L 0 skip ((object_new_instance L obj)\<lparr>treatment := treatment obj, obj_type := obj_type obj\<rparr>)
      (err, b1) = (Throw Net_msg_error, err, b1)"
    by (cases "body obj") (simp_all add: deserialize_body_def object_new_instance_def decode_value_def is_mspec_def)
  then have "object_deserialize L skip (object_new_instance L obj) (err, b) = (Throw Net_msg_error, err, b1)"
    using assms(2) head by (simp add: object_deserialize_def ie_laws_def supports_coding_def)
  moreover have "peek32 L b = Some ?h" using netmsg_facts(7) [OF assms(1,5)] by simp
  ultimately show ?thesis
    using registry_object(1) [OF assms(2,3)] object_header_parts(2) [OF ty, of 0] by (simp add: deserialize_object_def)
qed

text \<open>The first object decides: what reading it gives is what the mapper gets.\<close>

lemma first_object_fails:
  fixes L :: "('b, 'm) wire" and m :: "'m anslp_msg"
  assumes "netmsg_laws L R" "ie_laws L" "msg_type m = msg_type (msg_new_instance m)" "length bs < 2 ^ 30" "bs \<noteq> []"
    "\<And>b pre. R b pre bs \<Longrightarrow> \<exists>b'. deserialize_object L Protocol_v1 False ([], b) = (r, [], b')"
    "r = Ok None \<or> r = Throw e"
  shows "receive_payload L (be32 (msg_header m) @ bs) = Some (if r = Ok None then Crash Assert_failed else Throw e)"
proof -
  let ?data = "be32 (msg_header m) @ bs" and ?m0 = "msg_new_instance m"
  have R: "R (new_filled L ?data) [] ?data" using netmsg_new(1) [OF assms(1)] assms(4) by simp
  obtain b1 where b1: "decode32 L (new_filled L ?data) = Some (msg_header m, b1)" "R b1 (be32 (msg_header m)) bs"
    using decode32_reads [OF assms(1) R] by auto
  obtain b' where b': "deserialize_object L Protocol_v1 False ([], b1) = (r, [], b')" using assms(6) b1(2) by blast
  have "get_bytes_left L b1 \<noteq> 0" using bytes_left_zero [OF assms(1) b1(2)] assms(5) by simp
  then have "deserialize_objects L Protocol_v1 False (?m0\<lparr>msg_type := msg_type m\<rparr>) ([], b1) =
      Some (if r = Ok None then Ok None else Throw e, [], b')"
    using b' assms(7) by (subst deserialize_objects.simps) auto
  then have "msg_deserialize L Protocol_v1 False ?m0 ([], new_filled L ?data) =
      Some (if r = Ok None then Ok None else Throw e, [], b')"
    using b1(1) by (auto simp: msg_deserialize_def extract_msg_header)
  moreover have "peek32 L (new_filled L ?data) = Some (msg_header m)" using netmsg_facts(7) [OF assms(1) R] by simp
  ultimately show ?thesis using registry_msg [OF assms(2,3)]
    by (auto simp: receive_payload_def manager_deserialize_def deserialize_msg_def extract_msg_header)
qed

section \<open>Properties\<close>

text \<open>
  C4: a complete message handed to GIST is the event that the next node maps: the session, the message and all its objects
  are the sender's; only the routing information, the handle and the final-hop flag are those of GIST there.
\<close>

theorem message_delivered:
  assumes "netmsg_laws L R" "ie_laws L" "msg m = Some b" "complete L b" "msg_serialized_size L b < 2 ^ 32"
  shows "\<exists>s. create_api_msg L m = Ok s \<and>
    map_to_event L (Some (Api_msg (delivered s ri sii final))) =
      Some (Ok (Some \<lparr>ev_sid = Some (sid m), ev_data = Msg_event (m\<lparr>routing_info := ri, sii_handle := sii\<rparr>) final\<rparr>))"
  using complete_delivered [OF assms] by blast

text \<open>
  C22: a response that \<open>create_response\<close> makes, which is what \<open>create_error_response\<close> and the answer to an
  unreadable message are, does not reach GIST: it has no session lifetime, and writing it runs off the
  end of \<open>serialize_object\<close>, whatever the request was.
\<close>

theorem error_response_not_sent:
  assumes "netmsg_laws L R" "ie_laws L" "sev < 16"
  shows "create_api_msg L (create_response P sev code m) = Crash Missing_return"
proof -
  define b where "b = the (msg (create_response P sev code m))"
  define n where "n = get_msg_sequence_number (the (msg m))"
  let ?one = "set_information_code sev code 0 new_anslp_response"
  have "msg (create_response P sev code m) = Some b \<and> (b = ?one \<or> b = set_msg_sequence_number n ?one)"
    by (cases "msg m") (simp_all add: b_def n_def create_response_def new_ntlp_msg_def Let_def)
  then show ?thesis using lifetimeless_response_stops [OF assms] by blast
qed

text \<open>
  A message whose first mspec object is padded with anything but zeros is refused without an error being
  recorded, and the assertion of the mapper that there is one stops the node.
\<close>

theorem padding_stops_node:
  assumes "netmsg_laws L R" "ie_laws L" "length bs mod 4 = 0" "length bs \<le> 16380" "msg_type m = msg_type (msg_new_instance m)"
    "ipap_import L bs (ipap_default L) = Some (k, y)" "list_ex (\<lambda>x. x \<noteq> 0) (drop k bs)"
  shows "receive_payload L (mspec_payload L m bs) = Some (Crash Assert_failed)"
  unfolding mspec_payload_def
proof (subst first_object_fails [OF assms(1,2,5), where r = "Ok None"])
  fix b pre assume "R b pre (be32 (object_header (new_anslp_ipap_message (ipap_default L)) (length bs)) @ bs)"
  then show "\<exists>b'. deserialize_object L Protocol_v1 False ([], b) = (Ok None, [], b')"
    using mspec_object_refused [OF assms(1-4,6,7)] by blast
qed (use assms(4) in \<open>simp_all add: be32_def\<close>)

text \<open>
  A message that ends after the header of an object of fixed size makes the reader throw \<open>NetMsgError\<close>, which
  nothing above it catches: the exception leaves the mapper.
\<close>

theorem short_object_escapes:
  fixes L :: "('b, 'm) wire" and m :: "'m anslp_msg" and obj :: "'m anslp_object"
  assumes "netmsg_laws L R" "ie_laws L" "wf_object obj" "unique obj" "msg_type m = msg_type (msg_new_instance m)"
  shows "receive_payload L (be32 (msg_header m) @ be32 (object_header obj 0)) = Some (Throw Net_msg_error)"
proof (subst first_object_fails [OF assms(1,2,5), where r = "Throw Net_msg_error"])
  fix b pre assume "R b pre (be32 (object_header obj 0))"
  then show "\<exists>b'. deserialize_object L Protocol_v1 False ([], b) = (Throw Net_msg_error, [], b')"
    using short_object_throws [OF assms(1-4)] by blast
qed (simp_all add: be32_def)

end
