(* ===== verification/Session.thy ===== *)
theory Session
  imports Events
begin

text \<open>
  The base class \<open>session\<close> (\<open>src/src/session.cpp\<close>): the fields shared by the three kinds of
  session and the utilities they call. The lock is not modelled: a session processes one event at a time.
\<close>

datatype session_type_t = St_initiator | St_forwarder | St_receiver

record 'm session =
  rule :: "'m auction_rule option"
  sess_id :: session_id
  session_type :: session_type_t
  msn :: u32
  msg_hop_count :: u32

definition next_msg_sequence_number :: "u32 \<Rightarrow> u32" where
  "next_msg_sequence_number n = n + 1"

definition check_lifetime :: "u32 \<Rightarrow> u32 \<Rightarrow> (exn, unit) outcome" where
  "check_lifetime lifetime max_lifetime =
     (if lifetime > max_lifetime then Throw (Override_lifetime 1 2) else Ok ())"

definition check_authorization :: "'m ntlp_msg \<Rightarrow> (exn, unit) outcome" where
  "check_authorization e = (if \<not> is_authorized e then Throw (Request_error 5 1) else Ok ())"

definition check_participating :: "session_type_t \<Rightarrow> u32 \<Rightarrow> bool" where
  "check_participating t sme = (case t of
       St_initiator \<Rightarrow>
         if sme = sme_all then True
         else if sme = sme_any then True
         else if sme = sme_first then True
         else if sme = sme_first_last then True
         else False
     | St_forwarder \<Rightarrow>
         if sme = sme_all then True
         else if sme = sme_any then True
         else False
     | St_receiver \<Rightarrow>
         if sme = sme_all then True
         else if sme = sme_any then True
         else if sme = sme_first_last then True
         else if sme = sme_last then True
         else False)"

text \<open>\<open>get_nr_address\<close>: the address, protocol and port of the receiver.\<close>

definition get_nr_address :: "'m ntlp_msg \<Rightarrow> (exn, hostaddress \<times> u8 \<times> u16) outcome" where
  "get_nr_address e = (case as_pathcoupled (routing_info e) of
       Some p \<Rightarrow> Ok (destaddress p, protocol p, destport p)
     | None \<Rightarrow> Throw (Request_error 0 0))"

text \<open>\<open>set_reponse_objects\<close>: the installed objects become responses of the rule, each under a new key.\<close>

definition set_reponse_objects :: "'m platform \<Rightarrow> 'm object_list \<Rightarrow> 'm auction_rule \<times> 'm world
    \<Rightarrow> 'm auction_rule \<times> 'm world" where
  "set_reponse_objects P installed rw =
     fold (\<lambda>(key, obj). set_response_object P (object_copy obj)) installed rw"

text \<open>
  The three \<open>create_auction_rule\<close> functions of the session classes share this loop: every mspec object
  becomes a request under a new key.
\<close>

definition add_requests :: "'m platform \<Rightarrow> 'm anslp_object list \<Rightarrow> 'm auction_rule \<times> 'm world
    \<Rightarrow> 'm auction_rule \<times> 'm world" where
  "add_requests P objs rw = fold (\<lambda>obj. set_request_object P (object_copy obj)) objs rw"

section \<open>Steps shared by the session classes\<close>

text \<open>
  A handler works on the session and the world. \<open>service\<close> calls a service of the
  dispatcher, which changes only the world.
\<close>

definition service :: "('m world \<Rightarrow> (exn, 'a) outcome \<times> 'm world) \<Rightarrow> 's \<times> 'm world
    \<Rightarrow> (exn, 'a) outcome \<times> 's \<times> 'm world" where
  "service f = (\<lambda>(s, w). let (r, w) = f w in (r, s, w))"

definition send :: "'m ntlp_msg \<Rightarrow> 's \<times> 'm world \<Rightarrow> 's \<times> 'm world" where
  "send m = (\<lambda>(s, w). (s, send_message m w))"

definition report :: "string \<Rightarrow> 's \<times> 'm world \<Rightarrow> 's \<times> 'm world" where
  "report t = (\<lambda>(s, w). (s, report_async_event t w))"

text \<open>\<open>create_auction_rule\<close>, the same function in the three session classes.\<close>

definition create_auction_rule :: "'m dispatcher \<Rightarrow> 'm anslp_msg \<Rightarrow> 's \<times> 'm world
    \<Rightarrow> (exn, 'm auction_rule) outcome \<times> 's \<times> 'm world" where
  "create_auction_rule d bidding = (\<lambda>(s, w).
     deref (get_mspec_objects bidding) Null_deref (s, w) (\<lambda>objs.
       let (to_post, w) = add_requests (plat d) objs (new_auction_rule, w)
       in (Ok to_post, s, w)))"

text \<open>
  The precondition checks at the start of the CREATE and REFRESH handlers: a too long lifetime is cut
  to the maximum (and the authorization check is skipped then), a refused request is an error.
\<close>

definition check_preconditions :: "u32 \<Rightarrow> u32 \<Rightarrow> 'm ntlp_msg \<Rightarrow> (exn, u32) outcome" where
  "check_preconditions lifetime max_lifetime m =
     (case check_lifetime lifetime max_lifetime of
        Ok _ \<Rightarrow> (case check_authorization m of
            Ok _ \<Rightarrow> Ok lifetime | Throw e \<Rightarrow> Throw e | Crash f \<Rightarrow> Crash f)
      | Throw e \<Rightarrow> (case e of Override_lifetime _ _ \<Rightarrow> Ok max_lifetime | _ \<Rightarrow> Throw e)
      | Crash f \<Rightarrow> Crash f)"

text \<open>
  \<open>nf_session::set_auction_rule\<close> and \<open>nr_session::save_auction_rule\<close>: the objects of the CREATE
  become the requests of the session's rule; when this kind of node takes part, the auctioning application
  is asked to check them. The result is the list of objects and whether a check is under way.
\<close>

definition save_auction_rule :: "'m dispatcher \<Rightarrow> 'm anslp_msg \<Rightarrow> ('m, 'z) session_scheme \<times> 'm world
    \<Rightarrow> (exn, 'm anslp_object list \<times> bool) outcome \<times> ('m, 'z) session_scheme \<times> 'm world" where
  "save_auction_rule d create = (\<lambda>(s, w).
     deref (get_mspec_objects create) Null_deref (s, w) (\<lambda>missing.
     deref (rule s) Null_deref (s, w) (\<lambda>r.
       let r = (if get_number_mspec_request_objects r > 0 then r\<lparr>object_requests := []\<rparr> else r);
           (r, w) = add_requests (plat d) missing (r, w);
           s = s\<lparr>rule := Some r\<rparr>
       in if check_participating (session_type s) (get_selection_auctioning_entities create)
          then call (service (dispatcher_check d (session_id_to_string (sess_id s)) (object_requests r)) (s, w))
                 (\<lambda>b sw. (Ok (missing, b), sw))
          else (Ok (missing, False), s, w))))"

text \<open>
  The loop that drops from the rule the objects that are missing in a check reply
  (\<open>nf_session.cpp\<close> 681 to 692, \<open>nr_session.cpp\<close> 489 to 500). It runs a reverse iterator over the
  map and erases through the key. A reverse iterator with \<open>i\<close> elements before its base refers to element
  \<open>i - 1\<close>; erasing that element leaves \<open>i - 1\<close> elements before the base, so that the increment skips
  the next element, and leaves the map when there is none.
\<close>

fun prune_requests :: "'m platform \<Rightarrow> 'm object_list \<Rightarrow> nat \<Rightarrow> 'm object_list \<Rightarrow> 'm object_list option" where
  "prune_requests P checked 0 l = Some l"
| "prune_requests P checked (Suc i) l =
     (let key = fst (l ! i)
      in if map_find (mspec_rule_key_lt P) key checked = None
         then (case i of 0 \<Rightarrow> None
               | Suc j \<Rightarrow> prune_requests P checked j (map_erase (mspec_rule_key_lt P) key l))
         else prune_requests P checked i l)"

definition prune_rule :: "'m dispatcher \<Rightarrow> 'm object_list \<Rightarrow> ('m, 'z) session_scheme \<times> 'm world
    \<Rightarrow> (exn, 'm auction_rule) outcome \<times> ('m, 'z) session_scheme \<times> 'm world" where
  "prune_rule d checked = (\<lambda>(s, w).
     deref (rule s) Null_deref (s, w) (\<lambda>r.
     deref (prune_requests (plat d) checked (length (object_requests r)) (object_requests r))
       Iterator_past_begin (s, w) (\<lambda>l.
         let r = r\<lparr>object_requests := l\<rparr> in (Ok r, s\<lparr>rule := Some r\<rparr>, w))))"

section \<open>Lemmas\<close>

lemma set_reponse_objects_world:
  "trace (snd (set_reponse_objects P l q)) = trace (snd q)"
  "timers_made (snd (set_reponse_objects P l q)) = timers_made (snd q)"
  "object_requests (fst (set_reponse_objects P l q)) = object_requests (fst q)"
  unfolding set_reponse_objects_def
  by (induction l arbitrary: q)
    (auto simp: set_response_object_def new_mspec_rule_key_def split_beta Let_def)

lemma add_requests_world:
  "trace (snd (add_requests P l q)) = trace (snd q)"
  "timers_made (snd (add_requests P l q)) = timers_made (snd q)"
  "object_responses (fst (add_requests P l q)) = object_responses (fst q)"
  "shutdownflag (snd (add_requests P l q)) = shutdownflag (snd q)"
  unfolding add_requests_def
  by (induction l arbitrary: q)
    (auto simp: set_request_object_def new_mspec_rule_key_def split_beta Let_def)

text \<open>What a service of the dispatcher leaves alone, and its rule for postconditions.\<close>

definition same_actions :: "'m world \<Rightarrow> 'm world \<Rightarrow> bool" where
  "same_actions w w' = (trace w' = trace w \<and> timers_made w' = timers_made w)"

lemma same_actions_refl [simp]: "same_actions w w"
  by (simp add: same_actions_def)

lemma same_actions_sent: "same_actions w w' \<Longrightarrow> sent w' = sent w"
  by (simp add: same_actions_def sent_def)

lemma post_service:
  assumes "installer_service f" "\<And>a w'. same_actions w w' \<Longrightarrow> Q a (s, w')"
    "\<And>w'. same_actions w w' \<Longrightarrow> E wrong_conf_message (s, w')"
  shows "post Q E F (service f (s, w))"
  using assms(2,3)
  by (cases rule: installer_service.svc_cases [OF assms(1), of w]) (simp_all add: service_def same_actions_def)

lemmas post_services [wp_intro] =
  post_service [OF check_svc.installer_service_axioms]
  post_service [OF install_svc.installer_service_axioms]
  post_service [OF response_svc.installer_service_axioms]
  post_service [OF remove_svc.installer_service_axioms]
  post_service [OF interaction_svc.installer_service_axioms]

text \<open>The operations that cannot fail, as equations on pairs.\<close>

lemma plain_steps [simp]:
  "send m (s, w) = (s, emit (Send_message m) w)" "report t (s, w) = (s, emit (Report_async_event t) w)"
  by (simp_all add: send_def report_def send_message_def report_async_event_def)

text \<open>Starting a timer, as far as the world is concerned.\<close>

definition started :: "'m dispatcher \<Rightarrow> session_id \<Rightarrow> u32 \<Rightarrow> 'm world \<Rightarrow> 'm world" where
  "started d i seconds w = emit (Start_timer i (timer_msg_id (plat d) (timers_made w)) (sint seconds))
     (w\<lparr>timers_made := Suc (timers_made w)\<rparr>)"

lemma timer_start_started:
  "timer_start (plat d) i (sint seconds) w = (timer_msg_id (plat d) (timers_made w), started d i seconds w)"
  by (simp add: timer_start_def dispatcher_start_timer_def started_def Let_def)

lemma sent_started [simp]: "sent (started d i seconds w) = sent w"
  by (simp add: started_def)

lemma started_world [simp]:
  "shutdownflag (started d i n w) = shutdownflag w" "install_queue (started d i n w) = install_queue w"
  "uuids_made (started d i n w) = uuids_made w"
  by (simp_all add: started_def)

lemma post_create_auction_rule [wp]:
  "post Q E F (create_auction_rule d b (s, w)) \<longleftrightarrow>
     (get_mspec_objects b = None \<longrightarrow> F Null_deref (s, w)) \<and>
     (\<forall>objs. get_mspec_objects b = Some objs \<longrightarrow>
        Q (fst (add_requests (plat d) objs (new_auction_rule, w)))
          (s, snd (add_requests (plat d) objs (new_auction_rule, w))))"
  by (simp add: create_auction_rule_def wp Let_def split_beta)

lemma add_requests_same: "same_actions w (snd (add_requests P l (r, w)))"
  by (simp add: same_actions_def add_requests_world)

lemma sent_of_kept [simp]:
  "sent (snd (add_requests P l rw)) = sent (snd rw)" "sent (snd (set_reponse_objects P objs rw)) = sent (snd rw)"
  by (simp_all add: sent_def add_requests_world set_reponse_objects_world)

lemma set_reponse_objects_same: "same_actions w (snd (set_reponse_objects P l (r, w)))"
  by (simp add: same_actions_def set_reponse_objects_world)

text \<open>
  Every request is authorized, so that the precondition checks only cut the lifetime to the maximum.
\<close>

lemma check_authorization_ok [simp]: "check_authorization m = Ok ()"
  by (simp add: check_authorization_def is_authorized_def)

lemma check_preconditions_min [simp]: "check_preconditions lt mx m = Ok (min lt mx)"
  by (auto simp: check_preconditions_def check_lifetime_def min_def)

lemma post_prune_rule [wp]:
  "post Q E F (prune_rule d checked (s, w)) \<longleftrightarrow>
     (rule s = None \<longrightarrow> F Null_deref (s, w)) \<and>
     (\<forall>r. rule s = Some r \<longrightarrow>
        (let l = prune_requests (plat d) checked (length (object_requests r)) (object_requests r)
         in (l = None \<longrightarrow> F Iterator_past_begin (s, w)) \<and>
            (\<forall>l'. l = Some l' \<longrightarrow> Q (r\<lparr>object_requests := l'\<rparr>) (s\<lparr>rule := Some (r\<lparr>object_requests := l'\<rparr>)\<rparr>, w))))"
  by (simp add: prune_rule_def wp Let_def)

text \<open>The rule that the objects of a CREATE give.\<close>

definition rule_of_create :: "'m dispatcher \<Rightarrow> 'm anslp_object list \<Rightarrow> 'm auction_rule \<Rightarrow> 'm world \<Rightarrow> 'm auction_rule \<times> 'm world" where
  "rule_of_create d missing r w = add_requests (plat d) missing (r\<lparr>object_requests := []\<rparr>, w)"

lemma save_auction_rule_eq:
  "save_auction_rule d c (s, w) =
     deref (get_mspec_objects c) Null_deref (s, w) (\<lambda>missing.
     deref (rule s) Null_deref (s, w) (\<lambda>r.
       let (r', w') = rule_of_create d missing r w; s' = s\<lparr>rule := Some r'\<rparr>
       in if check_participating (session_type s) (get_selection_auctioning_entities c)
          then call (service (dispatcher_check d (session_id_to_string (sess_id s)) (object_requests r')) (s', w'))
                 (\<lambda>b sw. (Ok (missing, b), sw))
          else (Ok (missing, False), s', w')))"
proof -
  have clear: "(if object_requests r \<noteq> [] then r\<lparr>object_requests := []\<rparr> else r) = r\<lparr>object_requests := []\<rparr>"
    for r :: "'a auction_rule" by (cases r) simp
  show ?thesis
    unfolding save_auction_rule_def rule_of_create_def get_number_mspec_request_objects_def
    by (simp add: Let_def clear cong: if_cong)
qed

lemma post_save_auction_rule [wp_intro]:
  assumes "get_mspec_objects c = None \<Longrightarrow> F Null_deref (s, w)" "rule s = None \<Longrightarrow> F Null_deref (s, w)"
    "\<And>missing r b w'. get_mspec_objects c = Some missing \<Longrightarrow> sent w' = sent w \<Longrightarrow> timers_made w' = timers_made w \<Longrightarrow>
       (b \<Longrightarrow> check_participating (session_type s) (get_selection_auctioning_entities c)) \<Longrightarrow>
       Q (missing, b) (s\<lparr>rule := Some r\<rparr>, w')"
    "\<And>r w'. sent w' = sent w \<Longrightarrow> timers_made w' = timers_made w \<Longrightarrow> E wrong_conf_message (s\<lparr>rule := Some r\<rparr>, w')"
  shows "post Q E F (save_auction_rule d c (s, w))"
proof -
  have world: "trace (snd (rule_of_create d missing r w)) = trace w"
    "timers_made (snd (rule_of_create d missing r w)) = timers_made w" for missing and r :: "'a auction_rule"
    by (simp_all add: rule_of_create_def add_requests_world)
  show ?thesis
  proof (cases "get_mspec_objects c"; cases "rule s")
    fix missing r assume some: "get_mspec_objects c = Some missing" "rule s = Some r"
    show ?thesis
    proof (cases "check_participating (session_type s) (get_selection_auctioning_entities c)")
      case True
      show ?thesis unfolding save_auction_rule_eq
        using some True
        by (simp add: wp Let_def split_beta, intro wp_intro)
          (auto intro!: assms(3,4) simp: same_actions_def world sent_def)
    next
      case False
      then show ?thesis unfolding save_auction_rule_eq
        using some by (auto simp: wp Let_def split_beta world sent_def intro!: assms(3))
    qed
  qed (use assms(1,2) in \<open>simp_all add: save_auction_rule_eq\<close>)
qed

lemma fold_pairs: "fold (\<lambda>(k, v). f (g v)) l = fold f (map (g \<circ> snd) l)"
  by (induction l) (auto simp: split_beta)

lemma rule_of_create_requests:
  assumes "uuid_ok (plat d)" "\<forall>obj \<in> set objs. wf_object obj"
  shows "image_mset snd (mset (object_requests (fst (rule_of_create d objs r w)))) = mset objs"
proof -
  have "map object_copy objs = objs" using assms(2) by (simp add: map_idI wf_copy)
  moreover have "fold (\<lambda>obj. set_request_object (plat d) (object_copy obj)) objs =
      fold (set_request_object (plat d)) (map object_copy objs)" by (simp add: fold_map comp_def)
  ultimately show ?thesis
    using set_objects_generated [OF assms(1), of w "r\<lparr>object_requests := []\<rparr>" objs]
    by (simp add: rule_of_create_def add_requests_def)
qed

lemma set_reponse_objects_responses:
  assumes "uuid_ok P" "keys_made P (uuids_made w) (object_responses r)" "\<forall>obj \<in> snd ` set objs. wf_object obj"
  shows "image_mset snd (mset (object_responses (fst (set_reponse_objects P objs (r, w))))) =
    image_mset snd (mset (object_responses r)) + mset (map snd objs)"
proof -
  have copies: "map (object_copy \<circ> snd) objs = map snd objs" using assms(3) by (simp add: wf_copy)
  show ?thesis
    unfolding set_reponse_objects_def fold_pairs [where f = "set_response_object P"] copies
    using set_responses_generated [OF assms(1,2), of "map snd objs"] by simp
qed

text \<open>The responses of a rule without earlier ones are the installed objects, in some order.\<close>

lemma installed_responses:
  assumes "uuid_ok P" "wf_object_list P objs" "object_responses r = []"
    and "set_reponse_objects P objs (r, w) = (r', w')"
  shows "mset (map snd (object_responses r')) = mset (map snd objs)"
    "length (object_responses r') = length objs" "sent w' = sent w"
    "\<forall>obj \<in> set (map snd (object_responses r')). wf_object obj \<and> is_mspec obj"
    "map (object_copy \<circ> snd) (object_responses r') = map snd (object_responses r')"
proof -
  have wf: "\<forall>obj \<in> snd ` set objs. wf_object obj \<and> is_mspec obj" using assms(2) by (simp add: wf_object_list_def)
  then show ms: "mset (map snd (object_responses r')) = mset (map snd objs)"
    using set_reponse_objects_responses [OF assms(1), of w r objs] assms(3,4) by simp
  show "length (object_responses r') = length objs" using arg_cong [OF ms, of size] by simp
  show "sent w' = sent w" using arg_cong [OF assms(4), of "\<lambda>q. sent (snd q)"] by simp
  have "set (map snd (object_responses r')) = snd ` set objs" using arg_cong [OF ms, of set_mset] by simp
  with wf show new: "\<forall>obj \<in> set (map snd (object_responses r')). wf_object obj \<and> is_mspec obj" by simp
  then show "map (object_copy \<circ> snd) (object_responses r') = map snd (object_responses r')" by (simp add: wf_copy)
qed

section \<open>The contract of a session class\<close>

text \<open>
  What the dispatcher relies on in a session: processing an event keeps the session's invariant when it
  returns, and its id in any case. \<open>run_events\<close> processes events one after the other.
\<close>

fun run_events :: "('m event \<Rightarrow> 's \<times> 'm world \<Rightarrow> (exn, unit) outcome \<times> 's \<times> 'm world) \<Rightarrow> 'm event list
    \<Rightarrow> 's \<times> 'm world \<Rightarrow> (exn, unit) outcome \<times> 's \<times> 'm world" where
  "run_events proc [] sw = (Ok (), sw)"
| "run_events proc (evt # evts) sw = call (proc evt sw) (\<lambda>_. run_events proc evts)"

locale session_machine =
  fixes proc :: "'m event \<Rightarrow> 's \<times> 'm world \<Rightarrow> (exn, unit) outcome \<times> 's \<times> 'm world"
    and ident :: "'s \<Rightarrow> session_id"
    and inv :: "'s \<Rightarrow> bool"
  assumes proc_keeps: "inv s \<Longrightarrow> post (\<lambda>_ sw. inv (fst sw) \<and> ident (fst sw) = ident s)
    (\<lambda>_ sw. ident (fst sw) = ident s) (\<lambda>_ sw. ident (fst sw) = ident s) (proc evt (s, w))"
begin

lemma proc_ident: "inv s \<Longrightarrow> proc evt (s, w) = (r, s', w') \<Longrightarrow> ident s' = ident s"
  using proc_keeps [of s evt w] by (cases r) auto

lemma proc_inv: "inv s \<Longrightarrow> proc evt (s, w) = (Ok u, s', w') \<Longrightarrow> inv s'"
  using proc_keeps [of s evt w] by auto

lemma run_keeps:
  "inv s \<Longrightarrow> post (\<lambda>_ sw. inv (fst sw) \<and> ident (fst sw) = ident s)
    (\<lambda>_ sw. ident (fst sw) = ident s) (\<lambda>_ sw. ident (fst sw) = ident s) (run_events proc evts (s, w))"
proof (induction evts arbitrary: s w)
  case (Cons evt evts)
  show ?case
  proof (cases "proc evt (s, w)" rule: call_cases)
    case (ok u sw)
    obtain s' w' where sw: "sw = (s', w')" by fastforce
    have "inv s'" "ident s' = ident s" using proc_keeps [OF Cons.prems, of evt w] ok sw by simp_all
    then show ?thesis using Cons.IH [of s' w'] ok sw by simp
  qed (use proc_keeps [OF Cons.prems, of evt w] in simp_all)
qed simp

end

section \<open>The pruning loop\<close>

lemma prune_none_missing:
  "\<forall>k \<in> fst ` set l. map_find (mspec_rule_key_lt P) k checked \<noteq> None \<Longrightarrow> i \<le> length l \<Longrightarrow>
   prune_requests P checked i l = Some l"
proof (induction i)
  case (Suc i)
  then have "fst (l ! i) \<in> fst ` set l" by simp
  then have "map_find (mspec_rule_key_lt P) (fst (l ! i)) checked \<noteq> None" using Suc.prems(1) by blast
  then show ?case using Suc.IH [OF Suc.prems(1)] Suc.prems(2) by (auto simp: Let_def)
qed simp

lemma prune_all_missing:
  assumes "weak_order (mspec_rule_key_lt P)"
  shows "map_ordered (mspec_rule_key_lt P) l \<Longrightarrow> i \<le> length l \<Longrightarrow>
     (if even i then \<exists>l'. prune_requests P [] i l = Some l' \<and> length l' = length l - i div 2
      else prune_requests P [] i l = None)"
proof (induction i arbitrary: l rule: less_induct)
  case (less i)
  consider "i = 0" | "i = 1" | j where "i = Suc (Suc j)" by (metis One_nat_def not0_implies_Suc)
  then show ?case
  proof cases
    case 3
    let ?l = "map_erase (mspec_rule_key_lt P) (fst (l ! Suc j)) l"
    have "map_ordered (mspec_rule_key_lt P) ?l"
      using weak_order.ordered_erase [OF assms less.prems(1)] by simp
    moreover have len: "length ?l = length l - 1"
      using weak_order.erase_nth [OF assms less.prems(1), of "Suc j"] less.prems(2) 3 by simp
    moreover have "j \<le> length ?l" using len less.prems(2) 3 by simp
    moreover have "prune_requests P [] i l = prune_requests P [] j ?l" using 3 by (simp add: Let_def)
    ultimately show ?thesis using less.IH [of j ?l] 3 by auto
  qed simp_all
qed

text \<open>
  C40: the loop that drops the objects missing in a check reply leaves the rule as it is when the reply has all
  of them. When the reply has none of them it does not empty the rule: with an even number of objects
  half of them stay, with an odd number the iterator leaves the map.
\<close>

theorem prune_requests_behaviour:
  assumes "weak_order (mspec_rule_key_lt P)" "map_ordered (mspec_rule_key_lt P) l"
  shows "((\<forall>k \<in> fst ` set l. map_find (mspec_rule_key_lt P) k checked \<noteq> None) \<longrightarrow>
      prune_requests P checked (length l) l = Some l) \<and>
    (if even (length l) then \<exists>l'. prune_requests P [] (length l) l = Some l' \<and> length l' = length l div 2
     else prune_requests P [] (length l) l = None)"
proof -
  have "length l - length l div 2 = length l div 2" if "even (length l)"
    using that by (elim evenE) simp
  then show ?thesis
    using prune_none_missing [of l P checked "length l"] prune_all_missing [OF assms, of "length l"]
    by (auto split: if_splits)
qed

text \<open>
  C37: \<open>is_greater_than\<close> is the serial number order of RFC 1982: a sequence number is
  greater than another exactly when their wrapped difference, read as a signed number, is positive. It is
  never symmetric, and the next sequence number of a session is greater than the current one, also
  across the wrap-around.
\<close>

theorem msn_serial_order:
  "(is_greater_than s1 s2 \<longleftrightarrow> 0 < sint (s1 - s2)) \<and>
   \<not> (is_greater_than s1 s2 \<and> is_greater_than s2 s1) \<and>
   is_greater_than (next_msg_sequence_number s1) s1"
proof (intro conjI)
  show "is_greater_than s1 s2 \<longleftrightarrow> 0 < sint (s1 - s2)" by (rule is_greater_than_sint)
  show "\<not> (is_greater_than s1 s2 \<and> is_greater_than s2 s1)"
    by (auto simp: is_greater_than_def)
  have "next_msg_sequence_number s1 - s1 = 1" by (simp add: next_msg_sequence_number_def)
  then show "is_greater_than (next_msg_sequence_number s1) s1"
    unfolding is_greater_than_sint by (simp add: sint_pos_iff)
qed

end
