(* ===== verification/Example_Node.thy ===== *)
theory Example_Node
  imports Session
begin

text \<open>
  A small concrete node for examples: an instance of the external functions that has the properties the
  theorems ask for, a dispatcher with the default configuration, an empty world and a few events.
  The mspec messages of the examples are numbers.
\<close>

definition ex_plat :: "nat platform" where
  "ex_plat = \<lparr>uuid_compare = (\<lambda>a b. int (length a) - int (length b)), uuid_generate = (\<lambda>n. replicate n 0),
     random_id = (\<lambda>n. \<lparr>w1 = of_nat n, w2 = 0, w3 = 0, w4 = 1\<rparr>), random_u32 = of_nat, uninitialised = 7,
     jitter = (\<lambda>n r. r), timer_msg_id = Suc,
     invert_pathcoupled = (\<lambda>p. p\<lparr>sourceaddress := destaddress p, destaddress := sourceaddress p,
        downstream := \<not> downstream p\<rparr>),
     invert_other = (\<lambda>n. n), enqueue_element = (\<lambda>q e. Some (q @ [e]))\<rparr>"

definition ex_node :: "installer_kind \<Rightarrow> nat dispatcher" where
  "ex_node k = \<lparr>plat = ex_plat, rule_installer = k, conf = default_config\<rparr>"

abbreviation ex_disp :: "nat dispatcher" where
  "ex_disp \<equiv> ex_node Netauct_rule_installer"

definition ex_world :: "nat world" where
  "ex_world = \<lparr>trace = [], install_queue = [], shutdownflag = False, timers_made = 0, uuids_made = 0,
     randoms_made = 0\<rparr>"

definition ex_id :: session_id where
  "ex_id = \<lparr>w1 = 1, w2 = 2, w3 = 3, w4 = 4\<rparr>"

text \<open>A request of the application with one mspec object.\<close>

definition ex_request :: "u32 \<Rightarrow> nat api_create_event" where
  "ex_request lt = \<lparr>ac_session_id = ''app'', ac_source_addr = ''10.0.0.1'', ac_dest_addr = ''10.0.0.9'',
     ac_source_port = 4000, ac_dest_port = 80, ac_protocol = 6, ac_session_lifetime = lt,
     ac_sel_auct_entities = sme_first, ac_mspec_objects = [([], new_anslp_ipap_message 5)],
     ac_return_queue = True\<rparr>"

definition ex_api_create :: "u32 \<Rightarrow> nat event" where
  "ex_api_create lt = \<lparr>ev_sid = None, ev_data = Api_create_event (ex_request lt)\<rparr>"

definition ex_mri :: mri_pathcoupled where
  "ex_mri = \<lparr>sourceaddress = ''10.0.0.1'', sourceprefix = 32, sourceport = 4000, destaddress = ''10.0.0.9'',
     destprefix = 32, destport = 80, protocol = 6, flowlabel = 0, ds_field = 0, spi = 0, downstream = True\<rparr>"

text \<open>A CREATE and a REFRESH as they arrive from the network, and an event that carries a message.\<close>

definition ex_create :: "u32 \<Rightarrow> u32 \<Rightarrow> u32 \<Rightarrow> nat anslp_msg" where
  "ex_create lt n sme = set_mspec_object (new_anslp_ipap_message 5) (set_message_hop_count 20
     (set_selection_auctioning_entities sme (set_msg_sequence_number n (set_session_lifetime lt new_anslp_create))))"

definition ex_refresh :: "u32 \<Rightarrow> u32 \<Rightarrow> nat anslp_msg" where
  "ex_refresh lt n = set_msg_sequence_number n (set_session_lifetime lt new_anslp_refresh)"

definition ex_msg :: "mri \<Rightarrow> nat anslp_msg \<Rightarrow> nat ntlp_msg" where
  "ex_msg r b = new_ntlp_msg ex_id b r 0"

definition ex_event :: "nat ntlp_msg \<Rightarrow> nat event" where
  "ex_event m = \<lparr>ev_sid = Some (sid m), ev_data = Msg_event m True\<rparr>"

lemma ex_uuid_lt: "mspec_rule_key_lt ex_plat a b \<longleftrightarrow> length a < length b"
  by (simp add: mspec_rule_key_lt_def ex_plat_def)

lemma ex_uuid_order: "weak_order (mspec_rule_key_lt ex_plat)"
  by unfold_locales (simp_all add: ex_uuid_lt)

lemma ex_uuid_ok: "uuid_ok ex_plat"
  using ex_uuid_order by (auto simp: uuid_ok_def ex_uuid_lt) (auto simp: ex_plat_def)

lemma ex_node_simps [simp]: "plat (ex_node k) = ex_plat" "rule_installer (ex_node k) = k" "conf (ex_node k) = default_config"
  by (simp_all add: ex_node_def)

lemma ex_create_facts:
  "wf_msg (ex_create lt n sme)" "find_session_lifetime (ex_create lt n sme) = Some lt"
  "find_msg_sequence_number (ex_create lt n sme) = Some n"
  "find_selection_auctioning_entities (ex_create lt n sme) = Some sme"
  "find_message_hop_count (ex_create lt n sme) = Some 20" "msg_class (ex_create lt n sme) = Anslp_create"
  "get_mspec_objects (ex_create lt n sme) = Some [new_anslp_ipap_message 5]"
proof -
  have m: "is_mspec (new_anslp_ipap_message (5 :: nat))" by (simp add: is_mspec_def)
  note laws = set_mspec_list_laws [of "set_message_hop_count 20
     (set_selection_auctioning_entities sme (set_msg_sequence_number n (set_session_lifetime lt new_anslp_create)))"
     "[new_anslp_ipap_message (5 :: nat)]"]
  show "wf_msg (ex_create lt n sme)" "find_session_lifetime (ex_create lt n sme) = Some lt"
    "find_msg_sequence_number (ex_create lt n sme) = Some n"
    "find_selection_auctioning_entities (ex_create lt n sme) = Some sme"
    "find_message_hop_count (ex_create lt n sme) = Some 20" "msg_class (ex_create lt n sme) = Anslp_create"
    "get_mspec_objects (ex_create lt n sme) = Some [new_anslp_ipap_message 5]"
    using laws m by (simp_all add: ex_create_def mspec_limit_def)
qed

lemma ex_refresh_facts:
  "wf_msg (ex_refresh lt n)" "find_session_lifetime (ex_refresh lt n) = Some lt"
  "find_msg_sequence_number (ex_refresh lt n) = Some n" "msg_class (ex_refresh lt n) = Anslp_refresh"
  by (simp_all add: ex_refresh_def)

lemma ex_msg_simps [simp]:
  "sid (ex_msg r b) = ex_id" "routing_info (ex_msg r b) = r" "msg (ex_msg r b) = Some b"
  "msg_with c (ex_event (ex_msg r b)) = (if msg_class b = c then Some (ex_msg r b, b) else None)"
  "body_of c (ex_event (ex_msg r b)) = (if msg_class b = c then Some b else None)"
  by (simp_all add: ex_msg_def ex_event_def new_ntlp_msg_def event_pred_defs)

end
