(* ===== verification/Ni_Session.thy ===== *)
theory Ni_Session
  imports Example_Node
begin

text \<open>
  The initiator's state machine, \<open>ni_session\<close> (\<open>src/src/ni_session.cpp\<close>,
  \<open>src/include/ni_session.h\<close>): one definition per handler and helper.

  A handler takes the session and the world and returns the next state, an exception or an
  abnormal stop together with the session and the world as they are then. Log output is left
  out; copies of messages, rules and objects are values.
\<close>

datatype ni_state = Ni_close | Ni_pending | Ni_pending_installing | Ni_auctioning | Ni_pending_teardown

record 'm ni_session = "'m session" +
  ni_state :: ni_state
  ni_mri :: "mri option"
  ni_last_create_msg :: "'m ntlp_msg option"
  ni_last_refresh_msg :: "'m ntlp_msg option"
  ni_last_auction_install_rule :: "'m auction_rule option"
  ni_lifetime :: u32
  ni_refresh_interval :: u32
  ni_resp_timeout :: u32
  ni_create_counter :: u32
  ni_refresh_counter :: u32
  ni_retries :: u32
  ni_teardown_counter :: u32
  ni_response_timer :: timer
  ni_refresh_timer :: timer

text \<open>
  The constructor does not initialise \<open>teardown_counter\<close>: its first value is the argument
  \<open>garbage\<close>. \<open>random\<close> is the value of \<open>create_random_number\<close>.
\<close>

definition new_ni_session :: "session_id \<Rightarrow> config \<Rightarrow> u32 \<Rightarrow> u32 \<Rightarrow> 'm ni_session" where
  "new_ni_session i c random garbage =
     \<lparr>rule = Some new_auction_rule, sess_id = i, session_type = St_initiator, msn = random,
      msg_hop_count = ni_msg_hop_count c,
      ni_state = Ni_close, ni_mri = None, ni_last_create_msg = None, ni_last_refresh_msg = None,
      ni_last_auction_install_rule = None, ni_lifetime = 0, ni_refresh_interval = 20,
      ni_resp_timeout = ni_response_timeout c, ni_create_counter = 0, ni_refresh_counter = 0,
      ni_retries = ni_max_retries c, ni_teardown_counter = garbage, ni_response_timer = 0,
      ni_refresh_timer = 0\<rparr>"

definition ni_is_final :: "'m ni_session \<Rightarrow> bool" where
  "ni_is_final s = (ni_state s = Ni_close)"

type_synonym ('m, 'a) ni_step = "(exn, 'a) outcome \<times> 'm ni_session \<times> 'm world"

definition ni_start_response_timer :: "'m dispatcher \<Rightarrow> 'm ni_session \<times> 'm world \<Rightarrow> 'm ni_session \<times> 'm world" where
  "ni_start_response_timer d = (\<lambda>(s, w).
     let (t, w) = timer_start (plat d) (sess_id s) (sint (ni_resp_timeout s)) w
     in (s\<lparr>ni_response_timer := t\<rparr>, w))"

definition ni_start_refresh_timer :: "'m dispatcher \<Rightarrow> 'm ni_session \<times> 'm world \<Rightarrow> 'm ni_session \<times> 'm world" where
  "ni_start_refresh_timer d = (\<lambda>(s, w).
     let (t, w) = timer_start (plat d) (sess_id s) (sint (ni_refresh_interval s)) w
     in (s\<lparr>ni_refresh_timer := t\<rparr>, w))"

definition cal_refresh_interval :: "u32 \<Rightarrow> u32" where
  "cal_refresh_interval lt = (lt * 2) div 3"

definition ni_build_create_message :: "'m api_create_event \<Rightarrow> 'm anslp_object list \<Rightarrow> 'm ni_session \<times> 'm world
    \<Rightarrow> ('m, 'm ntlp_msg) ni_step" where
  "ni_build_create_message e missing = (\<lambda>(s, w).
     deref (ni_mri s) Assert_failed (s, w) (\<lambda>routing.
       let create = new_anslp_create;
           create = (if ni_lifetime s \<le> ac_session_lifetime e
                     then set_session_lifetime (ni_lifetime s) create
                     else set_session_lifetime (ac_session_lifetime e) create);
           n = next_msg_sequence_number (msn s);
           s = s\<lparr>msn := n\<rparr>;
           create = set_msg_sequence_number n create;
           create = set_selection_auctioning_entities (ac_sel_auct_entities e) create;
           create = set_message_hop_count (msg_hop_count s) create;
           create = set_mspec_list (map object_copy missing) create
       in (Ok (new_ntlp_msg (sess_id s) create routing 0), s, w)))"

definition ni_build_bidding_message :: "'m object_list \<Rightarrow> 'm ni_session \<times> 'm world \<Rightarrow> ('m, 'm ntlp_msg) ni_step" where
  "ni_build_bidding_message objs = (\<lambda>(s, w).
     deref (ni_mri s) Null_deref (s, w) (\<lambda>routing.
       let n = next_msg_sequence_number (msn s);
           s = s\<lparr>msn := n\<rparr>;
           bidding = set_msg_sequence_number n new_anslp_bidding;
           bidding = set_mspec_list (map (object_copy \<circ> snd) objs) bidding
       in (Ok (new_ntlp_msg (sess_id s) bidding routing 0), s, w)))"

definition ni_build_refresh_message :: "'m ni_session \<times> 'm world \<Rightarrow> ('m, 'm ntlp_msg) ni_step" where
  "ni_build_refresh_message = (\<lambda>(s, w).
     deref (ni_mri s) Assert_failed (s, w) (\<lambda>routing.
       let refresh = set_session_lifetime (ni_lifetime s) new_anslp_refresh;
           n = next_msg_sequence_number (msn s);
           s = s\<lparr>msn := n\<rparr>;
           refresh = set_msg_sequence_number n refresh
       in (Ok (new_ntlp_msg (sess_id s) refresh routing 0), s, w)))"

definition ni_build_auction_install_rule :: "'m dispatcher \<Rightarrow> 'm anslp_msg \<Rightarrow> 'm ni_session \<times> 'm world
    \<Rightarrow> ('m, 'm auction_rule) ni_step" where
  "ni_build_auction_install_rule d resp = (\<lambda>(s, w).
     deref (get_mspec_objects resp) Null_deref (s, w) (\<lambda>objs.
       let (act_return, w) = fold (\<lambda>obj. set_request_object (plat d) obj) objs (new_auction_rule, w)
       in (Ok act_return, s, w)))"

text \<open>
  The refresh interval is \<open>ceil(lifetime / ((max_retries + 0.5) * 1.5))\<close>. The divisor is
  \<open>(6 * max_retries + 3) / 4\<close> and exact in double precision, and the rounding of the quotient cannot
  cross an integer for 32-bit arguments, so that the result is the integer below (the cast is
  defined when it fits in 32 bits). The response timeout multiplies it with a random factor.
\<close>

definition refresh_seconds :: "u32 \<Rightarrow> u32 \<Rightarrow> u32" where
  "refresh_seconds lt retries = of_nat ((4 * unat lt + 6 * unat retries + 2) div (6 * unat retries + 3))"

definition ni_setup_session :: "'m dispatcher \<Rightarrow> 'm api_create_event \<Rightarrow> 'm ni_session \<times> 'm world
    \<Rightarrow> ('m, 'm anslp_object list) ni_step" where
  "ni_setup_session d e = (\<lambda>(s, w).
     let nslp_mri = Mri_pathcoupled
           \<lparr>sourceaddress = ac_source_addr e, sourceprefix = 32, sourceport = ac_source_port e,
            destaddress = ac_dest_addr e, destprefix = 32, destport = ac_dest_port e,
            protocol = ac_protocol e, flowlabel = 0, ds_field = 0, spi = 0, downstream = True\<rparr>;
         s = s\<lparr>ni_mri := Some nslp_mri\<rparr>;
         s = (if ac_session_lifetime e \<noteq> 0 then s\<lparr>ni_lifetime := ac_session_lifetime e\<rparr> else s);
         r = refresh_seconds (ni_lifetime s) (ni_retries s)
     in if \<not> r > 0 then (Crash Assert_failed, s, w)
        else let s = s\<lparr>ni_refresh_interval := r\<rparr>;
                 t = jitter (plat d) (randoms_made w) r;
                 w = w\<lparr>randoms_made := Suc (randoms_made w)\<rparr>;
                 s = s\<lparr>ni_resp_timeout := t\<rparr>
             in (Ok (map (object_copy \<circ> snd) (ac_mspec_objects e)), s, w))"

definition ni_create_auction_rule :: "'m dispatcher \<Rightarrow> 'm anslp_msg \<Rightarrow> 'm ni_session \<times> 'm world
    \<Rightarrow> ('m, 'm auction_rule) ni_step" where
  "ni_create_auction_rule d bidding = create_auction_rule d bidding"

section \<open>The state handlers\<close>

definition ni_handle_state_close :: "'m dispatcher \<Rightarrow> 'm event \<Rightarrow> 'm ni_session \<times> 'm world \<Rightarrow> ('m, ni_state) ni_step" where
  "ni_handle_state_close d evt sw = (case api_create_of evt of
       Some e \<Rightarrow>
         call (ni_setup_session d e sw) (\<lambda>missing sw.
         call (ni_build_create_message e missing sw) (\<lambda>m (s, w).
           let s = s\<lparr>ni_last_create_msg := Some m\<rparr>;
               (s, w) = send m (s, w);
               (s, w) = ni_start_response_timer d (s, w)
           in if ac_return_queue e
              then (Ok Ni_pending, s, emit (Return_event
                      (Add_anslp_session_event (ac_session_id e) (session_id_to_string (sess_id s)))) w)
              else (Ok Ni_close, s, w)))
     | None \<Rightarrow> (Ok Ni_close, sw))"

definition ni_response_timeout_pending :: "'m dispatcher \<Rightarrow> 'm ni_session \<times> 'm world \<Rightarrow> ('m, ni_state) ni_step" where
  "ni_response_timeout_pending d = (\<lambda>(s, w).
     if ni_create_counter s < ni_retries s
     then let s = s\<lparr>ni_create_counter := ni_create_counter s + 1\<rparr>
          in deref (ni_last_create_msg s) Assert_failed (s, w) (\<lambda>m.
               (Ok Ni_pending, ni_start_response_timer d (send m (s, w))))
     else (Ok Ni_close, report ''got no response for our Create Message'' (s, w)))"

text \<open>A REFRESH with lifetime 0, sent when the session is torn down before it is established.\<close>

definition ni_send_teardown :: "'m ni_session \<times> 'm world \<Rightarrow> ('m, ni_state) ni_step" where
  "ni_send_teardown sw =
     call (ni_build_refresh_message sw) (\<lambda>m sw. (Ok Ni_close, send m sw))"

definition ni_response_pending :: "'m dispatcher \<Rightarrow> 'm anslp_msg \<Rightarrow> 'm ntlp_msg \<Rightarrow> 'm ni_session \<times> 'm world \<Rightarrow> ('m, ni_state) ni_step" where
  "ni_response_pending d resp last_msg sw =
     deref (cast_msg Anslp_create last_msg) Null_deref sw (\<lambda>c.
       if \<not> is_response_to_create resp c then (Ok Ni_pending, sw)
       else if is_success resp
       then let sw = report ''CREATE session initiated'' sw;
                (s, w) = ni_start_response_timer d sw;
                s = (if get_session_lifetime resp \<noteq> ni_lifetime s
                     then let s = s\<lparr>ni_lifetime := get_session_lifetime resp\<rparr>
                          in s\<lparr>ni_refresh_interval := cal_refresh_interval (ni_lifetime s)\<rparr>
                     else s);
                s = s\<lparr>ni_create_counter := 0\<rparr>
            in call (ni_build_auction_install_rule d resp (s, w)) (\<lambda>r (s, w).
               let s = s\<lparr>ni_last_auction_install_rule := Some r\<rparr>
               in call (service (send_response d (session_id_to_string (sess_id s)) (Some r)) (s, w))
                    (\<lambda>_ sw. (Ok Ni_pending_installing, sw)))
       else (Ok Ni_close, report ''cannot initiate Create session'' sw))"

definition ni_handle_state_pending :: "'m dispatcher \<Rightarrow> 'm event \<Rightarrow> 'm ni_session \<times> 'm world \<Rightarrow> ('m, ni_state) ni_step" where
  "ni_handle_state_pending d evt = (\<lambda>(s, w).
     if is_timer_of evt (ni_response_timer s) then ni_response_timeout_pending d (s, w)
     else if is_no_next_node_found_event evt then (Ok Ni_close, s, w)
     else if is_api_teardown evt
     then ni_send_teardown (s\<lparr>ni_lifetime := 0, ni_last_create_msg := None\<rparr>, w)
     else if is_timer evt then (Ok Ni_pending, s, w)
     else deref (ni_last_create_msg s) Assert_failed (s, w) (\<lambda>last_msg.
       if is_anslp_response evt last_msg
       then deref (body_of Anslp_response evt) Null_deref (s, w) (\<lambda>resp.
              ni_response_pending d resp last_msg (s, w))
       else (Ok Ni_pending, s, w)))"

text \<open>Leaving the installing state: rules are removed only when the install rule has response objects.\<close>

definition ni_remove_install_rule :: "'m dispatcher \<Rightarrow> 'm ni_session \<times> 'm world \<Rightarrow> ('m, unit) ni_step" where
  "ni_remove_install_rule d = (\<lambda>(s, w).
     deref (ni_last_auction_install_rule s) Null_deref (s, w) (\<lambda>r.
       if get_number_mspec_response_objects r > 0
       then service (remove_auction_rules d (session_id_to_string (sess_id s)) (Some r)) (s, w)
       else (Ok (), s, w)))"

definition ni_response_timeout_installing :: "'m dispatcher \<Rightarrow> 'm ni_session \<times> 'm world \<Rightarrow> ('m, ni_state) ni_step" where
  "ni_response_timeout_installing d = (\<lambda>(s, w).
     if ni_create_counter s < ni_retries s
     then let s = s\<lparr>ni_create_counter := ni_create_counter s + 1\<rparr>
          in deref (ni_last_auction_install_rule s) Null_deref (s, w) (\<lambda>r.
             call (service (send_response d (session_id_to_string (sess_id s)) (Some r)) (s, w))
               (\<lambda>_ sw. (Ok Ni_pending_installing, ni_start_response_timer d sw)))
     else let s = s\<lparr>rule := None, ni_lifetime := 0, ni_last_create_msg := None\<rparr>
          in call (ni_remove_install_rule d (s, w)) (\<lambda>_ sw.
             call (ni_build_refresh_message sw) (\<lambda>m sw.
               (Ok Ni_close, report ''got no response for our Create Message'' (send m sw)))))"

definition ni_api_install :: "'m dispatcher \<Rightarrow> 'm object_list \<Rightarrow> 'm ni_session \<times> 'm world \<Rightarrow> ('m, ni_state) ni_step" where
  "ni_api_install d objs = (\<lambda>(s, w).
     deref (ni_last_auction_install_rule s) Null_deref (s, w) (\<lambda>r.
       if get_number_mspec_request_objects r = length objs
       then let (new_rule, w) = set_reponse_objects (plat d) objs (r, w);
                s = s\<lparr>rule := Some new_rule, ni_create_counter := 0, ni_response_timer := timer_stop\<rparr>
            in (Ok Ni_auctioning, ni_start_refresh_timer d (s, w))
       else let s = s\<lparr>rule := None, ni_lifetime := 0, ni_last_create_msg := None\<rparr>
            in call (ni_remove_install_rule d (s, w)) (\<lambda>_ sw. ni_send_teardown sw)))"

definition ni_handle_state_pending_installing :: "'m dispatcher \<Rightarrow> 'm event \<Rightarrow> 'm ni_session \<times> 'm world
    \<Rightarrow> ('m, ni_state) ni_step" where
  "ni_handle_state_pending_installing d evt = (\<lambda>(s, w).
     if is_timer_of evt (ni_response_timer s) then ni_response_timeout_installing d (s, w)
     else if is_api_teardown evt
     then let s = s\<lparr>ni_lifetime := 0, ni_last_create_msg := None\<rparr>
          in call (ni_remove_install_rule d (s, w)) (\<lambda>_ sw. ni_send_teardown sw)
     else if is_timer evt then (Ok Ni_pending_installing, s, w)
     else case api_install_of evt of
            Some objs \<Rightarrow> ni_api_install d objs (s, w)
          | None \<Rightarrow> (Ok Ni_pending_installing, s, w))"

text \<open>
  The end of an established session, reached from three places: when the rule has response objects the
  rules are removed and the session waits for the confirmation, otherwise it closes. \<open>rule\<close> is read
  through its pointer.
\<close>

definition ni_begin_teardown :: "'m dispatcher \<Rightarrow> 'm ni_session \<times> 'm world \<Rightarrow> ('m, ni_state) ni_step" where
  "ni_begin_teardown d = (\<lambda>(s, w).
     let s = s\<lparr>ni_teardown_counter := 0\<rparr>
     in deref (rule s) Null_deref (s, w) (\<lambda>r.
          if get_number_mspec_response_objects r > 0
          then call (service (remove_auction_rules d (session_id_to_string (sess_id s)) (Some r)) (s, w))
                 (\<lambda>_ sw. (Ok Ni_pending_teardown, ni_start_response_timer d sw))
          else (Ok Ni_close, s\<lparr>ni_response_timer := timer_stop\<rparr>, w)))"

definition ni_refresh_timeout :: "'m dispatcher \<Rightarrow> 'm ni_session \<times> 'm world \<Rightarrow> ('m, ni_state) ni_step" where
  "ni_refresh_timeout d sw =
     call (ni_build_refresh_message sw) (\<lambda>m (s, w).
       let s = s\<lparr>ni_last_refresh_msg := Some m\<rparr>;
           (s, w) = send m (s, w);
           s = s\<lparr>ni_refresh_counter := 0\<rparr>
       in (Ok Ni_auctioning, ni_start_response_timer d (s, w)))"

definition ni_response_timeout_auctioning :: "'m dispatcher \<Rightarrow> 'm ni_session \<times> 'm world \<Rightarrow> ('m, ni_state) ni_step" where
  "ni_response_timeout_auctioning d = (\<lambda>(s, w).
     if ni_refresh_counter s < ni_retries s
     then let s = s\<lparr>ni_refresh_counter := ni_refresh_counter s + 1\<rparr>
          in deref (ni_last_refresh_msg s) Assert_failed (s, w) (\<lambda>m.
               (Ok Ni_auctioning, ni_start_response_timer d (send m (s, w))))
     else ni_begin_teardown d (report ''got no response to our REFRESH message'' (s, w)))"

definition ni_api_teardown_auctioning :: "'m ni_session \<times> 'm world \<Rightarrow> ('m, ni_state) ni_step" where
  "ni_api_teardown_auctioning = (\<lambda>(s, w).
     call (ni_build_refresh_message (s\<lparr>ni_lifetime := 0\<rparr>, w)) (\<lambda>m (s, w).
       let s = s\<lparr>ni_last_refresh_msg := Some m\<rparr> in (Ok Ni_auctioning, send m (s, w))))"

text \<open>
  Bids in the auctioning and the teardown state: the user's bid is sent to the auction server, a bid
  from the server is passed to the local application, whose errors are caught and logged.
\<close>

definition ni_api_bidding :: "ni_state \<Rightarrow> 'm object_list \<Rightarrow> 'm ni_session \<times> 'm world \<Rightarrow> ('m, ni_state) ni_step" where
  "ni_api_bidding st objs sw =
     call (ni_build_bidding_message objs sw) (\<lambda>m sw. (Ok st, send m sw))"

definition ni_anslp_bidding :: "'m dispatcher \<Rightarrow> ni_state \<Rightarrow> 'm anslp_msg \<Rightarrow> 'm ni_session \<times> 'm world \<Rightarrow> ('m, ni_state) ni_step" where
  "ni_anslp_bidding d st bidding sw =
     (case call (ni_create_auction_rule d bidding sw) (\<lambda>to_post (s, w).
             service (auction_interaction d False (session_id_to_string (sess_id s)) to_post) (s, w)) of
        (Ok result, sw) \<Rightarrow> (Ok st, sw)
      | (Throw e, sw) \<Rightarrow> (case e of Installer_error _ _ \<Rightarrow> (Ok st, sw) | _ \<Rightarrow> (Throw e, sw))
      | (Crash f, sw) \<Rightarrow> (Crash f, sw))"

definition ni_response_auctioning :: "'m dispatcher \<Rightarrow> 'm anslp_msg \<Rightarrow> 'm ntlp_msg \<Rightarrow> 'm ni_session \<times> 'm world \<Rightarrow> ('m, ni_state) ni_step" where
  "ni_response_auctioning d resp last_msg sw =
     deref (cast_msg Anslp_refresh last_msg) Null_deref sw (\<lambda>c.
       if \<not> is_response_to_refresh resp c then (Ok Ni_auctioning, sw)
       else if is_success resp
       then let (s, w) = report ''REFRESH successful'' sw
            in if ni_lifetime s = 0
               then ni_begin_teardown d (s\<lparr>ni_response_timer := timer_stop\<rparr>, w)
               else let s = s\<lparr>ni_response_timer := timer_stop\<rparr>;
                        (s, w) = ni_start_refresh_timer d (s, w)
                    in (Ok Ni_auctioning, s\<lparr>ni_refresh_counter := 0\<rparr>, w)
       else ni_begin_teardown d (report ''REFRESH session died'' sw))"

definition ni_handle_state_auctioning :: "'m dispatcher \<Rightarrow> 'm event \<Rightarrow> 'm ni_session \<times> 'm world \<Rightarrow> ('m, ni_state) ni_step" where
  "ni_handle_state_auctioning d evt = (\<lambda>(s, w).
     if is_api_install evt then (Ok Ni_auctioning, s, w)
     else if is_timer_of evt (ni_refresh_timer s) then ni_refresh_timeout d (s, w)
     else if is_timer_of evt (ni_response_timer s) then ni_response_timeout_auctioning d (s, w)
     else if is_api_teardown evt then ni_api_teardown_auctioning (s, w)
     else case api_bidding_of evt of
            Some (objs, rq) \<Rightarrow> ni_api_bidding Ni_auctioning objs (s, w)
          | None \<Rightarrow> (case body_of Anslp_bidding evt of
              Some bidding \<Rightarrow> ni_anslp_bidding d Ni_auctioning bidding (s, w)
            | None \<Rightarrow>
                if is_timer evt then (Ok Ni_auctioning, s, w)
                else deref (ni_last_refresh_msg s) Assert_failed (s, w) (\<lambda>last_msg.
                  if is_anslp_response evt last_msg
                  then deref (body_of Anslp_response evt) Null_deref (s, w) (\<lambda>resp.
                         ni_response_auctioning d resp last_msg (s, w))
                  else (Ok Ni_auctioning, s, w))))"

definition ni_response_timeout_teardown :: "'m dispatcher \<Rightarrow> 'm ni_session \<times> 'm world \<Rightarrow> ('m, ni_state) ni_step" where
  "ni_response_timeout_teardown d = (\<lambda>(s, w).
     if ni_teardown_counter s < ni_retries s
     then let s = s\<lparr>ni_teardown_counter := ni_teardown_counter s + 1\<rparr>
          in call (service (remove_auction_rules d (session_id_to_string (sess_id s)) (rule s)) (s, w))
               (\<lambda>_ sw. (Ok Ni_pending_teardown, ni_start_response_timer d sw))
     else (Ok Ni_close, s, w))"

definition ni_handle_state_pending_teardown :: "'m dispatcher \<Rightarrow> 'm event \<Rightarrow> 'm ni_session \<times> 'm world
    \<Rightarrow> ('m, ni_state) ni_step" where
  "ni_handle_state_pending_teardown d evt = (\<lambda>(s, w).
     if is_anslp_refresh evt then (Ok Ni_pending_teardown, s, w)
     else case api_bidding_of evt of
            Some (objs, rq) \<Rightarrow> ni_api_bidding Ni_pending_teardown objs (s, w)
          | None \<Rightarrow> (case body_of Anslp_bidding evt of
              Some bidding \<Rightarrow> ni_anslp_bidding d Ni_pending_teardown bidding (s, w)
            | None \<Rightarrow>
                if is_timer_of evt (ni_response_timer s) then ni_response_timeout_teardown d (s, w)
                else if is_route_changed_bad_event evt then (Ok Ni_pending_teardown, s, w)
                else if is_timer evt then (Ok Ni_pending_teardown, s, w)
                else if is_api_remove evt then (Ok Ni_close, s\<lparr>ni_response_timer := timer_stop\<rparr>, w)
                else (Ok Ni_pending_teardown, s, w)))"

definition ni_handle :: "'m dispatcher \<Rightarrow> 'm event \<Rightarrow> 'm ni_session \<times> 'm world \<Rightarrow> ('m, ni_state) ni_step" where
  "ni_handle d evt = (\<lambda>(s, w). case ni_state s of
       Ni_close \<Rightarrow> ni_handle_state_close d evt (s, w)
     | Ni_pending \<Rightarrow> ni_handle_state_pending d evt (s, w)
     | Ni_pending_installing \<Rightarrow> ni_handle_state_pending_installing d evt (s, w)
     | Ni_auctioning \<Rightarrow> ni_handle_state_auctioning d evt (s, w)
     | Ni_pending_teardown \<Rightarrow> ni_handle_state_pending_teardown d evt (s, w))"

definition ni_process_event :: "'m dispatcher \<Rightarrow> 'm event \<Rightarrow> 'm ni_session \<times> 'm world \<Rightarrow> ('m, unit) ni_step" where
  "ni_process_event d evt sw =
     call (ni_handle d evt sw) (\<lambda>st (s, w). (Ok (), s\<lparr>ni_state := st\<rparr>, w))"

section \<open>Postconditions of the helpers\<close>

lemma ni_plain [simp]:
  "ni_start_response_timer d (s, w) = (s\<lparr>ni_response_timer := timer_msg_id (plat d) (timers_made w)\<rparr>,
     started d (sess_id s) (ni_resp_timeout s) w)"
  "ni_start_refresh_timer d (s, w) = (s\<lparr>ni_refresh_timer := timer_msg_id (plat d) (timers_made w)\<rparr>,
     started d (sess_id s) (ni_refresh_interval s) w)"
  by (simp_all add: ni_start_response_timer_def ni_start_refresh_timer_def timer_start_started)

text \<open>The messages that the initiator builds.\<close>

definition ni_create_of :: "'m api_create_event \<Rightarrow> 'm anslp_object list \<Rightarrow> u32 \<Rightarrow> u32 \<Rightarrow> u32 \<Rightarrow> 'm anslp_msg" where
  "ni_create_of e objs lt n hops = set_mspec_list (map object_copy objs)
     (set_message_hop_count hops (set_selection_auctioning_entities (ac_sel_auct_entities e)
       (set_msg_sequence_number n (set_session_lifetime (min lt (ac_session_lifetime e)) new_anslp_create))))"

definition ni_refresh_of :: "u32 \<Rightarrow> u32 \<Rightarrow> 'm anslp_msg" where
  "ni_refresh_of lt n = set_msg_sequence_number n (set_session_lifetime lt new_anslp_refresh)"

definition bidding_of :: "'m object_list \<Rightarrow> u32 \<Rightarrow> 'm anslp_msg" where
  "bidding_of objs n = set_mspec_list (map (object_copy \<circ> snd) objs) (set_msg_sequence_number n new_anslp_bidding)"

lemma post_ni_build_create [wp]:
  "post Q E F (ni_build_create_message e objs (s, w)) \<longleftrightarrow>
     (ni_mri s = None \<longrightarrow> F Assert_failed (s, w)) \<and>
     (\<forall>r. ni_mri s = Some r \<longrightarrow>
        Q (new_ntlp_msg (sess_id s) (ni_create_of e objs (ni_lifetime s) (msn s + 1) (msg_hop_count s)) r 0)
          (s\<lparr>msn := msn s + 1\<rparr>, w))"
  by (simp add: ni_build_create_message_def ni_create_of_def wp Let_def next_msg_sequence_number_def min_def)

lemma post_ni_build_refresh [wp]:
  "post Q E F (ni_build_refresh_message (s, w)) \<longleftrightarrow>
     (ni_mri s = None \<longrightarrow> F Assert_failed (s, w)) \<and>
     (\<forall>r. ni_mri s = Some r \<longrightarrow>
        Q (new_ntlp_msg (sess_id s) (ni_refresh_of (ni_lifetime s) (msn s + 1)) r 0)
          (s\<lparr>msn := msn s + 1\<rparr>, w))"
  by (simp add: ni_build_refresh_message_def ni_refresh_of_def wp Let_def next_msg_sequence_number_def)

lemma post_ni_build_bidding [wp]:
  "post Q E F (ni_build_bidding_message objs (s, w)) \<longleftrightarrow>
     (ni_mri s = None \<longrightarrow> F Null_deref (s, w)) \<and>
     (\<forall>r. ni_mri s = Some r \<longrightarrow>
        Q (new_ntlp_msg (sess_id s) (bidding_of objs (msn s + 1)) r 0) (s\<lparr>msn := msn s + 1\<rparr>, w))"
  by (simp add: ni_build_bidding_message_def bidding_of_def wp Let_def next_msg_sequence_number_def)

definition install_rule_of :: "'m dispatcher \<Rightarrow> 'm anslp_object list \<Rightarrow> 'm world \<Rightarrow> 'm auction_rule \<times> 'm world" where
  "install_rule_of d objs w = fold (\<lambda>obj. set_request_object (plat d) obj) objs (new_auction_rule, w)"

lemma post_ni_build_install [wp]:
  "post Q E F (ni_build_auction_install_rule d resp (s, w)) \<longleftrightarrow>
     (get_mspec_objects resp = None \<longrightarrow> F Null_deref (s, w)) \<and>
     (\<forall>objs. get_mspec_objects resp = Some objs \<longrightarrow>
        Q (fst (install_rule_of d objs w)) (s, snd (install_rule_of d objs w)))"
  by (simp add: ni_build_auction_install_rule_def install_rule_of_def wp Let_def split_beta)

lemma install_rule_of_responses [simp]: "object_responses (fst (install_rule_of d objs w)) = []"
  and install_rule_of_same: "same_actions w (snd (install_rule_of d objs w))"
proof -
  let ?f = "fold (\<lambda>obj. set_request_object (plat d) obj) objs"
  have "object_responses (fst (?f rw)) = object_responses (fst rw) \<and> trace (snd (?f rw)) = trace (snd rw) \<and>
      timers_made (snd (?f rw)) = timers_made (snd rw)" for rw
    by (induction objs arbitrary: rw) (simp_all add: set_request_object_def new_mspec_rule_key_def split_beta)
  then show "object_responses (fst (install_rule_of d objs w)) = []"
    and "same_actions w (snd (install_rule_of d objs w))"
    by (simp_all add: install_rule_of_def same_actions_def)
qed

lemma install_rule_of_world [simp]:
  "shutdownflag (snd (install_rule_of d objs w)) = shutdownflag w" "install_queue (snd (install_rule_of d objs w)) = install_queue w"
proof -
  have "shutdownflag (snd (fold (\<lambda>obj. set_request_object (plat d) obj) l q)) = shutdownflag (snd q) \<and>
    install_queue (snd (fold (\<lambda>obj. set_request_object (plat d) obj) l q)) = install_queue (snd q)" for l q
    by (induction l arbitrary: q) (simp_all add: set_request_object_def new_mspec_rule_key_def split_beta)
  then show "shutdownflag (snd (install_rule_of d objs w)) = shutdownflag w"
    "install_queue (snd (install_rule_of d objs w)) = install_queue w"
    by (simp_all add: install_rule_of_def)
qed

lemma install_rule_of_cong:
  assumes "uuids_made w' = uuids_made w"
  shows "fst (install_rule_of d objs w') = fst (install_rule_of d objs w)"
proof -
  let ?f = "\<lambda>obj. set_request_object (plat d) obj"
  have "fst (fold ?f l q1) = fst (fold ?f l q2)"
    if "fst q1 = fst q2" "uuids_made (snd q1) = uuids_made (snd q2)" for l q1 q2
    using that
  proof (induction l arbitrary: q1 q2)
    case (Cons a l)
    have "fst (?f a q1) = fst (?f a q2)" "uuids_made (snd (?f a q1)) = uuids_made (snd (?f a q2))"
      using Cons.prems by (simp_all add: set_request_object_def new_mspec_rule_key_def split_beta)
    from Cons.IH [OF this] show ?case by simp
  qed simp
  then show ?thesis using assms by (simp add: install_rule_of_def)
qed

lemma sent_install_rule_of [simp]: "sent (snd (install_rule_of d objs w)) = sent w"
  using install_rule_of_same same_actions_sent by blast

lemma post_ni_catch:
  "post Q E F (case r of (Ok a, sw) \<Rightarrow> (Ok st, sw)
      | (Throw e, sw) \<Rightarrow> (case e of Installer_error _ _ \<Rightarrow> (Ok st, sw) | _ \<Rightarrow> (Throw e, sw))
      | (Crash f, sw) \<Rightarrow> (Crash f, sw))
   = post (\<lambda>_. Q st) (\<lambda>e sw. case e of Installer_error _ _ \<Rightarrow> Q st sw | _ \<Rightarrow> E e sw) F r"
  by (cases r rule: call_cases) (auto split: exn.split)

lemma post_ni_anslp_bidding [wp_intro]:
  "(\<And>w'. same_actions w w' \<Longrightarrow> Q st (s, w')) \<Longrightarrow> (get_mspec_objects bidding = None \<Longrightarrow> F Null_deref (s, w)) \<Longrightarrow>
   post Q E F (ni_anslp_bidding d st bidding (s, w))"
  unfolding ni_anslp_bidding_def post_ni_catch ni_create_auction_rule_def
  by (auto simp: wp wrong_conf_message_def same_actions_def add_requests_world intro!: wp_intro)

section \<open>The invariant\<close>

definition ni_inv :: "'m ni_session \<Rightarrow> bool" where
  "ni_inv s = (session_type s = St_initiator \<and>
     ni_create_counter s \<le> ni_retries s \<and> ni_refresh_counter s \<le> ni_retries s \<and>
     (\<forall>m. ni_last_refresh_msg s = Some m \<longrightarrow> cast_msg Anslp_refresh m \<noteq> None) \<and>
     (ni_state s \<noteq> Ni_close \<longrightarrow> ni_mri s \<noteq> None) \<and>
     (ni_state s = Ni_pending \<longrightarrow>
        (\<exists>m. ni_last_create_msg s = Some m \<and> cast_msg Anslp_create m \<noteq> None)) \<and>
     (ni_state s = Ni_pending_installing \<longrightarrow>
        (\<exists>r. ni_last_auction_install_rule s = Some r \<and> object_responses r = [])) \<and>
     (ni_state s = Ni_auctioning \<or> ni_state s = Ni_pending_teardown \<longrightarrow> rule s \<noteq> None) \<and>
     (ni_state s = Ni_pending_teardown \<longrightarrow> ni_teardown_counter s \<le> ni_retries s))"

text \<open>What a handler that continues with state \<open>st\<close> leaves behind.\<close>

definition ni_next :: "'m ni_session \<Rightarrow> ni_state \<Rightarrow> 'm ni_session \<times> 'm world \<Rightarrow> bool" where
  "ni_next s st sw = (ni_inv (fst sw\<lparr>ni_state := st\<rparr>) \<and> sess_id (fst sw) = sess_id s)"

definition ni_same_id :: "'m ni_session \<Rightarrow> 'm ni_session \<times> 'm world \<Rightarrow> bool" where
  "ni_same_id s sw = (sess_id (fst sw) = sess_id s)"

abbreviation ni_keeps :: "'m ni_session \<Rightarrow> ('m, ni_state) ni_step \<Rightarrow> bool" where
  "ni_keeps s \<equiv> post (ni_next s) (\<lambda>_. ni_same_id s) (\<lambda>_. ni_same_id s)"

lemmas ni_next_defs = ni_next_def ni_same_id_def ni_inv_def

lemma class_built [simp]:
  "msg_class (ni_create_of e objs lt n h) = Anslp_create" "msg_class (ni_refresh_of lt n) = Anslp_refresh"
  "msg_class (bidding_of l n) = Anslp_bidding"
  by (simp_all add: ni_create_of_def ni_refresh_of_def bidding_of_def)

lemma cast_new [simp]: "cast_msg c (new_ntlp_msg i b r n) = (if msg_class b = c then Some b else None)"
  by (simp add: cast_msg_def new_ntlp_msg_def)

lemma ni_begin_teardown_keeps [wp_intro]:
  "ni_inv (s'\<lparr>ni_state := Ni_auctioning\<rparr>) \<Longrightarrow> sess_id s' = sess_id s \<Longrightarrow>
   ni_keeps s (ni_begin_teardown d (s', w))"
  by (auto simp: ni_begin_teardown_def wp ni_next_defs Let_def intro!: wp_intro)

lemma ni_close_keeps: "ni_inv s \<Longrightarrow> ni_state s = Ni_close \<Longrightarrow> ni_keeps s (ni_handle_state_close d evt (s, w))"
  by (cases "api_create_of evt")
    (simp_all add: ni_handle_state_close_def ni_setup_session_def wp ni_next_defs Let_def)

lemma ni_send_teardown_keeps [wp_intro]:
  "ni_inv (s'\<lparr>ni_state := Ni_close\<rparr>) \<Longrightarrow> sess_id s' = sess_id s \<Longrightarrow> ni_keeps s (ni_send_teardown (s', w))"
  by (simp add: ni_send_teardown_def wp ni_next_defs)

lemma ni_pending_keeps: "ni_inv s \<Longrightarrow> ni_state s = Ni_pending \<Longrightarrow> ni_keeps s (ni_handle_state_pending d evt (s, w))"
  unfolding ni_handle_state_pending_def ni_response_timeout_pending_def ni_response_pending_def
  by (simp add: wp Let_def) (intro conjI impI allI wp_intro; simp add: ni_next_defs inc_le)

lemma ni_installing_keeps:
  "ni_inv s \<Longrightarrow> ni_state s = Ni_pending_installing \<Longrightarrow> ni_keeps s (ni_handle_state_pending_installing d evt (s, w))"
  unfolding ni_handle_state_pending_installing_def ni_response_timeout_installing_def
    ni_remove_install_rule_def ni_api_install_def
  by (simp add: wp Let_def) (intro conjI impI allI wp_intro; simp add: wp ni_next_defs inc_le)

lemma ni_auctioning_keeps:
  "ni_inv s \<Longrightarrow> ni_state s = Ni_auctioning \<Longrightarrow> ni_keeps s (ni_handle_state_auctioning d evt (s, w))"
  unfolding ni_handle_state_auctioning_def ni_refresh_timeout_def ni_response_timeout_auctioning_def
    ni_api_teardown_auctioning_def ni_api_bidding_def ni_response_auctioning_def
  by (simp add: wp Let_def) (intro conjI impI allI wp_intro; simp add: ni_next_defs inc_le)

lemma ni_teardown_keeps:
  "ni_inv s \<Longrightarrow> ni_state s = Ni_pending_teardown \<Longrightarrow> ni_keeps s (ni_handle_state_pending_teardown d evt (s, w))"
  unfolding ni_handle_state_pending_teardown_def ni_response_timeout_teardown_def ni_api_bidding_def
  by (simp add: wp Let_def) (intro conjI impI allI wp_intro; simp add: ni_next_defs inc_le)

lemma ni_handle_keeps: "ni_inv s \<Longrightarrow> ni_keeps s (ni_handle d evt (s, w))"
  by (cases "ni_state s") (simp_all add: ni_handle_def ni_close_keeps ni_pending_keeps ni_installing_keeps
      ni_auctioning_keeps ni_teardown_keeps)

lemma ni_process_keeps:
  "ni_inv s \<Longrightarrow> post (\<lambda>_ sw. ni_inv (fst sw) \<and> sess_id (fst sw) = sess_id s)
     (\<lambda>_ sw. sess_id (fst sw) = sess_id s) (\<lambda>_ sw. sess_id (fst sw) = sess_id s) (ni_process_event d evt (s, w))"
  unfolding ni_process_event_def post_call
  by (rule post_mono [OF ni_handle_keeps]) (auto simp: ni_next_def ni_same_id_def)

interpretation ni_machine: session_machine "ni_process_event d" sess_id ni_inv for d
  by unfold_locales (rule ni_process_keeps)

lemma ni_inv_new: "ni_inv (new_ni_session i c random garbage)"
  by (simp add: ni_inv_def new_ni_session_def)

section \<open>Abnormal stops\<close>

text \<open>
  The exact condition under which the initiator stops the process while it handles an event: a CREATE
  request whose refresh interval is 0, a message whose mspec objects cannot be read, and, in the auctioning state
  before the first REFRESH was sent, every event for which the handler looks for that REFRESH.
\<close>

definition unreadable :: "'m anslp_msg option \<Rightarrow> bool" where
  "unreadable b = (case b of None \<Rightarrow> False | Some m \<Rightarrow> get_mspec_objects m = None)"

definition ni_faulty :: "'m event \<Rightarrow> 'm ni_session \<Rightarrow> bool" where
  "ni_faulty evt s = (case ni_state s of
       Ni_close \<Rightarrow> (case api_create_of evt of
           None \<Rightarrow> False
         | Some e \<Rightarrow> refresh_seconds (if ac_session_lifetime e \<noteq> 0 then ac_session_lifetime e else ni_lifetime s)
                      (ni_retries s) = 0)
     | Ni_pending \<Rightarrow> (case (ni_last_create_msg s, body_of Anslp_response evt) of
           (Some m, Some resp) \<Rightarrow> is_anslp_response evt m \<and> is_success resp \<and> get_mspec_objects resp = None
         | _ \<Rightarrow> False)
     | Ni_pending_installing \<Rightarrow> False
     | Ni_auctioning \<Rightarrow>
         unreadable (body_of Anslp_bidding evt) \<or>
         ni_last_refresh_msg s = None \<and>
           (if is_timer evt
            then is_timer_of evt (ni_response_timer s) \<and> \<not> is_timer_of evt (ni_refresh_timer s) \<and>
                 ni_refresh_counter s < ni_retries s
            else \<not> is_api_install evt \<and> \<not> is_api_teardown evt \<and> \<not> is_api_bidding evt \<and> \<not> is_anslp_bidding evt)
     | Ni_pending_teardown \<Rightarrow> unreadable (body_of Anslp_bidding evt))"

lemma ni_close_crash: "ni_inv s \<Longrightarrow> ni_state s = Ni_close \<Longrightarrow>
   no_crash (ni_handle_state_close d evt (s, w)) \<longleftrightarrow> \<not> ni_faulty evt s"
  by (cases "api_create_of evt")
    (simp_all add: ni_handle_state_close_def ni_setup_session_def wp Let_def ni_faulty_def word_neq_0_conv)

lemma ni_pending_crash:
  assumes "ni_inv s" "ni_state s = Ni_pending"
  shows "no_crash (ni_handle_state_pending d evt (s, w)) \<longleftrightarrow> \<not> ni_faulty evt s"
proof (cases "ni_faulty evt s")
  case False
  then show ?thesis using assms
    unfolding ni_handle_state_pending_def ni_response_timeout_pending_def ni_response_pending_def ni_send_teardown_def
    by (auto simp: wp Let_def ni_inv_def ni_faulty_def intro!: wp_intro dest: is_response_has_body)
next
  case True
  then obtain m resp where resp: "ni_last_create_msg s = Some m" "body_of Anslp_response evt = Some resp"
    "is_anslp_response evt m" "is_success resp" "get_mspec_objects resp = None"
    using assms(2) by (auto simp: ni_faulty_def split: option.splits)
  obtain c where c: "cast_msg Anslp_create m = Some c" using assms resp(1) by (auto simp: ni_inv_def)
  show ?thesis using True resp is_response_same_msn(1) [OF resp(3,2) c] c body_of_only [OF resp(2)]
    by (simp add: ni_handle_state_pending_def ni_response_pending_def wp Let_def)
qed

lemma ni_installing_crash:
  "ni_inv s \<Longrightarrow> ni_state s = Ni_pending_installing \<Longrightarrow> no_crash (ni_handle_state_pending_installing d evt (s, w))"
  unfolding ni_handle_state_pending_installing_def ni_response_timeout_installing_def
    ni_remove_install_rule_def ni_api_install_def ni_send_teardown_def
  by (simp add: wp Let_def) (intro conjI impI allI wp_intro; auto simp: wp ni_inv_def)

lemma ni_anslp_bidding_crash:
  "no_crash (ni_anslp_bidding d st bidding (s, w)) \<longleftrightarrow> get_mspec_objects bidding \<noteq> None"
proof (cases "get_mspec_objects bidding")
  case None
  then show ?thesis
    unfolding ni_anslp_bidding_def post_ni_catch ni_create_auction_rule_def by (simp add: wp)
qed (auto intro!: wp_intro)

lemma ni_begin_teardown_crash: "no_crash (ni_begin_teardown d (s, w)) \<longleftrightarrow> rule s \<noteq> None"
  by (auto simp: ni_begin_teardown_def wp Let_def intro!: wp_intro)

lemma ni_auctioning_crash:
  assumes "ni_inv s" "ni_state s = Ni_auctioning"
  shows "no_crash (ni_handle_state_auctioning d evt (s, w)) \<longleftrightarrow> \<not> ni_faulty evt s"
proof -
  have inv: "rule s \<noteq> None" "ni_mri s \<noteq> None" "\<And>m. ni_last_refresh_msg s = Some m \<Longrightarrow> cast_msg Anslp_refresh m \<noteq> None"
    using assms by (auto simp: ni_inv_def)
  show ?thesis
    unfolding ni_handle_state_auctioning_def ni_refresh_timeout_def ni_response_timeout_auctioning_def
      ni_api_teardown_auctioning_def ni_api_bidding_def ni_response_auctioning_def ni_faulty_def
    using inv
    by (simp add: wp Let_def ni_anslp_bidding_crash ni_begin_teardown_crash assms, cases "ev_data evt")
      (auto simp: event_pred_defs unreadable_def split: option.splits if_splits)
qed

lemma ni_teardown_crash:
  assumes "ni_inv s" "ni_state s = Ni_pending_teardown"
  shows "no_crash (ni_handle_state_pending_teardown d evt (s, w)) \<longleftrightarrow> \<not> ni_faulty evt s"
proof -
  have inv: "ni_mri s \<noteq> None" "rule s \<noteq> None" using assms by (auto simp: ni_inv_def)
  have timeout: "no_crash (ni_response_timeout_teardown d (s, w))"
    by (auto simp: ni_response_timeout_teardown_def wp Let_def intro!: wp_intro)
  show ?thesis
    unfolding ni_handle_state_pending_teardown_def ni_api_bidding_def ni_faulty_def
    using inv timeout
    by (simp add: wp Let_def ni_anslp_bidding_crash assms, cases "ev_data evt")
      (auto simp: event_pred_defs unreadable_def split: option.splits if_splits)
qed

text \<open>
  A handler of the initiator stops the process exactly in the cases listed by \<open>ni_faulty\<close>, whatever the
  configuration, the installer and the event; in the installing state no event does.
\<close>

lemma ni_handler_crash:
  assumes "ni_inv s"
  shows "crashed (fst (ni_process_event d evt (s, w))) \<longleftrightarrow> ni_faulty evt s"
proof -
  have "no_crash (ni_process_event d evt (s, w)) = no_crash (ni_handle d evt (s, w))"
    by (simp add: ni_process_event_def wp split_beta)
  also have "\<dots> \<longleftrightarrow> \<not> ni_faulty evt s"
    using assms by (cases "ni_state s")
      (simp_all add: ni_handle_def ni_close_crash ni_pending_crash ni_installing_crash ni_auctioning_crash
        ni_teardown_crash, simp add: ni_faulty_def)
  finally show ?thesis by (simp add: crashed_post)
qed

text \<open>
  C7: the invariant of the initiator holds for a new session and is kept by every event that is
  processed; the session id never changes, also when the handler throws or stops.
\<close>

theorem ni_invariant:
  "ni_inv (new_ni_session i c random garbage) \<and>
   (ni_inv s \<longrightarrow>
      post (\<lambda>_ (s', w'). ni_inv s' \<and> sess_id s' = sess_id s) (\<lambda>_ (s', w'). sess_id s' = sess_id s)
        (\<lambda>_ (s', w'). sess_id s' = sess_id s) (ni_process_event d evt (s, w)))"
  using ni_inv_new ni_process_keeps [of s d evt w] by (auto simp: case_prod_unfold)

end
