(* ===== verification/Ni_Properties.thy ===== *)
theory Ni_Properties
  imports Ni_Session
begin

text \<open>
  What the initiator's handlers do: the CREATE that a request of the application produces, the
  retransmission of unanswered CREATEs, and the abstract state machine that the handlers refine.
\<close>

section \<open>The CREATE message\<close>

lemma wf_object_copies: "\<forall>obj \<in> set l. wf_object obj \<Longrightarrow> map object_copy l = l"
  by (simp add: map_idI wf_copy)

lemma wf_snd_copies: "\<forall>obj \<in> snd ` set l. wf_object obj \<Longrightarrow> map (object_copy \<circ> snd) l = map snd l"
  by (simp add: wf_copy)

lemma ni_create_of_facts:
  assumes "\<forall>obj \<in> set objs. wf_object obj \<and> is_mspec obj" "length objs \<le> mspec_limit"
  shows "wf_msg (ni_create_of e objs lt n hops)"
    "find_session_lifetime (ni_create_of e objs lt n hops) = Some (min lt (ac_session_lifetime e))"
    "find_msg_sequence_number (ni_create_of e objs lt n hops) = Some n"
    "find_selection_auctioning_entities (ni_create_of e objs lt n hops) = Some (ac_sel_auct_entities e)"
    "find_message_hop_count (ni_create_of e objs lt n hops) = Some hops"
    "get_mspec_objects (ni_create_of e objs lt n hops) = Some objs"
    "create_check (ni_create_of e objs lt n hops)"
proof -
  have copies: "map object_copy objs = objs" using assms(1) by (simp add: wf_object_copies)
  note laws = set_mspec_list_laws [of "set_message_hop_count hops
    (set_selection_auctioning_entities (ac_sel_auct_entities e)
       (set_msg_sequence_number n (set_session_lifetime (min lt (ac_session_lifetime e)) new_anslp_create)))" objs]
  show wf: "wf_msg (ni_create_of e objs lt n hops)"
    and "find_session_lifetime (ni_create_of e objs lt n hops) = Some (min lt (ac_session_lifetime e))"
    and "find_msg_sequence_number (ni_create_of e objs lt n hops) = Some n"
    and "find_selection_auctioning_entities (ni_create_of e objs lt n hops) = Some (ac_sel_auct_entities e)"
    and "find_message_hop_count (ni_create_of e objs lt n hops) = Some hops"
    and "get_mspec_objects (ni_create_of e objs lt n hops) = Some objs"
    using laws assms by (simp_all add: ni_create_of_def copies)
  then show "create_check (ni_create_of e objs lt n hops)"
    using find_has_type [OF wf] by (simp add: create_check_def)
qed

definition api_mri :: "'m api_create_event \<Rightarrow> mri" where
  "api_mri e = Mri_pathcoupled
     \<lparr>sourceaddress = ac_source_addr e, sourceprefix = 32, sourceport = ac_source_port e,
      destaddress = ac_dest_addr e, destprefix = 32, destport = ac_dest_port e,
      protocol = ac_protocol e, flowlabel = 0, ds_field = 0, spi = 0, downstream = True\<rparr>"

definition ni_first_create :: "'m api_create_event \<Rightarrow> 'm ni_session \<Rightarrow> 'm anslp_msg" where
  "ni_first_create e s =
     ni_create_of e (map snd (ac_mspec_objects e)) (ac_session_lifetime e) (msn s + 1) (msg_hop_count s)"

lemma ni_first_create_facts:
  assumes "wf_object_list P (ac_mspec_objects e)" "length (ac_mspec_objects e) \<le> mspec_limit"
  shows "wf_msg (ni_first_create e s)" "msg_class (ni_first_create e s) = Anslp_create" "create_check (ni_first_create e s)"
    "find_session_lifetime (ni_first_create e s) = Some (ac_session_lifetime e)"
    "find_msg_sequence_number (ni_first_create e s) = Some (next_msg_sequence_number (msn s))"
    "find_selection_auctioning_entities (ni_first_create e s) = Some (ac_sel_auct_entities e)"
    "find_message_hop_count (ni_first_create e s) = Some (msg_hop_count s)"
    "get_mspec_objects (ni_first_create e s) = Some (map snd (ac_mspec_objects e))"
proof -
  have wf: "\<forall>obj \<in> set (map snd (ac_mspec_objects e)). wf_object obj \<and> is_mspec obj"
    and len: "length (map snd (ac_mspec_objects e)) \<le> mspec_limit"
    using assms by (auto simp: wf_object_list_def)
  show "wf_msg (ni_first_create e s)" "msg_class (ni_first_create e s) = Anslp_create" "create_check (ni_first_create e s)"
    "find_session_lifetime (ni_first_create e s) = Some (ac_session_lifetime e)"
    "find_msg_sequence_number (ni_first_create e s) = Some (next_msg_sequence_number (msn s))"
    "find_selection_auctioning_entities (ni_first_create e s) = Some (ac_sel_auct_entities e)"
    "find_message_hop_count (ni_first_create e s) = Some (msg_hop_count s)"
    "get_mspec_objects (ni_first_create e s) = Some (map snd (ac_mspec_objects e))"
    using ni_create_of_facts [OF wf len, of e "ac_session_lifetime e" "msn s + 1" "msg_hop_count s"]
    by (simp_all add: ni_first_create_def next_msg_sequence_number_def)
qed

lemma ni_create_step:
  assumes "ni_state s = Ni_close" "ev_data evt = Api_create_event e" "ac_return_queue e"
    and "ac_session_lifetime e \<noteq> 0" "refresh_seconds (ac_session_lifetime e) (ni_retries s) \<noteq> 0"
    and "wf_object_list (plat d) (ac_mspec_objects e)"
    and "m = new_ntlp_msg (sess_id s) (ni_first_create e s) (api_mri e) 0"
  shows "\<exists>s' w'. ni_process_event d evt (s, w) = (Ok (), s', w') \<and> ni_state s' = Ni_pending \<and>
    sent w' = sent w @ [m] \<and> ni_last_create_msg s' = Some m \<and> ni_lifetime s' = ac_session_lifetime e \<and>
    ni_response_timer s' = timer_msg_id (plat d) (timers_made w)"
proof -
  have copies: "map (object_copy \<circ> snd) (ac_mspec_objects e) = map snd (ac_mspec_objects e)"
    using assms(6) by (simp add: wf_object_list_def wf_copy)
  have create: "api_create_of evt = Some e" using assms(2) by (simp add: api_create_of_def)
  have "post (\<lambda>st (s', w'). st = Ni_pending \<and> sent w' = sent w @ [m] \<and> ni_last_create_msg s' = Some m \<and>
      ni_lifetime s' = ac_session_lifetime e \<and> ni_response_timer s' = timer_msg_id (plat d) (timers_made w))
    (\<lambda>_ _. False) (\<lambda>_ _. False) (ni_handle_state_close d evt (s, w))"
    using assms create
    by (simp add: ni_handle_state_close_def ni_setup_session_def wp Let_def api_mri_def word_neq_0_conv ni_first_create_def)
      (simp only: copies)
  then obtain s' w' where "ni_handle_state_close d evt (s, w) = (Ok Ni_pending, s', w')"
    and "sent w' = sent w @ [m]" "ni_last_create_msg s' = Some m" "ni_lifetime s' = ac_session_lifetime e"
      "ni_response_timer s' = timer_msg_id (plat d) (timers_made w)"
    by (elim post_returns) auto
  then show ?thesis using assms(1) by (simp add: ni_process_event_def ni_handle_def)
qed

text \<open>
  C28: a request of the application with a usable lifetime makes a closed initiator send exactly one message, a CREATE
  that passes its own check, towards the destination of the request: with the requested lifetime, the next sequence
  number of the session, the requested selection of auctioning entities, the configured hop count, and
  the mspec objects of the request in their order. The session waits in the pending state, keeps the
  message for retransmission and has its response timer running.
\<close>

theorem ni_api_create:
  assumes "ni_state s = Ni_close" "ev_data evt = Api_create_event e" "ac_return_queue e"
    and "ac_session_lifetime e \<noteq> 0" "refresh_seconds (ac_session_lifetime e) (ni_retries s) \<noteq> 0"
    and "wf_object_list (plat d) (ac_mspec_objects e)" "length (ac_mspec_objects e) \<le> mspec_limit"
  shows "\<exists>s' w' m c. ni_process_event d evt (s, w) = (Ok (), s', w') \<and>
    ni_state s' = Ni_pending \<and> sent w' = sent w @ [m] \<and> ni_last_create_msg s' = Some m \<and>
    sid m = sess_id s \<and> routing_info m = api_mri e \<and> msg m = Some c \<and> msg_class c = Anslp_create \<and> create_check c \<and>
    find_session_lifetime c = Some (ac_session_lifetime e) \<and>
    find_msg_sequence_number c = Some (next_msg_sequence_number (msn s)) \<and>
    find_selection_auctioning_entities c = Some (ac_sel_auct_entities e) \<and>
    find_message_hop_count c = Some (msg_hop_count s) \<and>
    get_mspec_objects c = Some (map snd (ac_mspec_objects e)) \<and>
    ni_lifetime s' = ac_session_lifetime e \<and>
    ni_response_timer s' = timer_msg_id (plat d) (timers_made w)"
proof -
  let ?m = "new_ntlp_msg (sess_id s) (ni_first_create e s) (api_mri e) 0"
  have "sid ?m = sess_id s" "routing_info ?m = api_mri e" "msg ?m = Some (ni_first_create e s)"
    by (simp_all add: new_ntlp_msg_def)
  then show ?thesis
    using ni_create_step [OF assms(1-6) refl, of w] ni_first_create_facts [OF assms(6,7), of s] by blast
qed

section \<open>Retransmission\<close>

text \<open>The response timer expires \<open>n\<close> times in a row.\<close>

definition timer_event :: "session_id \<Rightarrow> timer \<Rightarrow> 'm event" where
  "timer_event i t = \<lparr>ev_sid = Some i, ev_data = Timer_event t\<rparr>"

fun ni_expire :: "'m dispatcher \<Rightarrow> nat \<Rightarrow> 'm ni_session \<times> 'm world \<Rightarrow> ('m, unit) ni_step" where
  "ni_expire d 0 sw = (Ok (), sw)"
| "ni_expire d (Suc n) sw =
     call (ni_process_event d (timer_event (sess_id (fst sw)) (ni_response_timer (fst sw))) sw)
       (\<lambda>_. ni_expire d n)"

lemma timer_event_preds [simp]:
  "is_timer_of (timer_event i t) t' \<longleftrightarrow> t = t'" "is_timer (timer_event i t)"
  by (simp_all add: timer_event_def is_timer_of_def is_timer_def)

definition ni_resent :: "'m dispatcher \<Rightarrow> 'm ntlp_msg \<Rightarrow> 'm ni_session \<times> 'm world \<Rightarrow> 'm ni_session \<times> 'm world" where
  "ni_resent d m = (\<lambda>(s, w). (s\<lparr>ni_create_counter := ni_create_counter s + 1,
     ni_response_timer := timer_msg_id (plat d) (timers_made w), ni_state := Ni_pending\<rparr>,
     started d (sess_id s) (ni_resp_timeout s) (emit (Send_message m) w)))"

lemma ni_timeout_resend:
  assumes "ni_state s = Ni_pending" "ni_last_create_msg s = Some m" "ni_create_counter s < ni_retries s"
  shows "ni_process_event d (timer_event i (ni_response_timer s)) (s, w) = (Ok (), ni_resent d m (s, w))"
  using assms
  by (simp add: ni_process_event_def ni_handle_def ni_handle_state_pending_def ni_response_timeout_pending_def
      Let_def ni_resent_def)

lemma ni_timeout_give_up:
  assumes "ni_state s = Ni_pending" "\<not> ni_create_counter s < ni_retries s"
  shows "ni_process_event d (timer_event i (ni_response_timer s)) (s, w) =
    (Ok (), s\<lparr>ni_state := Ni_close\<rparr>, emit (Report_async_event ''got no response for our Create Message'') w)"
  using assms
  by (simp add: ni_process_event_def ni_handle_def ni_handle_state_pending_def ni_response_timeout_pending_def)

lemma ni_expire_pending:
  "ni_state s = Ni_pending \<Longrightarrow> ni_last_create_msg s = Some m \<Longrightarrow>
   unat (ni_create_counter s) + n \<le> unat (ni_retries s) \<Longrightarrow>
   \<exists>s' w'. ni_expire d n (s, w) = (Ok (), s', w') \<and> sent w' = sent w @ replicate n m \<and>
     ni_state s' = Ni_pending \<and> ni_last_create_msg s' = Some m \<and> ni_retries s' = ni_retries s \<and>
     unat (ni_create_counter s') = unat (ni_create_counter s) + n"
proof (induction n arbitrary: s w)
  case 0
  then show ?case by simp
next
  case (Suc n)
  then have less: "ni_create_counter s < ni_retries s" by (simp add: word_less_nat_alt)
  obtain s1 w1 where step: "ni_resent d m (s, w) = (s1, w1)" by fastforce
  have "unat (ni_create_counter s + 1) = unat (ni_create_counter s) + 1"
    using less by (rule unat_inc)
  then have s1: "ni_state s1 = Ni_pending" "ni_last_create_msg s1 = Some m" "ni_retries s1 = ni_retries s"
    "unat (ni_create_counter s1) = unat (ni_create_counter s) + 1" "sent w1 = sent w @ [m]"
    using step Suc.prems by (auto simp: ni_resent_def)
  then show ?case
    using Suc.IH [of s1 w1] Suc.prems ni_timeout_resend [OF Suc.prems(1,2) less] step by simp
qed

lemma ni_expire_last: "ni_expire d (Suc n) sw = call (ni_expire d n sw) (\<lambda>_. ni_expire d 1)"
proof (induction n arbitrary: sw)
  case (Suc n)
  let ?r = "ni_process_event d (timer_event (sess_id (fst sw)) (ni_response_timer (fst sw))) sw"
  have "ni_expire d (Suc (Suc n)) sw = call ?r (\<lambda>_ sw. call (ni_expire d n sw) (\<lambda>_. ni_expire d 1))"
    unfolding ni_expire.simps(2) [of d "Suc n"] by (rule arg_cong [where f = "call ?r"]) (simp add: Suc.IH fun_eq_iff del: ni_expire.simps)
  moreover have "call (ni_expire d (Suc n) sw) (\<lambda>_. ni_expire d 1) =
      call ?r (\<lambda>_ sw. call (ni_expire d n sw) (\<lambda>_. ni_expire d 1))"
    by (cases ?r rule: call_cases) simp_all
  ultimately show ?case by (simp only:)
qed simp

text \<open>
  C29: when a CREATE is never answered, the initiator sends it again at each of the remaining
  retries and gives up at the next expiry: after exactly that many expiries of the response timer it is closed, has
  sent the stored CREATE once for each retry and nothing else, and has reported the failure.
\<close>

theorem ni_create_retries:
  assumes "ni_inv s" "ni_state s = Ni_pending" "ni_last_create_msg s = Some m"
    and "n = unat (ni_retries s) - unat (ni_create_counter s)"
  shows "\<exists>s' w'. ni_expire d (n + 1) (s, w) = (Ok (), s', w') \<and> ni_is_final s' \<and>
    sent w' = sent w @ replicate n m \<and>
    last (trace w') = Report_async_event ''got no response for our Create Message''"
proof -
  have "unat (ni_create_counter s) \<le> unat (ni_retries s)"
    using assms(1) by (simp add: ni_inv_def word_le_nat_alt)
  then obtain s1 w1 where run: "ni_expire d n (s, w) = (Ok (), s1, w1)"
    and s1: "sent w1 = sent w @ replicate n m" "ni_state s1 = Ni_pending" "\<not> ni_create_counter s1 < ni_retries s1"
    using ni_expire_pending [OF assms(2,3), of n d w] assms(4) by (auto simp: word_less_nat_alt)
  have "ni_expire d (n + 1) (s, w) = ni_expire d 1 (s1, w1)"
    by (simp only: Suc_eq_plus1 [symmetric] ni_expire_last run call_simps)
  then show ?thesis
    using s1 ni_timeout_give_up [OF s1(2,3)] by (simp add: ni_is_final_def)
qed

section \<open>The response\<close>

lemma ni_response_step:
  assumes "ni_inv s" "ni_state s = Ni_pending" "ni_last_create_msg s = Some m" "body_of Anslp_response evt = Some resp"
    and "is_anslp_response evt m" "is_success resp" "get_mspec_objects resp \<noteq> None"
  shows "post (\<lambda>_ (s', w'). (\<exists>r w1. fst (send_response d (session_id_to_string (sess_id s)) (Some r) w1) = Ok ()) \<and>
      ni_state s' = Ni_pending_installing \<and> ni_lifetime s' = get_session_lifetime resp \<and> sent w' = sent w)
    (\<lambda>e (s', w'). (\<exists>r w1. fst (send_response d (session_id_to_string (sess_id s)) (Some r) w1) = Throw e) \<and> sent w' = sent w)
    (\<lambda>_ _. False) (ni_process_event d evt (s, w))"
proof -
  obtain c where c: "cast_msg Anslp_create m = Some c" using assms(1-3) by (auto simp: ni_inv_def)
  have svc: "post Q E F (service (send_response d i (Some r)) (s1, wa))"
    if "\<And>w'. same_actions wa w' \<Longrightarrow> fst (send_response d i (Some r) wa) = Ok () \<Longrightarrow> Q () (s1, w')"
      "\<And>e w'. same_actions wa w' \<Longrightarrow> fst (send_response d i (Some r) wa) = Throw e \<Longrightarrow> E e (s1, w')"
    for Q E F i r and s1 :: "'a ni_session" and wa
    using that
    by (cases rule: installer_service.svc_cases [OF response_svc.installer_service_axioms, of d i r wa])
      (simp_all add: service_def same_actions_def)
  show ?thesis
    using assms(2-7) c is_response_same_msn(1) [OF assms(5,4) c] body_of_only [OF assms(4)]
    by (simp add: ni_process_event_def ni_handle_def ni_handle_state_pending_def ni_response_pending_def wp Let_def
        split_beta) (intro conjI impI allI svc; auto dest: same_actions_sent)
qed

text \<open>
  C34: a success response to the pending CREATE moves the initiator on to the installing state, with the lifetime that the
  response grants, exactly when the installer takes the rules of the response: the installer that does nothing always does,
  the network installer on a node that is configured as an auctioneer when its queue takes the event, which then is in the
  queue. In every other case, always on a node that is not an auctioneer, the handler throws, so that the session is
  dropped, and nothing is queued. Nothing is sent in any case.
\<close>

theorem ni_response_accepted:
  assumes "ni_inv s" "ni_state s = Ni_pending" "ni_last_create_msg s = Some m" "body_of Anslp_response evt = Some resp"
    and "is_anslp_response evt m" "is_success resp" "get_mspec_objects resp = Some objs"
    and "i = session_id_to_string (sess_id s)" "r = fst (install_rule_of d objs w)"
  shows "\<exists>s' w'. ni_process_event d evt (s, w) = (if put_taken d i r w then Ok () else Throw wrong_conf_message, s', w') \<and>
    sent w' = sent w \<and> (put_taken d i r w \<longrightarrow> ni_state s' = Ni_pending_installing \<and> ni_lifetime s' = get_session_lifetime resp) \<and>
    (if put_taken d i r w \<and> rule_installer d = Netauct_rule_installer
     then enqueue_element (plat d) (install_queue w) (build_event (plat d) Create_session i (object_requests r)) = Some (install_queue w')
     else install_queue w' = install_queue w)"
proof -
  obtain c where c: "cast_msg Anslp_create m = Some c" using assms(1-3) by (auto simp: ni_inv_def)
  let ?w1 = "started d (sess_id s) (ni_resp_timeout s) (emit (Report_async_event ''CREATE session initiated'') w)"
  have r: "fst (install_rule_of d objs ?w1) = r" unfolding assms(9) by (rule install_rule_of_cong) simp
  have "post (\<lambda>_ (s', w'). put_taken d i r w \<and> sent w' = sent w \<and> ni_state s' = Ni_pending_installing \<and>
      ni_lifetime s' = get_session_lifetime resp \<and>
      install_queue w' = install_queue (snd (send_response d i (Some r) w)))
    (\<lambda>e (s', w'). e = wrong_conf_message \<and> \<not> put_taken d i r w \<and> sent w' = sent w \<and> install_queue w' = install_queue w)
    (\<lambda>_ _. False) (ni_process_event d evt (s, w))"
    using assms(2-8) c is_response_same_msn(1) [OF assms(5,4) c] body_of_only [OF assms(4)]
    by (simp add: ni_process_event_def ni_handle_def ni_handle_state_pending_def ni_response_pending_def wp Let_def
        split_beta service_def send_response_exact r put_taken_def queue_takes_def)
  then show ?thesis
    by (cases "ni_process_event d evt (s, w)" rule: call_cases; cases "rule_installer d")
      (auto simp: send_response_exact put_taken_def queue_takes_def split: if_splits)
qed

text \<open>
  When the application tears the session down while the installation is pending, the initiator sends a
  REFRESH with lifetime 0 and closes, but the rules that it has handed to the installer are never removed
  again: the queue to the auctioning application is unchanged.
\<close>

theorem ni_abort_leaves_rules:
  assumes "ni_inv s" "ni_state s = Ni_pending_installing" "is_api_teardown evt"
  shows "\<exists>s' w' m c. ni_process_event d evt (s, w) = (Ok (), s', w') \<and> ni_is_final s' \<and>
    sent w' = sent w @ [m] \<and> msg m = Some c \<and> msg_class c = Anslp_refresh \<and> find_session_lifetime c = Some 0 \<and>
    install_queue w' = install_queue w"
proof -
  obtain r p where inv: "ni_last_auction_install_rule s = Some r" "object_responses r = []" "ni_mri s = Some p"
    using assms(1,2) by (auto simp: ni_inv_def)
  have "post (\<lambda>_ (s', w'). ni_is_final s' \<and> (\<exists>m c. sent w' = sent w @ [m] \<and> msg m = Some c \<and> msg_class c = Anslp_refresh \<and>
      find_session_lifetime c = Some 0) \<and> install_queue w' = install_queue w) (\<lambda>_ _. False) (\<lambda>_ _. False)
      (ni_process_event d evt (s, w))"
    using assms(2,3) inv teardown_only [OF assms(3)]
    by (simp add: ni_process_event_def ni_handle_def ni_handle_state_pending_installing_def ni_remove_install_rule_def
        ni_send_teardown_def wp Let_def get_number_mspec_response_objects_def ni_is_final_def new_ntlp_msg_def
        ni_refresh_of_def)
  then show ?thesis by (elim post_returns) auto
qed

section \<open>The abstract state machine\<close>

text \<open>
  The protocol as the initiator follows it: from a state, on an event of a kind, the classes of the
  messages sent and the next state. Conditions on data (retries left, code of a response, number
  of installed objects) are left open.
\<close>

inductive ni_spec :: "ni_state \<Rightarrow> label \<Rightarrow> msg_class option list \<Rightarrow> ni_state \<Rightarrow> bool" where
  ni_request: "ni_spec Ni_close L_create [Some Anslp_create] Ni_pending"
| ni_request_no_queue: "ni_spec Ni_close L_create [Some Anslp_create] Ni_close"
| ni_resend: "ni_spec Ni_pending L_timer [Some Anslp_create] Ni_pending"
| ni_unanswered: "ni_spec Ni_pending L_timer [] Ni_close"
| ni_no_next_node: "ni_spec Ni_pending L_no_next_node [] Ni_close"
| ni_accepted: "ni_spec Ni_pending (L_msg Anslp_response) [] Ni_pending_installing"
| ni_refused: "ni_spec Ni_pending (L_msg Anslp_response) [] Ni_close"
| ni_abort: "st = Ni_pending \<or> st = Ni_pending_installing \<Longrightarrow> ni_spec st L_teardown [Some Anslp_refresh] Ni_close"
| ni_installed: "ni_spec Ni_pending_installing L_install [] Ni_auctioning"
| ni_not_installed: "l = L_install \<or> l = L_timer \<Longrightarrow> ni_spec Ni_pending_installing l [Some Anslp_refresh] Ni_close"
| ni_refresh: "l = L_timer \<or> l = L_teardown \<Longrightarrow> ni_spec Ni_auctioning l [Some Anslp_refresh] Ni_auctioning"
| ni_died: "l = L_timer \<or> l = L_msg Anslp_response \<Longrightarrow> st = Ni_close \<or> st = Ni_pending_teardown \<Longrightarrow>
    ni_spec Ni_auctioning l [] st"
| ni_bid: "st = Ni_auctioning \<or> st = Ni_pending_teardown \<Longrightarrow> ni_spec st L_bidding [Some Anslp_bidding] st"
| ni_removed: "l = L_timer \<or> l = L_remove \<Longrightarrow> ni_spec Ni_pending_teardown l [] Ni_close"
| ni_stay: "st = Ni_close \<longrightarrow> l \<noteq> L_create \<Longrightarrow> ni_spec st l [] st"

inductive_simps ni_spec_auctioning: "ni_spec st l ms Ni_auctioning"

definition ni_follows :: "label \<Rightarrow> 'm ni_session \<Rightarrow> 'm world \<Rightarrow> ni_state \<Rightarrow> 'm ni_session \<times> 'm world \<Rightarrow> bool" where
  "ni_follows l s w st sw = ni_spec (ni_state s) l (sent_classes w (snd sw)) st"

abbreviation ni_refines :: "label \<Rightarrow> 'm ni_session \<Rightarrow> 'm world \<Rightarrow> ('m, ni_state) ni_step \<Rightarrow> bool" where
  "ni_refines l s w \<equiv> post (ni_follows l s w) (\<lambda>_ _. True) (\<lambda>_ _. True)"

lemmas ni_follows_simps = ni_follows_def sent_classes_simps label_of_simps label_of_none ni_spec.intros

lemma ni_close_refines: "ni_state s = Ni_close \<Longrightarrow> ni_refines (label_of evt) s w (ni_handle_state_close d evt (s, w))"
  by (cases "api_create_of evt")
    (simp_all add: ni_handle_state_close_def ni_setup_session_def wp Let_def ni_follows_simps label_of_some)

lemma ni_pending_refines:
  "ni_inv s \<Longrightarrow> ni_state s = Ni_pending \<Longrightarrow> ni_refines (label_of evt) s w (ni_handle_state_pending d evt (s, w))"
  unfolding ni_handle_state_pending_def ni_response_timeout_pending_def ni_response_pending_def ni_send_teardown_def
  by (simp add: wp Let_def) (intro conjI impI allI wp_intro;
      auto simp: ni_follows_simps ni_inv_def dest: msg_class_cast same_actions_sent dest!: label_of_some)

lemma ni_installing_refines:
  "ni_inv s \<Longrightarrow> ni_state s = Ni_pending_installing \<Longrightarrow>
   ni_refines (label_of evt) s w (ni_handle_state_pending_installing d evt (s, w))"
  unfolding ni_handle_state_pending_installing_def ni_response_timeout_installing_def
    ni_remove_install_rule_def ni_api_install_def ni_send_teardown_def
  by (simp add: wp Let_def) (intro conjI impI allI wp_intro;
      auto simp: wp ni_follows_simps ni_inv_def dest: same_actions_sent dest!: label_of_some)

lemma ni_begin_teardown_refines [wp_intro]:
  "ni_state s = Ni_auctioning \<Longrightarrow> l = L_timer \<or> l = L_msg Anslp_response \<Longrightarrow> sent w' = sent w \<Longrightarrow>
   ni_refines l s w (ni_begin_teardown d (s', w'))"
  by (auto simp: ni_begin_teardown_def wp Let_def ni_follows_simps dest: same_actions_sent intro!: wp_intro)

lemma ni_auctioning_refines:
  "ni_inv s \<Longrightarrow> ni_state s = Ni_auctioning \<Longrightarrow> ni_refines (label_of evt) s w (ni_handle_state_auctioning d evt (s, w))"
  unfolding ni_handle_state_auctioning_def ni_refresh_timeout_def ni_response_timeout_auctioning_def
    ni_api_teardown_auctioning_def ni_api_bidding_def ni_response_auctioning_def
  by (simp add: wp Let_def) (intro conjI impI allI wp_intro;
      auto simp: ni_follows_simps ni_inv_def dest: msg_class_cast same_actions_sent dest!: label_of_some)

lemma ni_teardown_refines:
  "ni_inv s \<Longrightarrow> ni_state s = Ni_pending_teardown \<Longrightarrow>
   ni_refines (label_of evt) s w (ni_handle_state_pending_teardown d evt (s, w))"
  unfolding ni_handle_state_pending_teardown_def ni_response_timeout_teardown_def ni_api_bidding_def
  by (simp add: wp Let_def) (intro conjI impI allI wp_intro;
      auto simp: ni_follows_simps dest: same_actions_sent dest!: label_of_some)

lemma ni_handle_refines: "ni_inv s \<Longrightarrow> ni_refines (label_of evt) s w (ni_handle d evt (s, w))"
  by (cases "ni_state s") (simp_all add: ni_handle_def ni_close_refines ni_pending_refines ni_installing_refines
      ni_auctioning_refines ni_teardown_refines)

text \<open>
  C10: every event that an initiator session processes is a step of the abstract state machine \<open>ni_spec\<close>,
  which fixes the next state and the classes of the messages that are sent. In particular
  the auctioning state is entered only from the installing state, when the application reports the installed
  objects.
\<close>

theorem ni_refines_spec:
  assumes "ni_inv s" "ni_process_event d evt (s, w) = (Ok (), s', w')"
  shows "ni_spec (ni_state s) (label_of evt) (sent_classes w w') (ni_state s') \<and>
    (ni_state s' = Ni_auctioning \<longrightarrow> ni_state s = Ni_auctioning \<or>
       ni_state s = Ni_pending_installing \<and> label_of evt = L_install \<and> sent_classes w w' = [])"
proof -
  obtain st s1 where "ni_handle d evt (s, w) = (Ok st, s1, w')" "s' = s1\<lparr>ni_state := st\<rparr>"
    using assms(2) by (auto simp: ni_process_event_def split: call_splits)
  with ni_handle_refines [OF assms(1), of evt w d]
  have "ni_spec (ni_state s) (label_of evt) (sent_classes w w') (ni_state s')" by (simp add: ni_follows_def)
  then show ?thesis by (auto simp: ni_spec_auctioning)
qed

end
