(* ===== verification/Nf_Session.thy ===== *)
theory Nf_Session
  imports Example_Node
begin

text \<open>
  The forwarder's state machine, \<open>nf_session\<close> (\<open>src/src/nf_session.cpp\<close>,
  \<open>src/include/nf_session.h\<close>), in the style of \<open>Ni_Session\<close>. The saved response event is kept as
  its NTLP message, the only part that is read again.
\<close>

datatype nf_state = Nf_close | Nf_pending_check | Nf_pending | Nf_pending_installing | Nf_auctioning
  | Nf_pending_teardown

record 'm nf_session = "'m session" +
  nf_state :: nf_state
  nf_msn_bidding :: u32
  nf_lifetime :: u32
  nf_max_lifetime :: u32
  nf_resp_timeout :: u32
  nf_state_timer :: timer
  nf_response_timer :: timer
  nf_ni_mri :: "mri_pathcoupled option"
  nf_nr_mri :: "mri_pathcoupled option"
  nf_create_message :: "'m ntlp_msg option"
  nf_refresh_message :: "'m ntlp_msg option"
  nf_response_message :: "'m ntlp_msg option"

text \<open>\<open>msg_hop_count\<close> is not initialised by the constructor (\<open>garbage\<close>) and never read.\<close>

definition new_nf_session :: "session_id \<Rightarrow> u32 \<Rightarrow> u32 \<Rightarrow> 'm nf_session" where
  "new_nf_session i random garbage =
     \<lparr>rule = Some new_auction_rule, sess_id = i, session_type = St_forwarder, msn = 0,
      msg_hop_count = garbage,
      nf_state = Nf_close, nf_msn_bidding = random, nf_lifetime = 0, nf_max_lifetime = 0,
      nf_resp_timeout = 0, nf_state_timer = 0, nf_response_timer = 0, nf_ni_mri = None,
      nf_nr_mri = None, nf_create_message = None, nf_refresh_message = None,
      nf_response_message = None\<rparr>"

definition nf_is_final :: "'m nf_session \<Rightarrow> bool" where
  "nf_is_final s = (nf_state s = Nf_close)"

type_synonym ('m, 'a) nf_step = "(exn, 'a) outcome \<times> 'm nf_session \<times> 'm world"

definition nf_start_state_timer :: "'m dispatcher \<Rightarrow> u32 \<Rightarrow> 'm nf_session \<times> 'm world \<Rightarrow> 'm nf_session \<times> 'm world" where
  "nf_start_state_timer d seconds = (\<lambda>(s, w).
     let (t, w) = timer_start (plat d) (sess_id s) (sint seconds) w
     in (s\<lparr>nf_state_timer := t\<rparr>, w))"

definition nf_start_response_timer :: "'m dispatcher \<Rightarrow> 'm nf_session \<times> 'm world \<Rightarrow> 'm nf_session \<times> 'm world" where
  "nf_start_response_timer d = (\<lambda>(s, w).
     let (t, w) = timer_start (plat d) (sess_id s) (sint (nf_resp_timeout s)) w
     in (s\<lparr>nf_response_timer := t\<rparr>, w))"

definition nf_stop_state_timer :: "'m nf_session \<times> 'm world \<Rightarrow> 'm nf_session \<times> 'm world" where
  "nf_stop_state_timer = (\<lambda>(s, w). (s\<lparr>nf_state_timer := timer_stop\<rparr>, w))"

definition nf_next_msg_bidding_sequence_number :: "u32 \<Rightarrow> u32" where
  "nf_next_msg_bidding_sequence_number n = n + 1"

section \<open>Helpers\<close>

text \<open>\<open>create_msg_for_nr\<close> and \<open>create_msg_for_ni\<close>.\<close>

definition nf_create_msg_for_nr :: "'m ntlp_msg \<Rightarrow> 'm ntlp_msg option" where
  "nf_create_msg_for_nr m = copy_for_forwarding m None"

definition nf_create_msg_for_ni :: "'m ntlp_msg \<Rightarrow> 'm ntlp_msg option" where
  "nf_create_msg_for_ni m = copy_for_forwarding m None"

text \<open>Both functions assert the downstream flag (\<open>None\<close> is the failed assertion).\<close>

definition nf_create_mri_with_dest :: "mri_pathcoupled \<Rightarrow> mri_pathcoupled option" where
  "nf_create_mri_with_dest orig =
     (if downstream orig
      then Some \<lparr>sourceaddress = sourceaddress orig, sourceprefix = sourceprefix orig,
                 sourceport = sourceport orig, destaddress = destaddress orig,
                 destprefix = destprefix orig, destport = destport orig, protocol = protocol orig,
                 flowlabel = flowlabel orig, ds_field = ds_field orig, spi = spi orig,
                 downstream = downstream orig\<rparr>
      else None)"

definition nf_create_mri_inverted :: "'m platform \<Rightarrow> mri_pathcoupled \<Rightarrow> mri_pathcoupled option" where
  "nf_create_mri_inverted P orig = (if downstream orig then Some (invert_pathcoupled P orig) else None)"

definition nf_set_pc_mri :: "'m dispatcher \<Rightarrow> 'm ntlp_msg \<Rightarrow> 'm nf_session \<times> 'm world \<Rightarrow> ('m, unit) nf_step" where
  "nf_set_pc_mri d m = (\<lambda>(s, w). case as_pathcoupled (routing_info m) of
       None \<Rightarrow> (Throw (Request_error 5 9), s, w)
     | Some pc_mri \<Rightarrow>
         if \<not> downstream pc_mri then (Crash Assert_failed, s, w)
         else deref (nf_create_mri_with_dest pc_mri) Assert_failed (s, w) (\<lambda>to_nr.
              let s = s\<lparr>nf_nr_mri := Some to_nr\<rparr>
              in deref (nf_create_mri_inverted (plat d) pc_mri) Assert_failed (s, w) (\<lambda>to_ni.
                   (Ok (), s\<lparr>nf_ni_mri := Some to_ni\<rparr>, w))))"

definition nf_set_auction_rule :: "'m dispatcher \<Rightarrow> 'm anslp_msg \<Rightarrow> 'm nf_session \<times> 'm world
    \<Rightarrow> ('m, 'm anslp_object list \<times> bool) nf_step" where
  "nf_set_auction_rule d create = save_auction_rule d create"

definition nf_create_auction_rule :: "'m dispatcher \<Rightarrow> 'm anslp_msg \<Rightarrow> 'm nf_session \<times> 'm world
    \<Rightarrow> ('m, 'm auction_rule) nf_step" where
  "nf_create_auction_rule d bidding = create_auction_rule d bidding"

text \<open>\<open>build_bidding_message\<close> is part of the class but no handler calls it.\<close>

definition nf_build_bidding_message :: "'m dispatcher \<Rightarrow> 'm object_list \<Rightarrow> 'm nf_session \<times> 'm world \<Rightarrow> ('m, 'm ntlp_msg) nf_step" where
  "nf_build_bidding_message d objs = (\<lambda>(s, w).
     deref (nf_ni_mri s) Assert_failed (s, w) (\<lambda>to_ni.
       let nslp_mri = invertDirection (plat d) (Mri_pathcoupled to_ni);
           n = nf_next_msg_bidding_sequence_number (nf_msn_bidding s);
           s = s\<lparr>nf_msn_bidding := n\<rparr>;
           bidding = set_msg_sequence_number n new_anslp_bidding;
           bidding = set_mspec_list (map (object_copy \<circ> snd) objs) bidding
       in (Ok (new_ntlp_msg (sess_id s) bidding nslp_mri 0), s, w)))"

definition nf_build_create_message :: "'m anslp_msg \<Rightarrow> 'm anslp_object list \<Rightarrow> 'm nf_session \<times> 'm world
    \<Rightarrow> ('m, 'm ntlp_msg) nf_step" where
  "nf_build_create_message c missing = (\<lambda>(s, w).
     deref (nf_nr_mri s) Assert_failed (s, w) (\<lambda>to_nr.
       let create = new_anslp_create;
           create = (if nf_lifetime s \<le> get_session_lifetime c
                     then set_session_lifetime (nf_lifetime s) create
                     else set_session_lifetime (get_session_lifetime c) create);
           create = set_msg_sequence_number (get_msg_sequence_number c) create;
           create = set_selection_auctioning_entities (get_selection_auctioning_entities c) create;
           create = set_message_hop_count (get_message_hop_count c) create;
           create = set_mspec_list (map object_copy missing) create
       in (Ok (new_ntlp_msg (sess_id s) create (Mri_pathcoupled to_nr) 0), s, w)))"

definition nf_build_teardown_message :: "'m nf_session \<times> 'm world \<Rightarrow> ('m, 'm ntlp_msg) nf_step" where
  "nf_build_teardown_message = (\<lambda>(s, w).
     deref (nf_nr_mri s) Assert_failed (s, w) (\<lambda>to_nr.
       let refresh = set_session_lifetime 0 new_anslp_refresh;
           n = next_msg_sequence_number (msn s);
           s = s\<lparr>msn := n\<rparr>;
           refresh = set_msg_sequence_number n refresh
       in (Ok (new_ntlp_msg (sess_id s) refresh (Mri_pathcoupled to_nr) 0), s, w)))"

text \<open>\<open>set_last_response_message\<close> copies the event's session id, which must be there.\<close>

definition nf_set_last_response_message :: "'m event \<Rightarrow> 'm ntlp_msg \<Rightarrow> 'm nf_session \<times> 'm world \<Rightarrow> ('m, unit) nf_step" where
  "nf_set_last_response_message evt m = (\<lambda>(s, w).
     deref (ev_sid evt) Null_deref (s, w) (\<lambda>_. (Ok (), s\<lparr>nf_response_message := Some m\<rparr>, w)))"

text \<open>Forwarding: the copy for the other side calls a method of the body.\<close>

definition nf_forward :: "'m ntlp_msg option \<Rightarrow> 'm nf_session \<times> 'm world \<Rightarrow> ('m, unit) nf_step" where
  "nf_forward m sw = deref m Null_deref sw (\<lambda>m. (Ok (), send m sw))"

section \<open>The state handlers\<close>

text \<open>
  \<open>process_state_close\<close>: the body of its \<open>try\<close> block, and the \<open>catch\<close> clauses that answer a
  \<open>request_error\<close> (of which the installer's error is a subclass) with an error response.
\<close>

definition nf_process_create :: "'m dispatcher \<Rightarrow> 'm ntlp_msg \<Rightarrow> 'm anslp_msg \<Rightarrow> 'm nf_session \<times> 'm world \<Rightarrow> ('m, nf_state) nf_step" where
  "nf_process_create d m c sw =
     call (nf_set_pc_mri d m sw) (\<lambda>_ sw.
     call (nf_set_auction_rule d c sw) (\<lambda>(missing, participating) (s, w).
       if participating
       then deref (as_pathcoupled (routing_info m)) Assert_failed (s, w) (\<lambda>_.
              (Ok Nf_pending_check, nf_start_state_timer d (nf_lifetime s) (s, w)))
       else deref (as_pathcoupled (routing_info m)) Assert_failed (s, w) (\<lambda>_.
              call (nf_build_create_message c missing (s, w)) (\<lambda>create sw.
                let (s, w) = send create sw
                in (Ok Nf_pending, nf_start_state_timer d (nf_lifetime s) (s, w))))))"

definition nf_process_state_close :: "'m dispatcher \<Rightarrow> 'm ntlp_msg \<Rightarrow> 'm anslp_msg \<Rightarrow> 'm nf_session \<times> 'm world \<Rightarrow> ('m, nf_state) nf_step" where
  "nf_process_state_close d m c = (\<lambda>(s, w).
     let s = s\<lparr>nf_create_message := Some m\<rparr>
     in case nf_process_create d m c (s, w) of
          (Throw e, sw) \<Rightarrow> (case e of
              Override_lifetime _ _ \<Rightarrow> (Throw e, sw)
            | _ \<Rightarrow> (Ok Nf_close, send (create_error_response (plat d) e m) sw))
        | r \<Rightarrow> r)"

text \<open>Without a CREATE the handler runs off its end.\<close>

definition nf_handle_state_close :: "'m dispatcher \<Rightarrow> 'm event \<Rightarrow> 'm nf_session \<times> 'm world \<Rightarrow> ('m, nf_state) nf_step" where
  "nf_handle_state_close d evt = (\<lambda>(s, w). case msg_with Anslp_create evt of
       Some (m, c) \<Rightarrow>
         let s = s\<lparr>nf_max_lifetime := nf_max_session_lifetime (conf d),
                   nf_resp_timeout := nf_max_session_lifetime (conf d)\<rparr>
         in (case check_preconditions (get_session_lifetime c) (nf_max_lifetime s) m of
              Throw e \<Rightarrow> (Ok Nf_close, send (create_error_response (plat d) e m) (s, w))
            | Crash f \<Rightarrow> (Crash f, s, w)
            | Ok lifetime \<Rightarrow>
                if lifetime = 0 then (Ok Nf_close, s, w)
                else let s = s\<lparr>nf_lifetime := lifetime, msn := get_msg_sequence_number c\<rparr>
                     in nf_process_state_close d m c (s, w))
     | None \<Rightarrow> (Crash Missing_return, s, w))"

text \<open>
  A further CREATE in one of the three pending states \<open>st\<close>; in the checking state the resent CREATE is
  not passed on.
\<close>

definition nf_create_again :: "nf_state \<Rightarrow> 'm dispatcher \<Rightarrow> 'm ntlp_msg \<Rightarrow> 'm anslp_msg \<Rightarrow> 'm nf_session \<times> 'm world \<Rightarrow> ('m, nf_state) nf_step" where
  "nf_create_again st d m create = (\<lambda>(s, w).
     deref (nf_create_message s) Assert_failed (s, w) (\<lambda>latest.
     deref (cast_msg Anslp_create latest) Assert_failed (s, w) (\<lambda>previous.
       case check_authorization m of
         Throw e \<Rightarrow> (Ok st, send (create_error_response (plat d) e m) (s, w))
       | Crash f \<Rightarrow> (Crash f, s, w)
       | Ok _ \<Rightarrow>
           if get_msg_sequence_number create > get_msg_sequence_number previous \<and>
              get_session_lifetime create = 0
           then call (nf_forward (copy_for_forwarding m None) (nf_stop_state_timer (s, w)))
                  (\<lambda>_ sw. (Ok Nf_close, sw))
           else if get_msg_sequence_number create = get_msg_sequence_number previous
           then call (if st = Nf_pending_check then (Ok (), s, w)
                      else nf_forward (copy_for_forwarding m None) (s, w))
                  (\<lambda>_ (s, w). (Ok st, nf_start_state_timer d (nf_resp_timeout s) (s, w)))
           else nf_process_state_close d m create
                  (s\<lparr>nf_lifetime := get_session_lifetime create, msn := get_msg_sequence_number create\<rparr>, w))))"

text \<open>The downstream side cannot be reached or did not answer in time.\<close>

definition nf_not_reached :: "'m dispatcher \<Rightarrow> 'm nf_session \<times> 'm world \<Rightarrow> ('m, nf_state) nf_step" where
  "nf_not_reached d = (\<lambda>(s, w).
     deref (nf_create_message s) Assert_failed (s, w) (\<lambda>latest.
       (Ok Nf_close, send (create_response (plat d) 5 7 latest) (s, w))))"

definition nf_api_check :: "'m dispatcher \<Rightarrow> 'm object_list \<Rightarrow> 'm nf_session \<times> 'm world \<Rightarrow> ('m, nf_state) nf_step" where
  "nf_api_check d checked = (\<lambda>(s, w).
     deref (nf_create_message s) Assert_failed (s, w) (\<lambda>latest.
     deref (cast_msg Anslp_create latest) Assert_failed (s, w) (\<lambda>previous.
     deref (get_mspec_objects previous) Null_deref (s, w) (\<lambda>missing.
     call (prune_rule d checked (s, w)) (\<lambda>_ sw.
     call (nf_build_create_message previous missing sw) (\<lambda>create sw.
       let (s, w) = send create sw
       in (Ok Nf_pending, nf_start_state_timer d (nf_lifetime s) (s, w))))))))"

definition nf_handle_state_pending_check :: "'m dispatcher \<Rightarrow> 'm event \<Rightarrow> 'm nf_session \<times> 'm world \<Rightarrow> ('m, nf_state) nf_step" where
  "nf_handle_state_pending_check d evt = (\<lambda>(s, w). case msg_with Anslp_create evt of
       Some (m, create) \<Rightarrow> nf_create_again Nf_pending_check d m create (s, w)
     | None \<Rightarrow>
         if is_no_next_node_found_event evt \<or> is_timer_of evt (nf_state_timer s) then nf_not_reached d (s, w)
         else if is_timer evt then (Ok Nf_pending_check, s, w)
         else (case api_check_of evt of
                Some checked \<Rightarrow> nf_api_check d checked (s, w)
              | None \<Rightarrow> (Ok Nf_pending_check, s, w)))"

definition nf_response_pending :: "'m dispatcher \<Rightarrow> 'm event \<Rightarrow> 'm ntlp_msg \<Rightarrow> 'm anslp_msg \<Rightarrow> 'm ntlp_msg \<Rightarrow> 'm nf_session \<times> 'm world
    \<Rightarrow> ('m, nf_state) nf_step" where
  "nf_response_pending d evt m resp latest sw =
     deref (cast_msg Anslp_create latest) Null_deref sw (\<lambda>c.
       if \<not> is_response_to_create resp c then (Ok Nf_pending, sw)
       else if is_success resp
       then call (nf_set_last_response_message evt m (nf_start_response_timer d sw)) (\<lambda>_ (s, w).
            call (service (install_auction_rules d (session_id_to_string (sess_id s)) (rule s)) (s, w)) (\<lambda>_ (s, w).
              (Ok Nf_pending_installing, nf_start_state_timer d (nf_resp_timeout s) (s, w))))
       else call (nf_forward (nf_create_msg_for_ni m) (nf_stop_state_timer sw)) (\<lambda>_ sw. (Ok Nf_close, sw)))"

definition nf_handle_state_pending :: "'m dispatcher \<Rightarrow> 'm event \<Rightarrow> 'm nf_session \<times> 'm world \<Rightarrow> ('m, nf_state) nf_step" where
  "nf_handle_state_pending d evt = (\<lambda>(s, w). case msg_with Anslp_create evt of
       Some (m, create) \<Rightarrow> nf_create_again Nf_pending d m create (s, w)
     | None \<Rightarrow>
         if is_no_next_node_found_event evt \<or> is_timer_of evt (nf_state_timer s) then nf_not_reached d (s, w)
         else if is_timer evt then (Ok Nf_pending, s, w)
         else deref (nf_create_message s) Assert_failed (s, w) (\<lambda>latest.
           if is_anslp_response evt latest
           then deref (msg_with Anslp_response evt) Null_deref (s, w) (\<lambda>(m, resp).
                  nf_response_pending d evt m resp latest (s, w))
           else (Ok Nf_pending, s, w)))"

text \<open>
  The auctioning application installed the rules: the objects go back to the initiator with those of the
  nodes further down the path. With the wrong number of objects, both sides are told.
\<close>

definition nf_api_install :: "'m dispatcher \<Rightarrow> 'm object_list \<Rightarrow> 'm nf_session \<times> 'm world \<Rightarrow> ('m, nf_state) nf_step" where
  "nf_api_install d objs = (\<lambda>(s, w).
     deref (nf_response_message s) Assert_failed (s, w) (\<lambda>m.
     deref (rule s) Null_deref (s, w) (\<lambda>r.
       if get_number_mspec_request_objects r = length objs
       then let (s, w) = nf_stop_state_timer (s, w);
                (r, w) = set_reponse_objects (plat d) objs (r, w);
                s = s\<lparr>rule := Some r\<rparr>
            in deref (cast_msg Anslp_response m) Null_deref (s, w) (\<lambda>resp.
               let response = set_mspec_list (map (object_copy \<circ> snd) (object_responses r)) (anslp_msg_copy resp);
                   (s, w) = send (new_ntlp_msg (sess_id s) response (routing_info m) 0) (s, w)
               in (Ok Nf_auctioning, nf_start_state_timer d (nf_lifetime s) (s, w)))
       else let (s, w) = nf_stop_state_timer (s, w);
                s = s\<lparr>nf_lifetime := 0\<rparr>
            in call (if get_number_mspec_response_objects r > 0
                     then service (remove_auction_rules d (session_id_to_string (sess_id s)) (Some r)) (s, w)
                     else (Ok (), s, w)) (\<lambda>_ sw.
               call (nf_build_teardown_message sw) (\<lambda>tear_down sw.
                 (Ok Nf_close, send (create_response (plat d) 5 4 m) (send tear_down sw)))))))"

definition nf_handle_state_pending_installing :: "'m dispatcher \<Rightarrow> 'm event \<Rightarrow> 'm nf_session \<times> 'm world \<Rightarrow> ('m, nf_state) nf_step" where
  "nf_handle_state_pending_installing d evt = (\<lambda>(s, w). case msg_with Anslp_create evt of
       Some (m, create) \<Rightarrow> nf_create_again Nf_pending_installing d m create (s, w)
     | None \<Rightarrow>
         if is_no_next_node_found_event evt \<or> is_timer_of evt (nf_state_timer s) then nf_not_reached d (s, w)
         else if is_timer evt then (Ok Nf_pending_installing, s, w)
         else (case api_install_of evt of
                Some objs \<Rightarrow> nf_api_install d objs (s, w)
              | None \<Rightarrow> (Ok Nf_pending_installing, s, w)))"

text \<open>The end of an established session; \<open>seconds\<close> is the time the application has for the removal.\<close>

definition nf_begin_teardown :: "'m dispatcher \<Rightarrow> u32 \<Rightarrow> 'm nf_session \<times> 'm world \<Rightarrow> ('m, nf_state) nf_step" where
  "nf_begin_teardown d seconds = (\<lambda>(s, w).
     deref (rule s) Null_deref (s, w) (\<lambda>r.
       if get_number_mspec_response_objects r > 0
       then call (service (remove_auction_rules d (session_id_to_string (sess_id s)) (Some r)) (s, w))
              (\<lambda>_ sw. (Ok Nf_pending_teardown, nf_start_state_timer d seconds sw))
       else (Ok Nf_close, nf_stop_state_timer (s, w))))"

definition nf_anslp_refresh :: "'m dispatcher \<Rightarrow> 'm ntlp_msg \<Rightarrow> 'm anslp_msg \<Rightarrow> 'm nf_session \<times> 'm world \<Rightarrow> ('m, nf_state) nf_step" where
  "nf_anslp_refresh d m refresh = (\<lambda>(s, w).
     let n = get_msg_sequence_number refresh
     in case check_preconditions (get_session_lifetime refresh) (nf_max_lifetime s) m of
          Throw e \<Rightarrow> (Ok Nf_auctioning, send (create_error_response (plat d) e m) (s, w))
        | Crash f \<Rightarrow> (Crash f, s, w)
        | Ok lifetime \<Rightarrow>
            if \<not> is_greater_than n (msn s) then (Ok Nf_auctioning, s, w)
            else let s = s\<lparr>nf_lifetime := lifetime\<rparr>
                 in if lifetime > 0
                    then let s = s\<lparr>nf_response_timer := timer_stop, msn := n, nf_refresh_message := Some m\<rparr>
                         in call (nf_forward (nf_create_msg_for_nr m) (s, w)) (\<lambda>_ sw.
                              (Ok Nf_auctioning, nf_start_response_timer d sw))
                    else let s = s\<lparr>nf_response_timer := timer_stop\<rparr>
                         in call (nf_forward (nf_create_msg_for_nr m) (s, w)) (\<lambda>_ (s, w).
                              (Ok Nf_auctioning, nf_start_response_timer d (s\<lparr>nf_refresh_message := Some m\<rparr>, w))))"

text \<open>A bid: for this node it goes to the application, otherwise further towards the receiver.\<close>

definition nf_anslp_bidding :: "'m dispatcher \<Rightarrow> nf_state \<Rightarrow> 'm ntlp_msg \<Rightarrow> bool \<Rightarrow> 'm anslp_msg \<Rightarrow> 'm nf_session \<times> 'm world \<Rightarrow> ('m, nf_state) nf_step" where
  "nf_anslp_bidding d st m for_this_node bidding sw =
     (if for_this_node
      then call (nf_create_auction_rule d bidding sw) (\<lambda>to_post (s, w).
           call (service (auction_interaction d True (session_id_to_string (sess_id s)) to_post) (s, w))
             (\<lambda>_ sw. (Ok st, sw)))
      else call (nf_forward (nf_create_msg_for_nr m) sw) (\<lambda>_ sw. (Ok st, sw)))"

definition nf_response_auctioning :: "'m dispatcher \<Rightarrow> 'm ntlp_msg \<Rightarrow> 'm anslp_msg \<Rightarrow> 'm ntlp_msg \<Rightarrow> 'm nf_session \<times> 'm world
    \<Rightarrow> ('m, nf_state) nf_step" where
  "nf_response_auctioning d m response latest sw =
     deref (cast_msg Anslp_refresh latest) Null_deref sw (\<lambda>c.
       if \<not> is_response_to_refresh response c then (Ok Nf_auctioning, sw)
       else if is_success response
       then call (nf_forward (nf_create_msg_for_ni m) sw) (\<lambda>_ (s, w).
              if nf_lifetime s = 0
              then nf_begin_teardown d (nf_resp_timeout s) (nf_stop_state_timer (s, w))
              else (Ok Nf_auctioning, nf_start_state_timer d (nf_lifetime s) (s, w)))
       else call (nf_forward (nf_create_msg_for_ni m) (nf_stop_state_timer sw)) (\<lambda>_ (s, w).
              nf_begin_teardown d (nf_resp_timeout s) (s, w)))"

definition nf_for_this_node :: "'m event \<Rightarrow> bool" where
  "nf_for_this_node evt = (case ev_data evt of Msg_event _ b \<Rightarrow> b | _ \<Rightarrow> False)"

definition nf_handle_state_auctioning :: "'m dispatcher \<Rightarrow> 'm event \<Rightarrow> 'm nf_session \<times> 'm world \<Rightarrow> ('m, nf_state) nf_step" where
  "nf_handle_state_auctioning d evt = (\<lambda>(s, w).
     case msg_with Anslp_refresh evt of
       Some (m, refresh) \<Rightarrow> nf_anslp_refresh d m refresh (s, w)
     | None \<Rightarrow> (case msg_with Anslp_bidding evt of
       Some (m, bidding) \<Rightarrow> nf_anslp_bidding d Nf_auctioning m (nf_for_this_node evt) bidding (s, w)
     | None \<Rightarrow>
         if is_no_next_node_found_event evt \<or> is_timer_of evt (nf_response_timer s)
         then nf_begin_teardown d (nf_lifetime s) (nf_stop_state_timer (s, w))
         else if is_timer_of evt (nf_state_timer s)
         then nf_begin_teardown d (nf_lifetime s) (s\<lparr>nf_response_timer := timer_stop\<rparr>, w)
         else if is_route_changed_bad_event evt then nf_begin_teardown d (nf_resp_timeout s) (s, w)
         else if is_timer evt then (Ok Nf_auctioning, s, w)
         else deref (nf_refresh_message s) Assert_failed (s, w) (\<lambda>latest.
           if is_anslp_response evt latest
           then deref (msg_with Anslp_response evt) Null_deref (s, w) (\<lambda>(m, response).
                  nf_response_auctioning d m response latest (s, w))
           else (Ok Nf_auctioning, s, w))))"

definition nf_handle_state_pending_teardown :: "'m dispatcher \<Rightarrow> 'm event \<Rightarrow> 'm nf_session \<times> 'm world \<Rightarrow> ('m, nf_state) nf_step" where
  "nf_handle_state_pending_teardown d evt = (\<lambda>(s, w).
     if is_anslp_refresh evt then (Ok Nf_pending_teardown, s, w)
     else (case msg_with Anslp_bidding evt of
            Some (m, bidding) \<Rightarrow>
              nf_anslp_bidding d Nf_pending_teardown m (nf_for_this_node evt) bidding (s, w)
          | None \<Rightarrow>
              if is_timer_of evt (nf_state_timer s) then (Ok Nf_close, s, w)
              else if is_route_changed_bad_event evt then (Ok Nf_pending_teardown, s, w)
              else if is_timer evt then (Ok Nf_pending_teardown, s, w)
              else if is_api_remove evt then (Ok Nf_close, nf_stop_state_timer (s, w))
              else (Ok Nf_pending_teardown, s, w)))"

definition nf_handle :: "'m dispatcher \<Rightarrow> 'm event \<Rightarrow> 'm nf_session \<times> 'm world \<Rightarrow> ('m, nf_state) nf_step" where
  "nf_handle d evt = (\<lambda>(s, w). case nf_state s of
       Nf_close \<Rightarrow> nf_handle_state_close d evt (s, w)
     | Nf_pending_check \<Rightarrow> nf_handle_state_pending_check d evt (s, w)
     | Nf_pending \<Rightarrow> nf_handle_state_pending d evt (s, w)
     | Nf_pending_installing \<Rightarrow> nf_handle_state_pending_installing d evt (s, w)
     | Nf_auctioning \<Rightarrow> nf_handle_state_auctioning d evt (s, w)
     | Nf_pending_teardown \<Rightarrow> nf_handle_state_pending_teardown d evt (s, w))"

definition nf_process_event :: "'m dispatcher \<Rightarrow> 'm event \<Rightarrow> 'm nf_session \<times> 'm world \<Rightarrow> ('m, unit) nf_step" where
  "nf_process_event d evt sw =
     call (nf_handle d evt sw) (\<lambda>st (s, w). (Ok (), s\<lparr>nf_state := st\<rparr>, w))"

section \<open>Postconditions of the helpers\<close>

lemma nf_plain [simp]:
  "nf_start_state_timer d n (s, w) = (s\<lparr>nf_state_timer := timer_msg_id (plat d) (timers_made w)\<rparr>,
     started d (sess_id s) n w)"
  "nf_start_response_timer d (s, w) = (s\<lparr>nf_response_timer := timer_msg_id (plat d) (timers_made w)\<rparr>,
     started d (sess_id s) (nf_resp_timeout s) w)"
  "nf_stop_state_timer (s, w) = (s\<lparr>nf_state_timer := 0\<rparr>, w)"
  by (simp_all add: nf_start_state_timer_def nf_start_response_timer_def nf_stop_state_timer_def
      timer_start_started timer_stop_def)

definition nf_create_of :: "'m anslp_msg \<Rightarrow> 'm anslp_object list \<Rightarrow> u32 \<Rightarrow> 'm anslp_msg" where
  "nf_create_of c objs lt = set_mspec_list (map object_copy objs)
     (set_message_hop_count (get_message_hop_count c)
       (set_selection_auctioning_entities (get_selection_auctioning_entities c)
         (set_msg_sequence_number (get_msg_sequence_number c)
           (set_session_lifetime (min lt (get_session_lifetime c)) new_anslp_create))))"

definition teardown_of :: "u32 \<Rightarrow> 'm anslp_msg" where
  "teardown_of n = set_msg_sequence_number n (set_session_lifetime 0 new_anslp_refresh)"

lemma class_built_nf [simp]:
  "msg_class (nf_create_of c objs lt) = Anslp_create" "msg_class (teardown_of n) = Anslp_refresh"
  by (simp_all add: nf_create_of_def teardown_of_def)

lemma nf_create_mri_with_dest_eq: "nf_create_mri_with_dest p = (if downstream p then Some p else None)"
  by (cases p) (simp add: nf_create_mri_with_dest_def)

lemma post_nf_build_create [wp]:
  "post Q E F (nf_build_create_message c objs (s, w)) \<longleftrightarrow>
     (nf_nr_mri s = None \<longrightarrow> F Assert_failed (s, w)) \<and>
     (\<forall>r. nf_nr_mri s = Some r \<longrightarrow>
        Q (new_ntlp_msg (sess_id s) (nf_create_of c objs (nf_lifetime s)) (Mri_pathcoupled r) 0) (s, w))"
  by (simp add: nf_build_create_message_def nf_create_of_def wp Let_def min_def)

lemma post_nf_build_teardown [wp]:
  "post Q E F (nf_build_teardown_message (s, w)) \<longleftrightarrow>
     (nf_nr_mri s = None \<longrightarrow> F Assert_failed (s, w)) \<and>
     (\<forall>r. nf_nr_mri s = Some r \<longrightarrow>
        Q (new_ntlp_msg (sess_id s) (teardown_of (msn s + 1)) (Mri_pathcoupled r) 0) (s\<lparr>msn := msn s + 1\<rparr>, w))"
  by (simp add: nf_build_teardown_message_def teardown_of_def wp Let_def next_msg_sequence_number_def)

lemma post_nf_set_pc_mri [wp]:
  "post Q E F (nf_set_pc_mri d m (s, w)) \<longleftrightarrow>
     (as_pathcoupled (routing_info m) = None \<longrightarrow> E (Request_error 5 9) (s, w)) \<and>
     (\<forall>p. as_pathcoupled (routing_info m) = Some p \<longrightarrow>
        (if downstream p
         then Q () (s\<lparr>nf_nr_mri := Some p, nf_ni_mri := Some (invert_pathcoupled (plat d) p)\<rparr>, w)
         else F Assert_failed (s, w)))"
  by (auto simp: nf_set_pc_mri_def nf_create_mri_with_dest_eq nf_create_mri_inverted_def wp Let_def
      split: option.split)

lemma post_nf_forward [wp]:
  "post Q E F (nf_forward m (s, w)) \<longleftrightarrow>
     (m = None \<longrightarrow> F Null_deref (s, w)) \<and> (\<forall>m'. m = Some m' \<longrightarrow> Q () (s, emit (Send_message m') w))"
  by (simp add: nf_forward_def wp)

lemma copy_for_forwarding_None [simp]: "copy_for_forwarding m r = None \<longleftrightarrow> msg m = None"
  by (simp add: copy_for_forwarding_def split: option.split)

lemma copy_for_forwarding_class:
  "copy_for_forwarding m r = Some m' \<Longrightarrow> class_of_msg m' = class_of_msg m"
  by (auto simp: class_of_msg_def copy_for_forwarding_def new_ntlp_msg_def anslp_msg_copy_def split: option.splits)

lemma post_nf_set_last_response [wp]:
  "post Q E F (nf_set_last_response_message evt m (s, w)) \<longleftrightarrow>
     (ev_sid evt = None \<longrightarrow> F Null_deref (s, w)) \<and>
     (ev_sid evt \<noteq> None \<longrightarrow> Q () (s\<lparr>nf_response_message := Some m\<rparr>, w))"
  by (auto simp: nf_set_last_response_message_def wp)

text \<open>The \<open>catch\<close> clause turns an error into a response and the closed state.\<close>

lemma post_nf_process_state_close:
  "post Q E F (nf_process_state_close d m c (s, w)) =
     post Q (\<lambda>e sw. case e of Override_lifetime _ _ \<Rightarrow> E e sw
         | _ \<Rightarrow> Q Nf_close (send (create_error_response (plat d) e m) sw)) F
       (nf_process_create d m c (s\<lparr>nf_create_message := Some m\<rparr>, w))"
  unfolding nf_process_state_close_def Let_def prod.case
  by (cases "nf_process_create d m c (s\<lparr>nf_create_message := Some m\<rparr>, w)" rule: call_cases)
    (simp_all split: exn.split)

lemma post_nf_begin_teardown [wp_intro]:
  assumes "rule s = None \<Longrightarrow> F Null_deref (s, w)"
    "\<And>r w'. rule s = Some r \<Longrightarrow> same_actions w w' \<Longrightarrow>
       Q Nf_pending_teardown (s\<lparr>nf_state_timer := timer_msg_id (plat d) (timers_made w)\<rparr>, started d (sess_id s) n w')"
    "\<And>w'. same_actions w w' \<Longrightarrow> E wrong_conf_message (s, w')"
    "rule s \<noteq> None \<Longrightarrow> Q Nf_close (s\<lparr>nf_state_timer := 0\<rparr>, w)"
  shows "post Q E F (nf_begin_teardown d n (s, w))"
  using assms
  by (simp add: nf_begin_teardown_def wp) (intro conjI impI allI wp_intro; simp add: same_actions_def)

section \<open>The invariant\<close>

definition nf_inv :: "'m nf_session \<Rightarrow> bool" where
  "nf_inv s = (session_type s = St_forwarder \<and> rule s \<noteq> None \<and>
     (\<forall>m. nf_refresh_message s = Some m \<longrightarrow> cast_msg Anslp_refresh m \<noteq> None) \<and>
     (nf_state s \<in> {Nf_pending_check, Nf_pending, Nf_pending_installing} \<longrightarrow>
        nf_nr_mri s \<noteq> None \<and> (\<exists>m c. nf_create_message s = Some m \<and> cast_msg Anslp_create m = Some c \<and>
          get_mspec_objects c \<noteq> None)) \<and>
     (nf_state s = Nf_pending_installing \<longrightarrow>
        (\<exists>m. nf_response_message s = Some m \<and> cast_msg Anslp_response m \<noteq> None)))"

definition nf_next :: "'m nf_session \<Rightarrow> nf_state \<Rightarrow> 'm nf_session \<times> 'm world \<Rightarrow> bool" where
  "nf_next s st sw = (nf_inv (fst sw\<lparr>nf_state := st\<rparr>) \<and> sess_id (fst sw) = sess_id s)"

definition nf_same_id :: "'m nf_session \<Rightarrow> 'm nf_session \<times> 'm world \<Rightarrow> bool" where
  "nf_same_id s sw = (sess_id (fst sw) = sess_id s)"

abbreviation nf_keeps :: "'m nf_session \<Rightarrow> ('m, nf_state) nf_step \<Rightarrow> bool" where
  "nf_keeps s \<equiv> post (nf_next s) (\<lambda>_. nf_same_id s) (\<lambda>_. nf_same_id s)"

lemmas nf_next_defs = nf_next_def nf_same_id_def nf_inv_def

lemma nf_process_state_close_keeps [wp_intro]:
  assumes "nf_inv (s'\<lparr>nf_state := Nf_close\<rparr>)" "sess_id s' = sess_id s" "cast_msg Anslp_create m = Some c"
  shows "nf_keeps s (nf_process_state_close d m c (s', w))"
  using assms unfolding nf_process_create_def nf_set_auction_rule_def post_nf_process_state_close
  by (simp add: wp Let_def) (intro conjI impI allI wp_intro; simp add: wp nf_next_defs wrong_conf_message_def)

lemma nf_close_keeps: "nf_inv s \<Longrightarrow> nf_state s = Nf_close \<Longrightarrow> nf_keeps s (nf_handle_state_close d evt (s, w))"
  unfolding nf_handle_state_close_def
  by (simp add: wp Let_def) (intro conjI impI allI wp_intro; simp add: nf_next_defs msg_with_cast)

lemma nf_create_again_keeps [wp_intro]:
  "nf_inv s \<Longrightarrow> nf_state s = st \<Longrightarrow> cast_msg Anslp_create m = Some c \<Longrightarrow>
   nf_keeps s (nf_create_again st d m c (s, w))"
  unfolding nf_create_again_def
  by (simp add: wp Let_def) (intro conjI impI allI wp_intro; auto simp: nf_next_defs)

lemma nf_not_reached_keeps [wp_intro]: "nf_inv s \<Longrightarrow> nf_keeps s (nf_not_reached d (s, w))"
  by (simp add: nf_not_reached_def wp nf_next_defs)

lemma nf_pending_check_keeps:
  "nf_inv s \<Longrightarrow> nf_state s = Nf_pending_check \<Longrightarrow> nf_keeps s (nf_handle_state_pending_check d evt (s, w))"
  unfolding nf_handle_state_pending_check_def nf_api_check_def
  by (simp add: wp Let_def) (intro conjI impI allI wp_intro; auto simp: nf_next_defs msg_with_cast)

lemma nf_pending_keeps:
  "nf_inv s \<Longrightarrow> nf_state s = Nf_pending \<Longrightarrow> nf_keeps s (nf_handle_state_pending d evt (s, w))"
  unfolding nf_handle_state_pending_def nf_response_pending_def
  by (simp add: wp Let_def) (intro conjI impI allI wp_intro; auto simp: nf_next_defs msg_with_cast intro!: wp_intro)

lemma nf_pending_installing_keeps:
  "nf_inv s \<Longrightarrow> nf_state s = Nf_pending_installing \<Longrightarrow> nf_keeps s (nf_handle_state_pending_installing d evt (s, w))"
  unfolding nf_handle_state_pending_installing_def nf_api_install_def
  by (simp add: wp Let_def split_beta) (intro conjI impI allI wp_intro; auto simp: wp nf_next_defs msg_with_cast)

lemma nf_anslp_bidding_keeps [wp_intro]:
  "nf_inv s \<Longrightarrow> nf_state s = st \<Longrightarrow> nf_keeps s (nf_anslp_bidding d st m b bidding (s, w))"
  unfolding nf_anslp_bidding_def nf_create_auction_rule_def
  by (simp add: wp) (intro conjI impI allI wp_intro; simp add: nf_next_defs)

lemma nf_auctioning_keeps:
  "nf_inv s \<Longrightarrow> nf_state s = Nf_auctioning \<Longrightarrow> nf_keeps s (nf_handle_state_auctioning d evt (s, w))"
  unfolding nf_handle_state_auctioning_def nf_anslp_refresh_def nf_response_auctioning_def
  by (simp add: wp Let_def) (intro conjI impI allI wp_intro; auto simp: nf_next_defs msg_with_cast)

lemma nf_teardown_keeps:
  "nf_inv s \<Longrightarrow> nf_state s = Nf_pending_teardown \<Longrightarrow> nf_keeps s (nf_handle_state_pending_teardown d evt (s, w))"
  unfolding nf_handle_state_pending_teardown_def
  by (simp add: wp Let_def) (intro conjI impI allI wp_intro; simp add: nf_next_defs)

lemma nf_handle_keeps: "nf_inv s \<Longrightarrow> nf_keeps s (nf_handle d evt (s, w))"
  by (cases "nf_state s") (simp_all add: nf_handle_def nf_close_keeps nf_pending_check_keeps nf_pending_keeps
      nf_pending_installing_keeps nf_auctioning_keeps nf_teardown_keeps)

lemma nf_process_keeps:
  "nf_inv s \<Longrightarrow> post (\<lambda>_ sw. nf_inv (fst sw) \<and> sess_id (fst sw) = sess_id s)
     (\<lambda>_ sw. sess_id (fst sw) = sess_id s) (\<lambda>_ sw. sess_id (fst sw) = sess_id s) (nf_process_event d evt (s, w))"
  unfolding nf_process_event_def post_call
  by (rule post_mono [OF nf_handle_keeps]) (auto simp: nf_next_def nf_same_id_def)

interpretation nf_machine: session_machine "nf_process_event d" sess_id nf_inv for d
  by unfold_locales (rule nf_process_keeps)

lemma nf_inv_new: "nf_inv (new_nf_session i random garbage)"
  by (simp add: nf_inv_def new_nf_session_def)

text \<open>
  C8: the invariant of the forwarder holds for a new session and is kept by every event that is processed;
  the session id never changes, also when the handler throws or stops.
\<close>

theorem nf_invariant:
  "nf_inv (new_nf_session i random garbage) \<and>
   (nf_inv s \<longrightarrow>
      post (\<lambda>_ (s', w'). nf_inv s' \<and> sess_id s' = sess_id s) (\<lambda>_ (s', w'). sess_id s' = sess_id s)
        (\<lambda>_ (s', w'). sess_id s' = sess_id s) (nf_process_event d evt (s, w)))"
  using nf_inv_new nf_process_keeps [of s d evt w] by (auto simp: case_prod_unfold)

end
