(* ===== verification/Nf_Properties.thy ===== *)
theory Nf_Properties
  imports Nf_Session
begin

text \<open>
  What the forwarder's handlers do: the CREATE that it passes on, the answers it gives, the treatment of REFRESH
  messages, and the abstract state machine that the handlers refine.
\<close>

section \<open>Passing on a CREATE\<close>

lemma collect_mspec_members:
  "collect_mspec skip st = Some objs \<Longrightarrow> \<forall>(k, obj) \<in> set st. wf_object obj \<Longrightarrow>
   \<forall>obj \<in> set objs. wf_object obj \<and> is_mspec obj"
  by (induction skip st arbitrary: objs rule: collect_mspec.induct) (auto simp: wf_copy split: if_splits)

lemma get_mspec_objects_members:
  "wf_msg m \<Longrightarrow> get_mspec_objects m = Some objs \<Longrightarrow> \<forall>obj \<in> set objs. wf_object obj \<and> is_mspec obj"
  using collect_mspec_members [of "skip_types_of m" "objects m"]
  by (auto simp: get_mspec_objects_skip wf_msg_def wf_store_def)

lemma nf_create_of_facts:
  assumes "\<forall>obj \<in> set objs. wf_object obj \<and> is_mspec obj" "length objs \<le> mspec_limit"
  shows "find_session_lifetime (nf_create_of c objs lt) = Some (min lt (get_session_lifetime c))"
    "find_msg_sequence_number (nf_create_of c objs lt) = Some (get_msg_sequence_number c)"
    "find_selection_auctioning_entities (nf_create_of c objs lt) = Some (get_selection_auctioning_entities c)"
    "find_message_hop_count (nf_create_of c objs lt) = Some (get_message_hop_count c)"
    "get_mspec_objects (nf_create_of c objs lt) = Some objs"
proof -
  have copies: "map object_copy objs = objs" using assms(1) by (simp add: map_idI wf_copy)
  note laws = set_mspec_list_laws [of "set_message_hop_count (get_message_hop_count c)
       (set_selection_auctioning_entities (get_selection_auctioning_entities c)
         (set_msg_sequence_number (get_msg_sequence_number c)
           (set_session_lifetime (min lt (get_session_lifetime c)) new_anslp_create)))" objs]
  show "find_session_lifetime (nf_create_of c objs lt) = Some (min lt (get_session_lifetime c))"
    "find_msg_sequence_number (nf_create_of c objs lt) = Some (get_msg_sequence_number c)"
    "find_selection_auctioning_entities (nf_create_of c objs lt) = Some (get_selection_auctioning_entities c)"
    "find_message_hop_count (nf_create_of c objs lt) = Some (get_message_hop_count c)"
    "get_mspec_objects (nf_create_of c objs lt) = Some objs"
    using laws assms by (simp_all add: nf_create_of_def copies)
qed

lemma nf_process_eq:
  "nf_handle d evt (s, w) = (Ok st, s', w') \<Longrightarrow> nf_process_event d evt (s, w) = (Ok (), s'\<lparr>nf_state := st\<rparr>, w')"
  by (simp add: nf_process_event_def)

text \<open>What the session and the world are after the CREATE was passed on.\<close>

lemma nf_create_step:
  assumes "nf_inv s" "nf_state s = Nf_close" "msg_with Anslp_create evt = Some (m, c)"
    and "routing_info m = Mri_pathcoupled p" "downstream p"
    and "\<not> check_participating St_forwarder (get_selection_auctioning_entities c)"
    and "get_mspec_objects c = Some objs" "rule s = Some r"
    and "lt = min (get_session_lifetime c) (nf_max_session_lifetime (conf d))" "lt \<noteq> 0"
    and "m' = new_ntlp_msg (sess_id s) (nf_create_of c objs lt) (Mri_pathcoupled p) 0"
  shows "\<exists>s' w'. nf_process_event d evt (s, w) = (Ok (), s', w') \<and> nf_state s' = Nf_pending \<and> sent w' = sent w @ [m'] \<and>
    nf_lifetime s' = lt \<and> msn s' = get_msg_sequence_number c \<and> nf_state_timer s' = timer_msg_id (plat d) (timers_made w) \<and>
    nf_create_message s' = Some m \<and> rule s' = Some (fst (rule_of_create d objs r w)) \<and> shutdownflag w' = shutdownflag w"
proof -
  have "post (\<lambda>st (s', w'). st = Nf_pending \<and> sent w' = sent w @ [m'] \<and> nf_lifetime s' = lt \<and>
      msn s' = get_msg_sequence_number c \<and> nf_state_timer s' = timer_msg_id (plat d) (timers_made w) \<and>
      nf_create_message s' = Some m \<and> rule s' = Some (fst (rule_of_create d objs r w)) \<and> shutdownflag w' = shutdownflag w)
    (\<lambda>_ _. False) (\<lambda>_ _. False) (nf_handle_state_close d evt (s, w))"
    using assms
    by (simp add: nf_handle_state_close_def Let_def post_nf_process_state_close nf_process_create_def wp
        nf_set_auction_rule_def save_auction_rule_eq split_beta as_pathcoupled_def nf_inv_def
        rule_of_create_def add_requests_world)
  then obtain s' w' where step: "nf_handle_state_close d evt (s, w) = (Ok Nf_pending, s', w')"
    and facts: "sent w' = sent w @ [m']" "nf_lifetime s' = lt" "msn s' = get_msg_sequence_number c"
      "nf_state_timer s' = timer_msg_id (plat d) (timers_made w)" "nf_create_message s' = Some m"
      "rule s' = Some (fst (rule_of_create d objs r w))" "shutdownflag w' = shutdownflag w"
    by (elim post_returns) auto
  have "nf_process_event d evt (s, w) = (Ok (), s'\<lparr>nf_state := Nf_pending\<rparr>, w')"
    using assms(2) step by (intro nf_process_eq) (simp add: nf_handle_def)
  then show ?thesis using facts by simp
qed

text \<open>
  C30: a forwarder that does not take part in the auction passes a CREATE on in one message, along the same
  route: the lifetime is cut to the configured maximum, the sequence number, the selection of
  auctioning entities, the hop count and the mspec objects (in their order) are those of the received
  message. It then waits for the response with its state timer running.
\<close>

theorem nf_forwards_create:
  assumes "nf_inv s" "nf_state s = Nf_close" "msg_with Anslp_create evt = Some (m, c)"
    and "routing_info m = Mri_pathcoupled p" "downstream p"
    and "\<not> check_participating St_forwarder (get_selection_auctioning_entities c)"
    and "wf_msg c" "get_mspec_objects c = Some objs" "length objs \<le> mspec_limit"
    and "lt = min (get_session_lifetime c) (nf_max_session_lifetime (conf d))" "lt \<noteq> 0"
  shows "\<exists>s' w' m' c'. nf_process_event d evt (s, w) = (Ok (), s', w') \<and> nf_state s' = Nf_pending \<and>
    sent w' = sent w @ [m'] \<and> sid m' = sess_id s \<and> routing_info m' = routing_info m \<and>
    msg m' = Some c' \<and> msg_class c' = Anslp_create \<and>
    find_session_lifetime c' = Some lt \<and>
    find_msg_sequence_number c' = Some (get_msg_sequence_number c) \<and>
    find_selection_auctioning_entities c' = Some (get_selection_auctioning_entities c) \<and>
    find_message_hop_count c' = Some (get_message_hop_count c) \<and>
    get_mspec_objects c' = Some objs \<and>
    nf_lifetime s' = lt \<and> msn s' = get_msg_sequence_number c \<and>
    nf_state_timer s' = timer_msg_id (plat d) (timers_made w)"
proof -
  have wf: "\<forall>obj \<in> set objs. wf_object obj \<and> is_mspec obj" using assms(7,8) by (rule get_mspec_objects_members)
  let ?m = "new_ntlp_msg (sess_id s) (nf_create_of c objs lt) (Mri_pathcoupled p) 0"
  obtain r where r: "rule s = Some r" using assms(1) by (auto simp: nf_inv_def)
  have "min lt (get_session_lifetime c) = lt" using assms(10) by (auto simp: min_def)
  moreover have "sid ?m = sess_id s" "routing_info ?m = Mri_pathcoupled p" "msg ?m = Some (nf_create_of c objs lt)"
    by (simp_all add: new_ntlp_msg_def)
  ultimately show ?thesis
    using nf_create_step [OF assms(1-6,8) r assms(10,11) refl, of w] nf_create_of_facts [OF wf assms(9), of c lt] assms(4) by auto
qed

section \<open>Refused and unusable CREATEs\<close>

text \<open>
  A CREATE whose routing information is not path-coupled is answered with one response that carries
  the error code for a failed configuration and the sequence number of the request; the session is final.
\<close>

theorem nf_refuses_routing:
  assumes "nf_state s = Nf_close" "msg_with Anslp_create evt = Some (m, c)" "as_pathcoupled (routing_info m) = None"
    and "min (get_session_lifetime c) (nf_max_session_lifetime (conf d)) \<noteq> 0" "has_msg_sequence_number c"
  shows "\<exists>s' w' m' r. nf_process_event d evt (s, w) = (Ok (), s', w') \<and> nf_is_final s' \<and>
    sent w' = sent w @ [m'] \<and> sid m' = sid m \<and> routing_info m' = invertDirection (plat d) (routing_info m) \<and>
    msg m' = Some r \<and> msg_class r = Anslp_response \<and> find_information_code r = Some (5, 9, 0) \<and>
    find_msg_sequence_number r = find_msg_sequence_number c \<and> \<not> is_success r"
proof -
  let ?m = "create_error_response (plat d) (Request_error 5 9) m"
  have "post (\<lambda>st (s', w'). st = Nf_close \<and> sent w' = sent w @ [?m]) (\<lambda>_ _. False) (\<lambda>_ _. False)
    (nf_handle_state_close d evt (s, w))"
    using assms
    by (simp add: nf_handle_state_close_def Let_def post_nf_process_state_close nf_process_create_def wp)
  then obtain s' w' where step: "nf_handle_state_close d evt (s, w) = (Ok Nf_close, s', w')" and "sent w' = sent w @ [?m]"
    by (elim post_returns) auto
  moreover have "nf_process_event d evt (s, w) = (Ok (), s'\<lparr>nf_state := Nf_close\<rparr>, w')"
    using assms(1) step by (intro nf_process_eq) (simp add: nf_handle_def)
  moreover obtain r where "msg ?m = Some r" "msg_class r = Anslp_response" "find_information_code r = Some (5, 9, 0)"
    "find_msg_sequence_number r = find_msg_sequence_number c"
    using create_response_facts [OF conjunct2 [OF conjunct2 [OF msg_with_SomeD [OF assms(2)]]] assms(5),
        of "plat d" 5 9] by (auto simp: create_error_response_def)
  moreover have "sid ?m = sid m" "routing_info ?m = invertDirection (plat d) (routing_info m)"
    by (simp_all add: create_error_response_def create_response_def new_ntlp_msg_def Let_def)
  ultimately show ?thesis by (simp add: nf_is_final_def is_success_def)
qed

text \<open>
  In the closed state the forwarder stops the process exactly when the event is not a CREATE (the
  handler runs off its end), or when it is a CREATE to be set up whose path-coupled route does not lead downstream or
  whose mspec objects cannot be read.
\<close>

theorem nf_close_crash_exactly:
  assumes "nf_inv s" "nf_state s = Nf_close"
  shows "crashed (fst (nf_process_event d evt (s, w))) \<longleftrightarrow> (case msg_with Anslp_create evt of
      None \<Rightarrow> True
    | Some (m, c) \<Rightarrow> min (get_session_lifetime c) (nf_max_session_lifetime (conf d)) \<noteq> 0 \<and>
        (\<exists>p. routing_info m = Mri_pathcoupled p \<and> (\<not> downstream p \<or> get_mspec_objects c = None)))"
proof -
  have eq: "no_crash (nf_process_event d evt (s, w)) = no_crash (nf_handle_state_close d evt (s, w))"
    using assms(2) by (simp add: nf_process_event_def nf_handle_def wp split_beta)
  show ?thesis
  proof (cases "msg_with Anslp_create evt")
    case None
    then show ?thesis using eq by (simp add: crashed_post nf_handle_state_close_def)
  next
    case (Some mc)
    obtain m c where mc: "mc = (m, c)" by fastforce
    have rule: "rule s \<noteq> None" using assms(1) by (simp add: nf_inv_def)
    let ?lt = "min (get_session_lifetime c) (nf_max_session_lifetime (conf d))"
    have stop: "\<not> no_crash (nf_handle_state_close d evt (s, w))"
      if "?lt \<noteq> 0" "routing_info m = Mri_pathcoupled p" "\<not> downstream p \<or> get_mspec_objects c = None" for p
      using that Some mc
      by (auto simp: nf_handle_state_close_def Let_def post_nf_process_state_close nf_process_create_def wp
          as_pathcoupled_def nf_set_auction_rule_def save_auction_rule_eq)
    have go: "no_crash (nf_handle_state_close d evt (s, w))"
      if "?lt = 0 \<or> (\<forall>p. routing_info m = Mri_pathcoupled p \<longrightarrow> downstream p \<and> get_mspec_objects c \<noteq> None)"
      using that Some mc rule unfolding nf_handle_state_close_def post_nf_process_state_close nf_process_create_def
        nf_set_auction_rule_def
      by (simp add: Let_def post_nf_process_state_close nf_process_create_def wp nf_set_auction_rule_def)
        (intro conjI impI allI wp_intro; auto simp: wp wrong_conf_message_def as_pathcoupled_def split: mri.splits)
    have "no_crash (nf_handle_state_close d evt (s, w)) \<longleftrightarrow>
        \<not> (?lt \<noteq> 0 \<and> (\<exists>p. routing_info m = Mri_pathcoupled p \<and> (\<not> downstream p \<or> get_mspec_objects c = None)))"
      using stop go by blast
    then show ?thesis using eq Some mc by (simp add: crashed_post)
  qed
qed

section \<open>REFRESH\<close>

text \<open>
  A REFRESH that is not newer than the last one, by the serial order of sequence numbers, changes
  nothing and is not answered or passed on.
\<close>

theorem nf_replayed_refresh:
  assumes "nf_state s = Nf_auctioning" "msg_with Anslp_refresh evt = Some (m, c)"
    and "\<not> is_greater_than (get_msg_sequence_number c) (msn s)"
  shows "nf_process_event d evt (s, w) = (Ok (), s, w)"
  using assms
  by (simp add: nf_process_event_def nf_handle_def nf_handle_state_auctioning_def nf_anslp_refresh_def Let_def)

text \<open>
  A newer REFRESH is passed on unchanged, once, along the same route; the session takes over its
  lifetime, cut to the maximum, and, when the lifetime is not 0, its sequence number, so that the same
  message is not accepted again.
\<close>

theorem nf_forwards_refresh:
  assumes "nf_state s = Nf_auctioning" "msg_with Anslp_refresh evt = Some (m, c)" "wf_msg c"
    and "is_greater_than (get_msg_sequence_number c) (msn s)"
  shows "\<exists>s' w'. nf_process_event d evt (s, w) = (Ok (), s', w') \<and> nf_state s' = Nf_auctioning \<and>
    sent w' = sent w @ [m\<lparr>sii_handle := 0\<rparr>] \<and>
    nf_lifetime s' = min (get_session_lifetime c) (nf_max_lifetime s) \<and> nf_refresh_message s' = Some m \<and>
    (nf_lifetime s' \<noteq> 0 \<longrightarrow> msn s' = get_msg_sequence_number c \<and>
       \<not> is_greater_than (get_msg_sequence_number c) (msn s'))"
proof -
  have msg: "msg m = Some c" using assms(2) msg_with_SomeD by blast
  have copy: "nf_create_msg_for_nr m = Some (m\<lparr>sii_handle := 0\<rparr>)"
    using msg assms(3)
    by (cases m) (simp add: nf_create_msg_for_nr_def copy_for_forwarding_def anslp_msg_copy_id new_ntlp_msg_def)
  have "post (\<lambda>st (s', w'). st = Nf_auctioning \<and> sent w' = sent w @ [m\<lparr>sii_handle := 0\<rparr>] \<and>
      nf_lifetime s' = min (get_session_lifetime c) (nf_max_lifetime s) \<and> nf_refresh_message s' = Some m \<and>
      (nf_lifetime s' \<noteq> 0 \<longrightarrow> msn s' = get_msg_sequence_number c))
    (\<lambda>_ _. False) (\<lambda>_ _. False) (nf_handle_state_auctioning d evt (s, w))"
    using assms copy
    by (auto simp: nf_handle_state_auctioning_def nf_anslp_refresh_def Let_def wp word_neq_0_conv)
  then obtain s' w' where "nf_handle_state_auctioning d evt (s, w) = (Ok Nf_auctioning, s', w')"
    "sent w' = sent w @ [m\<lparr>sii_handle := 0\<rparr>]" "nf_lifetime s' = min (get_session_lifetime c) (nf_max_lifetime s)"
    "nf_refresh_message s' = Some m" "nf_lifetime s' \<noteq> 0 \<longrightarrow> msn s' = get_msg_sequence_number c"
    by (elim post_returns) auto
  moreover from this(1) have "nf_process_event d evt (s, w) = (Ok (), s'\<lparr>nf_state := Nf_auctioning\<rparr>, w')"
    using assms(1) by (intro nf_process_eq) (simp add: nf_handle_def)
  ultimately show ?thesis by (simp add: is_greater_than_def)
qed

text \<open>
  C39: a further CREATE with another sequence number replaces the pending one, and its lifetime is taken over
  as it is: the configured maximum, which the first CREATE was cut to, does not apply to it.
\<close>

theorem nf_replacement_lifetime:
  assumes "nf_inv s" "nf_state s = Nf_pending" "msg_with Anslp_create evt = Some (m, c)"
    and "nf_create_message s = Some latest" "cast_msg Anslp_create latest = Some previous"
    and "get_msg_sequence_number c \<noteq> get_msg_sequence_number previous" "get_session_lifetime c \<noteq> 0"
    and "nf_process_event d evt (s, w) = (Ok (), s', w')"
  shows "nf_lifetime s' = get_session_lifetime c"
proof -
  have rep: "post (\<lambda>_ sw. nf_lifetime (fst sw) = nf_lifetime s1) (\<lambda>_ _. True) (\<lambda>_ _. True)
      (nf_process_state_close d m c (s1, w1))" for s1 w1
    unfolding post_nf_process_state_close nf_process_create_def nf_set_auction_rule_def
    by (simp add: wp Let_def) (intro conjI impI allI wp_intro; simp add: wp wrong_conf_message_def)
  have "post (\<lambda>_ sw. nf_lifetime (fst sw) = get_session_lifetime c) (\<lambda>_ _. True) (\<lambda>_ _. True) (nf_handle d evt (s, w))"
    using assms rep [of "s\<lparr>nf_lifetime := get_session_lifetime c, msn := get_msg_sequence_number c\<rparr>" w]
    by (simp add: nf_handle_def nf_handle_state_pending_def nf_create_again_def wp)
  then have "post (\<lambda>_ sw. nf_lifetime (fst sw) = get_session_lifetime c) (\<lambda>_ _. True) (\<lambda>_ _. True)
      (nf_process_event d evt (s, w))"
    by (simp add: nf_process_event_def wp split_beta)
  then show ?thesis using assms(8) by simp
qed

section \<open>The abstract state machine\<close>

inductive nf_spec :: "nf_state \<Rightarrow> label \<Rightarrow> msg_class option list \<Rightarrow> nf_state \<Rightarrow> bool" where
  nf_pass_on: "st \<in> {Nf_close, Nf_pending_check, Nf_pending, Nf_pending_installing} \<Longrightarrow>
    nf_spec st (L_msg Anslp_create) [Some Anslp_create] Nf_pending"
| nf_ask_application: "st \<in> {Nf_close, Nf_pending_check, Nf_pending, Nf_pending_installing} \<Longrightarrow>
    nf_spec st (L_msg Anslp_create) [] Nf_pending_check"
| nf_refuse: "st \<in> {Nf_close, Nf_pending_check, Nf_pending, Nf_pending_installing} \<Longrightarrow>
    nf_spec st (L_msg Anslp_create) [Some Anslp_response] Nf_close"
| nf_no_lifetime: "nf_spec Nf_close (L_msg Anslp_create) [] Nf_close"
| nf_resent: "st = Nf_pending \<or> st = Nf_pending_installing \<Longrightarrow> nf_spec st (L_msg Anslp_create) [Some Anslp_create] st"
| nf_withdrawn: "st \<in> {Nf_pending_check, Nf_pending, Nf_pending_installing} \<Longrightarrow>
    nf_spec st (L_msg Anslp_create) [Some Anslp_create] Nf_close"
| nf_unreached: "st \<in> {Nf_pending_check, Nf_pending, Nf_pending_installing} \<Longrightarrow> l = L_timer \<or> l = L_no_next_node \<Longrightarrow>
    nf_spec st l [Some Anslp_response] Nf_close"
| nf_checked: "nf_spec Nf_pending_check L_check [Some Anslp_create] Nf_pending"
| nf_accepted: "nf_spec Nf_pending (L_msg Anslp_response) [] Nf_pending_installing"
| nf_refused: "nf_spec Nf_pending (L_msg Anslp_response) [Some Anslp_response] Nf_close"
| nf_installed: "nf_spec Nf_pending_installing L_install [Some Anslp_response] Nf_auctioning"
| nf_not_installed: "nf_spec Nf_pending_installing L_install [Some Anslp_refresh, Some Anslp_response] Nf_close"
| nf_refreshed: "nf_spec Nf_auctioning (L_msg Anslp_refresh) [Some Anslp_refresh] Nf_auctioning"
| nf_answered: "st \<in> {Nf_auctioning, Nf_close, Nf_pending_teardown} \<Longrightarrow>
    nf_spec Nf_auctioning (L_msg Anslp_response) [Some Anslp_response] st"
| nf_died: "l \<in> {L_timer, L_no_next_node, L_route_changed} \<Longrightarrow> st = Nf_close \<or> st = Nf_pending_teardown \<Longrightarrow>
    nf_spec Nf_auctioning l [] st"
| nf_bid: "st = Nf_auctioning \<or> st = Nf_pending_teardown \<Longrightarrow> nf_spec st (L_msg Anslp_bidding) [Some Anslp_bidding] st"
| nf_removed: "l = L_timer \<or> l = L_remove \<Longrightarrow> nf_spec Nf_pending_teardown l [] Nf_close"
| nf_stay: "st \<noteq> Nf_close \<Longrightarrow> nf_spec st l [] st"

inductive_simps nf_spec_auctioning: "nf_spec st l ms Nf_auctioning"

definition nf_follows :: "label \<Rightarrow> 'm nf_session \<Rightarrow> 'm world \<Rightarrow> nf_state \<Rightarrow> 'm nf_session \<times> 'm world \<Rightarrow> bool" where
  "nf_follows l s w st sw = nf_spec (nf_state s) l (sent_classes w (snd sw)) st"

abbreviation nf_refines :: "label \<Rightarrow> 'm nf_session \<Rightarrow> 'm world \<Rightarrow> ('m, nf_state) nf_step \<Rightarrow> bool" where
  "nf_refines l s w \<equiv> post (nf_follows l s w) (\<lambda>_ _. True) (\<lambda>_ _. True)"

lemma forwarded_class:
  "cast_msg c m = Some b \<Longrightarrow>
   \<forall>r m'. copy_for_forwarding m r = Some m' \<longrightarrow> class_of_msg m' = Some c"
  by (simp add: copy_for_forwarding_class msg_class_cast)

lemma msg_with_facts:
  "msg_with c evt = Some (m, b) \<Longrightarrow> label_of evt = L_msg c \<and> cast_msg c m = Some b \<and>
   (\<forall>r m'. copy_for_forwarding m r = Some m' \<longrightarrow> class_of_msg m' = Some c)"
  using label_of_some(3) msg_with_cast forwarded_class by metis

lemmas nf_follows_simps = nf_follows_def sent_classes_simps label_of_simps nf_spec.intros cast_msg_class
  nf_create_msg_for_nr_def nf_create_msg_for_ni_def

lemma nf_process_state_close_refines [wp_intro]:
  assumes "nf_state s \<in> {Nf_close, Nf_pending_check, Nf_pending, Nf_pending_installing}" "sent w' = sent w"
  shows "nf_refines (L_msg Anslp_create) s w (nf_process_state_close d m c (s', w'))"
  using assms unfolding post_nf_process_state_close nf_process_create_def nf_set_auction_rule_def
  by (simp add: wp Let_def)
    (intro conjI impI allI wp_intro; simp add: wp nf_follows_simps wrong_conf_message_def)

lemma nf_close_refines:
  "nf_state s = Nf_close \<Longrightarrow> nf_refines (label_of evt) s w (nf_handle_state_close d evt (s, w))"
  unfolding nf_handle_state_close_def
  by (cases "msg_with Anslp_create evt")
    (auto simp: wp Let_def nf_follows_simps label_of_some intro!: wp_intro)

lemma nf_create_again_refines [wp_intro]:
  assumes "nf_state s = st" "st \<in> {Nf_pending_check, Nf_pending, Nf_pending_installing}" "cast_msg Anslp_create m = Some c"
    "label_of evt = L_msg Anslp_create"
  shows "nf_refines (label_of evt) s w (nf_create_again st d m c (s, w))"
  using assms forwarded_class [OF assms(3)] unfolding nf_create_again_def
  by (auto simp: wp Let_def nf_follows_simps intro!: wp_intro)

lemma nf_not_reached_refines [wp_intro]:
  assumes "nf_state s \<in> {Nf_pending_check, Nf_pending, Nf_pending_installing}" "l = L_timer \<or> l = L_no_next_node"
  shows "nf_refines l s w (nf_not_reached d (s, w))"
  using assms by (simp add: nf_not_reached_def wp nf_follows_simps)

lemma nf_pending_check_refines:
  "nf_state s = Nf_pending_check \<Longrightarrow> nf_refines (label_of evt) s w (nf_handle_state_pending_check d evt (s, w))"
  unfolding nf_handle_state_pending_check_def nf_api_check_def
  by (simp add: wp Let_def) (intro conjI impI allI wp_intro; auto simp: nf_follows_simps dest: label_of_some dest!: msg_with_facts)

lemma nf_pending_refines:
  "nf_state s = Nf_pending \<Longrightarrow> nf_inv s \<Longrightarrow> nf_refines (label_of evt) s w (nf_handle_state_pending d evt (s, w))"
  unfolding nf_handle_state_pending_def nf_response_pending_def
  by (simp add: wp Let_def) (intro conjI impI allI wp_intro;
      auto simp: nf_follows_simps nf_inv_def dest!: label_of_some same_actions_sent msg_with_facts intro!: wp_intro)

lemma nf_installing_refines:
  "nf_state s = Nf_pending_installing \<Longrightarrow> nf_refines (label_of evt) s w (nf_handle_state_pending_installing d evt (s, w))"
  unfolding nf_handle_state_pending_installing_def nf_api_install_def
  by (simp add: wp Let_def split_beta) (intro conjI impI allI wp_intro;
      auto simp: wp nf_follows_simps anslp_msg_copy_def dest!: same_actions_sent msg_with_facts label_of_some(1,6))

lemma nf_anslp_bidding_refines [wp_intro]:
  "nf_state s = st \<Longrightarrow> st = Nf_auctioning \<or> st = Nf_pending_teardown \<Longrightarrow> cast_msg Anslp_bidding m = Some b \<Longrightarrow>
   label_of evt = L_msg Anslp_bidding \<Longrightarrow> nf_refines (label_of evt) s w (nf_anslp_bidding d st m t b (s, w))"
  unfolding nf_anslp_bidding_def nf_create_auction_rule_def
  by (auto simp: wp nf_follows_simps dest: same_actions_sent dest!: forwarded_class intro!: wp_intro)

lemma nf_auctioning_refines:
  "nf_state s = Nf_auctioning \<Longrightarrow> nf_refines (label_of evt) s w (nf_handle_state_auctioning d evt (s, w))"
  unfolding nf_handle_state_auctioning_def nf_anslp_refresh_def nf_response_auctioning_def
  by (simp add: wp Let_def) (intro conjI impI allI wp_intro;
      auto simp: nf_follows_simps dest: label_of_some same_actions_sent dest!: msg_with_facts)

lemma nf_teardown_refines:
  "nf_state s = Nf_pending_teardown \<Longrightarrow> nf_refines (label_of evt) s w (nf_handle_state_pending_teardown d evt (s, w))"
  unfolding nf_handle_state_pending_teardown_def
  by (simp add: wp Let_def) (intro conjI impI allI wp_intro; auto simp: nf_follows_simps dest: label_of_some dest!: msg_with_facts)

lemma nf_handle_refines: "nf_inv s \<Longrightarrow> nf_refines (label_of evt) s w (nf_handle d evt (s, w))"
  by (cases "nf_state s") (simp_all add: nf_handle_def nf_close_refines nf_pending_check_refines nf_pending_refines
      nf_installing_refines nf_auctioning_refines nf_teardown_refines)

text \<open>
  C11: every event that a forwarder session processes is a step of the abstract state machine \<open>nf_spec\<close>, which fixes
  the next state and the classes of the messages that are sent. In particular the auctioning state is entered
  only from the installing state, when the application reports the installed objects, and the initiator gets
  the response then.
\<close>

theorem nf_refines_spec:
  assumes "nf_inv s" "nf_process_event d evt (s, w) = (Ok (), s', w')"
  shows "nf_spec (nf_state s) (label_of evt) (sent_classes w w') (nf_state s') \<and>
    (nf_state s' = Nf_auctioning \<longrightarrow> nf_state s = Nf_auctioning \<or>
       nf_state s = Nf_pending_installing \<and> label_of evt = L_install \<and> sent_classes w w' = [Some Anslp_response])"
proof -
  obtain st s1 where "nf_handle d evt (s, w) = (Ok st, s1, w')" "s' = s1\<lparr>nf_state := st\<rparr>"
    using assms(2) by (auto simp: nf_process_event_def split: call_splits)
  with nf_handle_refines [OF assms(1), of evt w d]
  have "nf_spec (nf_state s) (label_of evt) (sent_classes w w') (nf_state s')" by (simp add: nf_follows_def)
  then show ?thesis by (auto simp: nf_spec_auctioning)
qed

section \<open>The answer to the initiator\<close>

text \<open>The installed objects, in some order, become the last ones of the response.\<close>

lemma nf_install_step:
  assumes "nf_state s = Nf_pending_installing" "nf_response_message s = Some m" "cast_msg Anslp_response m = Some resp"
    and "wf_msg resp" "rule s = Some r" "object_responses r = []" "length (object_requests r) = length objs"
    and "ev_data evt = Api_install_event objs" "wf_object_list (plat d) objs" "uuid_ok (plat d)"
  shows "\<exists>s' w' new. nf_process_event d evt (s, w) = (Ok (), s', w') \<and> nf_state s' = Nf_auctioning \<and>
    sent w' = sent w @ [new_ntlp_msg (sess_id s) (set_mspec_list new resp) (routing_info m) 0] \<and>
    mset new = mset (map snd objs) \<and> (\<forall>obj \<in> set new. wf_object obj \<and> is_mspec obj) \<and> nf_lifetime s' = nf_lifetime s"
proof -
  obtain r' w1 where rw: "set_reponse_objects (plat d) objs (r, w) = (r', w1)" by fastforce
  note new = installed_responses [OF assms(10,9,6) rw]
  let ?new = "map snd (object_responses r')"
  let ?m = "new_ntlp_msg (sess_id s) (set_mspec_list ?new resp) (routing_info m) 0"
  have c: "anslp_msg_copy resp = resp" using assms(4) by (simp add: anslp_msg_copy_id)
  have "post (\<lambda>st (s', w'). st = Nf_auctioning \<and> sent w' = sent w @ [?m] \<and> nf_lifetime s' = nf_lifetime s) (\<lambda>_ _. False) (\<lambda>_ _. False)
    (nf_handle_state_pending_installing d evt (s, w))"
    using assms rw c new(3)
    by (simp add: nf_handle_state_pending_installing_def nf_api_install_def event_pred_defs wp Let_def
        get_number_mspec_request_objects_def) (simp only: new(5))
  then obtain s' w' where step: "nf_handle_state_pending_installing d evt (s, w) = (Ok Nf_auctioning, s', w')"
    and sent: "sent w' = sent w @ [?m]" "nf_lifetime s' = nf_lifetime s"
    by (elim post_returns) auto
  have "nf_process_event d evt (s, w) = (Ok (), s'\<lparr>nf_state := Nf_auctioning\<rparr>, w')"
    using assms(1) step by (simp add: nf_process_event_def nf_handle_def)
  moreover have "nf_state (s'\<lparr>nf_state := Nf_auctioning\<rparr>) = Nf_auctioning" "nf_lifetime (s'\<lparr>nf_state := Nf_auctioning\<rparr>) = nf_lifetime s"
    using sent(2) by simp_all
  ultimately show ?thesis using sent(1) new(1,4) by blast
qed

text \<open>
  A success response from the receiver's side: the session keeps it, hands its rule to the application and waits for it.
\<close>

definition can_install :: "'m dispatcher \<Rightarrow> 'm world \<Rightarrow> bool" where
  "can_install d w = (rule_installer d = Nop_auction_rule_installer \<or> \<not> install_auction_rules_flag (conf d) \<or>
     (\<not> shutdownflag w \<and> (\<forall>q e. enqueue_element (plat d) q e \<noteq> None)))"

lemma install_rules_ok:
  assumes "can_install d w"
  shows "fst (install_auction_rules d i (Some r) w) = Ok ()"
proof -
  have "(\<forall>q e. enqueue_element (plat d) q e \<noteq> None) \<Longrightarrow> enqueue_element (plat d) q e \<noteq> None" for q e by blast
  then show ?thesis
    using assms
    by (auto simp del: not_None_eq simp: can_install_def install_auction_rules_def netauct_create_def handle_create_session_def
        post_event_def enqueue_def Let_def split: installer_kind.split option.splits)
qed

lemma nf_response_step:
  assumes "nf_inv s" "nf_state s = Nf_pending" "nf_create_message s = Some latest"
    and "msg_with Anslp_response evt = Some (m, resp)" "is_anslp_response evt latest" "is_success resp" "ev_sid evt \<noteq> None"
    and "rule s = Some r" "can_install d w"
  shows "\<exists>s' w'. nf_process_event d evt (s, w) = (Ok (), s', w') \<and> nf_state s' = Nf_pending_installing \<and> sent w' = sent w \<and>
    nf_response_message s' = Some m \<and> rule s' = Some r \<and> nf_lifetime s' = nf_lifetime s"
proof -
  obtain c where c: "cast_msg Anslp_create latest = Some c" using assms(1-3) by (auto simp: nf_inv_def)
  have body: "body_of Anslp_response evt = Some resp" using assms(4) by (simp add: msg_with_body_of)
  have svc: "post Q E F (service (install_auction_rules d i (Some r)) (s1, wa))"
    if "\<And>w'. same_actions wa w' \<Longrightarrow> Q () (s1, w')" "can_install d wa" for Q E F i and s1 :: "'a nf_session" and wa
    using that install_rules_ok [OF that(2), of i r]
    by (cases rule: installer_service.svc_cases [OF install_svc.installer_service_axioms, of d i r wa])
      (simp_all add: service_def same_actions_def)
  have can: "can_install d (started d i n w)" for i n using assms(9) by (simp add: can_install_def)
  have "post (\<lambda>st (s', w'). st = Nf_pending_installing \<and> sent w' = sent w \<and> nf_response_message s' = Some m \<and>
      rule s' = Some r \<and> nf_lifetime s' = nf_lifetime s) (\<lambda>_ _. False) (\<lambda>_ _. False) (nf_handle_state_pending d evt (s, w))"
    using assms(2-8) c is_response_same_msn(1) [OF assms(5) body c] body_of_only [OF body] can
    by (simp add: nf_handle_state_pending_def nf_response_pending_def nf_set_last_response_message_def wp Let_def split_beta)
      (intro svc; auto dest: same_actions_sent)
  then obtain s' w' where step: "nf_handle_state_pending d evt (s, w) = (Ok Nf_pending_installing, s', w')"
    and "sent w' = sent w" "nf_response_message s' = Some m" "rule s' = Some r" "nf_lifetime s' = nf_lifetime s"
    by (elim post_returns) auto
  moreover have "nf_process_event d evt (s, w) = (Ok (), s'\<lparr>nf_state := Nf_pending_installing\<rparr>, w')"
    using assms(2) step by (intro nf_process_eq) (simp add: nf_handle_def)
  ultimately show ?thesis by simp
qed

text \<open>
  C31: when the application reports as many installed objects as were requested, the forwarder sends one response
  to the initiator: with the code, the sequence number and the lifetime of the receiver's response, the
  receiver's objects first and then exactly the installed objects. The hypotheses on UUIDs are those of
  \<open>libuuid\<close>.
\<close>

theorem nf_install_answer:
  assumes "nf_state s = Nf_pending_installing" "nf_response_message s = Some m" "cast_msg Anslp_response m = Some resp"
    and "wf_msg resp" "get_mspec_objects resp = Some old" "mspec_count resp + length objs \<le> mspec_limit"
    and "rule s = Some r" "object_responses r = []" "length (object_requests r) = length objs"
    and "ev_data evt = Api_install_event objs" "wf_object_list (plat d) objs" "uuid_ok (plat d)"
  shows "\<exists>s' w' m' c new. nf_process_event d evt (s, w) = (Ok (), s', w') \<and> nf_state s' = Nf_auctioning \<and>
    sent w' = sent w @ [m'] \<and> routing_info m' = routing_info m \<and> msg m' = Some c \<and> msg_class c = Anslp_response \<and>
    find_information_code c = find_information_code resp \<and>
    find_msg_sequence_number c = find_msg_sequence_number resp \<and>
    find_session_lifetime c = find_session_lifetime resp \<and>
    get_mspec_objects c = Some (old @ new) \<and> mset new = mset (map snd objs)"
proof -
  obtain s' w' new where step: "nf_process_event d evt (s, w) = (Ok (), s', w')" "nf_state s' = Nf_auctioning"
    "sent w' = sent w @ [new_ntlp_msg (sess_id s) (set_mspec_list new resp) (routing_info m) 0]"
    "mset new = mset (map snd objs)" "\<forall>obj \<in> set new. wf_object obj \<and> is_mspec obj"
    using nf_install_step [OF assms(1-4,7-12)] by blast
  let ?c = "set_mspec_list new resp"
  have "mspec_count resp + length new \<le> mspec_limit" using assms(6) arg_cong [OF step(4), of size] by simp
  note laws = set_mspec_list_laws [OF assms(4) this step(5)]
  have "get_mspec_objects ?c = Some (old @ new)" "msg_class ?c = Anslp_response"
    using laws assms(3,5) by (auto simp: cast_msg_class)
  moreover have "msg (new_ntlp_msg (sess_id s) ?c (routing_info m) 0) = Some ?c"
    "routing_info (new_ntlp_msg (sess_id s) ?c (routing_info m) 0) = routing_info m" by (simp_all add: new_ntlp_msg_def)
  ultimately show ?thesis using step laws by blast
qed

end
