(* ===== verification/Nr_Session.thy ===== *)
theory Nr_Session
  imports Example_Node
begin

text \<open>
  The receiver's state machine, \<open>nr_session\<close> (\<open>src/src/nr_session.cpp\<close>,
  \<open>src/include/nr_session.h\<close>), in the style of \<open>Ni_Session\<close>. The second rule
  pointer \<open>act_rule\<close> and \<open>response_timer\<close> are never used and left out.
\<close>

datatype nr_state = Nr_close | Nr_pending | Nr_pending_installing | Nr_auctioning | Nr_pending_teardown

record 'm nr_session = "'m session" +
  nr_state :: nr_state
  nr_mri :: "mri option"
  nr_msn_bidding :: u32
  nr_lifetime :: u32
  nr_max_lifetime :: u32
  nr_resp_timeout :: u32
  nr_create_counter :: u32
  nr_retries :: u32
  nr_state_timer :: timer
  nr_create_message :: "'m ntlp_msg option"

text \<open>\<open>response_timeout\<close> and \<open>msg_hop_count\<close> are not initialised by the constructor (\<open>garbage\<close>).\<close>

definition new_nr_session :: "session_id \<Rightarrow> config \<Rightarrow> u32 \<Rightarrow> u32 \<Rightarrow> 'm nr_session" where
  "new_nr_session i c random garbage =
     \<lparr>rule = Some new_auction_rule, sess_id = i, session_type = St_receiver, msn = 0,
      msg_hop_count = garbage,
      nr_state = Nr_close, nr_mri = None, nr_msn_bidding = random, nr_lifetime = 0,
      nr_max_lifetime = nr_max_session_lifetime c, nr_resp_timeout = garbage, nr_create_counter = 0,
      nr_retries = nr_max_retries c, nr_state_timer = 0, nr_create_message = None\<rparr>"

definition nr_is_final :: "'m nr_session \<Rightarrow> bool" where
  "nr_is_final s = (nr_state s = Nr_close)"

type_synonym ('m, 'a) nr_step = "(exn, 'a) outcome \<times> 'm nr_session \<times> 'm world"

definition nr_start_state_timer :: "'m dispatcher \<Rightarrow> u32 \<Rightarrow> 'm nr_session \<times> 'm world \<Rightarrow> 'm nr_session \<times> 'm world" where
  "nr_start_state_timer d seconds = (\<lambda>(s, w).
     let (t, w) = timer_start (plat d) (sess_id s) (sint seconds) w
     in (s\<lparr>nr_state_timer := t\<rparr>, w))"

definition nr_stop_state_timer :: "'m nr_session \<times> 'm world \<Rightarrow> 'm nr_session \<times> 'm world" where
  "nr_stop_state_timer = (\<lambda>(s, w). (s\<lparr>nr_state_timer := timer_stop\<rparr>, w))"

definition nr_next_msg_bidding_sequence_number :: "u32 \<Rightarrow> u32" where
  "nr_next_msg_bidding_sequence_number n = n + 1"

text \<open>\<open>set_last_create_message\<close> deletes an old message twice.\<close>

definition nr_set_last_create_message :: "'m ntlp_msg \<Rightarrow> 'm nr_session \<times> 'm world \<Rightarrow> ('m, unit) nr_step" where
  "nr_set_last_create_message m = (\<lambda>(s, w).
     if nr_create_message s \<noteq> None then (Crash Double_free, s, w)
     else (Ok (), s\<lparr>nr_create_message := Some m\<rparr>, w))"

definition nr_save_auction_rule :: "'m dispatcher \<Rightarrow> 'm anslp_msg \<Rightarrow> 'm nr_session \<times> 'm world
    \<Rightarrow> ('m, 'm anslp_object list \<times> bool) nr_step" where
  "nr_save_auction_rule d create = save_auction_rule d create"

definition nr_create_auction_rule :: "'m dispatcher \<Rightarrow> 'm anslp_msg \<Rightarrow> 'm nr_session \<times> 'm world
    \<Rightarrow> ('m, 'm auction_rule) nr_step" where
  "nr_create_auction_rule d bidding = create_auction_rule d bidding"

definition nr_build_bidding_message :: "'m dispatcher \<Rightarrow> 'm object_list \<Rightarrow> 'm nr_session \<times> 'm world \<Rightarrow> ('m, 'm ntlp_msg) nr_step" where
  "nr_build_bidding_message d objs = (\<lambda>(s, w).
     deref (nr_mri s) Assert_failed (s, w) (\<lambda>routing.
       let nslp_mri = invertDirection (plat d) routing;
           n = nr_next_msg_bidding_sequence_number (nr_msn_bidding s);
           s = s\<lparr>nr_msn_bidding := n\<rparr>;
           bidding = set_msg_sequence_number n new_anslp_bidding;
           bidding = set_mspec_list (map (object_copy \<circ> snd) objs) bidding
       in (Ok (new_ntlp_msg (sess_id s) bidding nslp_mri 0), s, w)))"

text \<open>A success response that carries the responses of the rule.\<close>

definition nr_success_response :: "'m dispatcher \<Rightarrow> u32 \<Rightarrow> 'm auction_rule \<Rightarrow> 'm ntlp_msg \<Rightarrow> 'm ntlp_msg" where
  "nr_success_response d lifetime r m =
     (let resp = create_success_response (plat d) lifetime m
      in resp\<lparr>msg := map_option (set_mspec_list (map (object_copy \<circ> snd) (object_responses r))) (msg resp)\<rparr>)"

section \<open>The state handlers\<close>

text \<open>
  The \<open>try\<close> block of \<open>handle_state_close\<close>. Only the installer's error is caught: the error for a
  routing information that is not path-coupled leaves the handler.
\<close>

definition nr_setup_session :: "'m dispatcher \<Rightarrow> 'm ntlp_msg \<Rightarrow> 'm anslp_msg \<Rightarrow> u32 \<Rightarrow> 'm nr_session \<times> 'm world \<Rightarrow> ('m, nr_state) nr_step" where
  "nr_setup_session d m c lifetime sw = (case as_pathcoupled (routing_info m) of
       None \<Rightarrow> (Throw (Request_error 5 9), sw)
     | Some _ \<Rightarrow>
         call (nr_save_auction_rule d c sw) (\<lambda>(missing, participating) (s, w).
           if participating
           then let s = s\<lparr>nr_create_counter := nr_create_counter s + 1\<rparr>
                in (Ok Nr_pending, nr_start_state_timer d lifetime (s, w))
           else let r = new_auction_rule;
                    s = s\<lparr>rule := Some r\<rparr>;
                    (s, w) = send (nr_success_response d lifetime r m) (s, w)
                in (Ok Nr_auctioning, nr_start_state_timer d lifetime (s, w))))"

definition nr_try_setup :: "'m dispatcher \<Rightarrow> 'm ntlp_msg \<Rightarrow> 'm anslp_msg \<Rightarrow> u32 \<Rightarrow> 'm nr_session \<times> 'm world \<Rightarrow> ('m, nr_state) nr_step" where
  "nr_try_setup d m c lifetime sw = (case nr_setup_session d m c lifetime sw of
       (Throw e, sw) \<Rightarrow> (case e of
           Installer_error _ _ \<Rightarrow> (Ok Nr_close, send (create_response (plat d) 5 9 m) sw)
         | _ \<Rightarrow> (Throw e, sw))
     | r \<Rightarrow> r)"

definition nr_handle_state_close :: "'m dispatcher \<Rightarrow> 'm event \<Rightarrow> 'm nr_session \<times> 'm world \<Rightarrow> ('m, nr_state) nr_step" where
  "nr_handle_state_close d evt = (\<lambda>(s, w). case msg_with Anslp_create evt of
       Some (m, c) \<Rightarrow>
         let s = s\<lparr>nr_mri := Some (routing_info m), nr_resp_timeout := nr_response_timeout (conf d)\<rparr>
         in (case check_preconditions (get_session_lifetime c) (nr_max_lifetime s) m of
              Throw e \<Rightarrow> (Ok Nr_close, send (create_error_response (plat d) e m) (s, w))
            | Crash f \<Rightarrow> (Crash f, s, w)
            | Ok lifetime \<Rightarrow>
                call (nr_set_last_create_message m (s, w)) (\<lambda>_ (s, w).
                  if lifetime > 0
                  then let s = s\<lparr>nr_lifetime := lifetime, msn := get_msg_sequence_number c\<rparr>
                       in nr_try_setup d m c lifetime (s, w)
                  else (Ok Nr_close, send (create_response (plat d) 5 9 m) (s, w))))
     | None \<Rightarrow> (Ok Nr_close, s, w))"

text \<open>Giving up while the application does not answer.\<close>

definition nr_give_up :: "'m dispatcher \<Rightarrow> 'm nr_session \<times> 'm world \<Rightarrow> ('m, nr_state) nr_step" where
  "nr_give_up d = (\<lambda>(s, w).
     deref (nr_create_message s) Assert_failed (s, w) (\<lambda>m.
       (Ok Nr_close, send (create_response (plat d) 5 4 m) (s, w))))"

definition nr_timeout_pending :: "'m dispatcher \<Rightarrow> 'm nr_session \<times> 'm world \<Rightarrow> ('m, nr_state) nr_step" where
  "nr_timeout_pending d = (\<lambda>(s, w).
     if nr_create_counter s < nr_retries s
     then let s = s\<lparr>nr_create_counter := nr_create_counter s + 1\<rparr>
          in deref (nr_create_message s) Assert_failed (s, w) (\<lambda>m.
             deref (cast_msg Anslp_create m) Assert_failed (s, w) (\<lambda>c.
             call (nr_save_auction_rule d c (s, w)) (\<lambda>_ (s, w).
               (Ok Nr_pending, nr_start_state_timer d (nr_lifetime s) (s, w)))))
     else nr_give_up d (s, w))"

definition nr_api_check :: "'m dispatcher \<Rightarrow> 'm object_list \<Rightarrow> 'm nr_session \<times> 'm world \<Rightarrow> ('m, nr_state) nr_step" where
  "nr_api_check d checked sw =
     call (prune_rule d checked sw) (\<lambda>r (s, w).
       let s = s\<lparr>nr_create_counter := 0\<rparr>
       in call (service (install_auction_rules d (session_id_to_string (sess_id s)) (rule s)) (s, w)) (\<lambda>_ (s, w).
            (Ok Nr_pending_installing, nr_start_state_timer d (nr_lifetime s) (s, w))))"

definition nr_handle_state_pending :: "'m dispatcher \<Rightarrow> 'm event \<Rightarrow> 'm nr_session \<times> 'm world \<Rightarrow> ('m, nr_state) nr_step" where
  "nr_handle_state_pending d evt = (\<lambda>(s, w).
     if is_no_next_node_found_event evt \<or> is_timer_of evt (nr_state_timer s) then nr_timeout_pending d (s, w)
     else case api_check_of evt of
            Some checked \<Rightarrow> nr_api_check d checked (s, w)
          | None \<Rightarrow> (Ok Nr_pending, s, w))"

definition nr_timeout_installing :: "'m dispatcher \<Rightarrow> 'm nr_session \<times> 'm world \<Rightarrow> ('m, nr_state) nr_step" where
  "nr_timeout_installing d = (\<lambda>(s, w).
     if nr_create_counter s < nr_retries s
     then let s = s\<lparr>nr_create_counter := nr_create_counter s + 1\<rparr>
          in call (service (install_auction_rules d (session_id_to_string (sess_id s)) (rule s)) (s, w)) (\<lambda>_ (s, w).
               (Ok Nr_pending_installing, nr_start_state_timer d (nr_lifetime s) (s, w)))
     else nr_give_up d (s, w))"

definition nr_api_install :: "'m dispatcher \<Rightarrow> 'm object_list \<Rightarrow> 'm nr_session \<times> 'm world \<Rightarrow> ('m, nr_state) nr_step" where
  "nr_api_install d objs = (\<lambda>(s, w).
     deref (nr_create_message s) Assert_failed (s, w) (\<lambda>m.
     deref (rule s) Null_deref (s, w) (\<lambda>r.
       if get_number_mspec_request_objects r = length objs
       then let (r, w) = set_reponse_objects (plat d) objs (r, w);
                s = s\<lparr>rule := Some r\<rparr>;
                (s, w) = send (nr_success_response d (nr_lifetime s) r m) (s, w)
            in (Ok Nr_auctioning, nr_start_state_timer d (nr_lifetime s) (s, w))
       else let s = s\<lparr>nr_lifetime := 0\<rparr>
            in call (if get_number_mspec_response_objects r > 0
                     then service (remove_auction_rules d (session_id_to_string (sess_id s)) (Some r)) (s, w)
                     else (Ok (), s, w)) (\<lambda>_ sw.
                 (Ok Nr_pending_teardown,
                  nr_start_state_timer d (nr_response_timeout (conf d)) (send (create_response (plat d) 5 4 m) sw))))))"

definition nr_handle_state_pending_installing :: "'m dispatcher \<Rightarrow> 'm event \<Rightarrow> 'm nr_session \<times> 'm world \<Rightarrow> ('m, nr_state) nr_step" where
  "nr_handle_state_pending_installing d evt = (\<lambda>(s, w).
     if is_timer_of evt (nr_state_timer s) then nr_timeout_installing d (s, w)
     else if is_api_check evt then (Ok Nr_pending_installing, s, w)
     else case api_install_of evt of
            Some objs \<Rightarrow> nr_api_install d objs (s, w)
          | None \<Rightarrow> (Ok Nr_pending_installing, s, w))"

definition nr_begin_teardown :: "'m dispatcher \<Rightarrow> 'm nr_session \<times> 'm world \<Rightarrow> ('m, nr_state) nr_step" where
  "nr_begin_teardown d = (\<lambda>(s, w).
     deref (rule s) Null_deref (s, w) (\<lambda>r.
       if get_number_mspec_response_objects r > 0
       then call (service (remove_auction_rules d (session_id_to_string (sess_id s)) (Some r)) (s, w))
              (\<lambda>_ sw. (Ok Nr_pending_teardown, nr_start_state_timer d (nr_response_timeout (conf d)) sw))
       else (Ok Nr_close, nr_stop_state_timer (s, w))))"

definition nr_anslp_refresh :: "'m dispatcher \<Rightarrow> 'm ntlp_msg \<Rightarrow> 'm anslp_msg \<Rightarrow> 'm nr_session \<times> 'm world \<Rightarrow> ('m, nr_state) nr_step" where
  "nr_anslp_refresh d m c = (\<lambda>(s, w).
     let n = get_msg_sequence_number c
     in case check_preconditions (get_session_lifetime c) (nr_max_lifetime s) m of
          Throw e \<Rightarrow> (Ok Nr_auctioning, send (create_error_response (plat d) e m) (s, w))
        | Crash f \<Rightarrow> (Crash f, s, w)
        | Ok lifetime \<Rightarrow>
            if \<not> is_greater_than n (msn s) then (Ok Nr_auctioning, s, w)
            else if lifetime > 0
            then let s = s\<lparr>nr_lifetime := lifetime, msn := n\<rparr>;
                     (s, w) = send (create_success_response (plat d) lifetime m) (s, w)
                 in (Ok Nr_auctioning, nr_start_state_timer d lifetime (s, w))
            else nr_begin_teardown d (send (create_success_response (plat d) lifetime m) (s, w)))"

definition nr_anslp_bidding :: "'m dispatcher \<Rightarrow> 'm event \<Rightarrow> 'm anslp_msg \<Rightarrow> 'm nr_session \<times> 'm world \<Rightarrow> ('m, nr_state) nr_step" where
  "nr_anslp_bidding d evt bidding sw = (case ev_data evt of
       Msg_event m True \<Rightarrow>
         call (nr_create_auction_rule d bidding sw) (\<lambda>to_post (s, w).
         call (service (auction_interaction d True (session_id_to_string (sess_id s)) to_post) (s, w))
           (\<lambda>_ sw. (Ok Nr_auctioning, sw)))
     | _ \<Rightarrow> (Ok Nr_auctioning, sw))"

definition nr_api_bidding :: "'m dispatcher \<Rightarrow> nr_state \<Rightarrow> 'm object_list \<Rightarrow> bool \<Rightarrow> 'm nr_session \<times> 'm world \<Rightarrow> ('m, nr_state) nr_step" where
  "nr_api_bidding d st objs return_queue sw =
     call (nr_build_bidding_message d objs sw) (\<lambda>m sw.
       let (s, w) = send m sw
       in (Ok st, s, if return_queue then emit (Return_message (sess_id s)) w else w))"

definition nr_handle_state_auctioning :: "'m dispatcher \<Rightarrow> 'm event \<Rightarrow> 'm nr_session \<times> 'm world \<Rightarrow> ('m, nr_state) nr_step" where
  "nr_handle_state_auctioning d evt = (\<lambda>(s, w). case msg_with Anslp_refresh evt of
       Some (m, c) \<Rightarrow> nr_anslp_refresh d m c (s, w)
     | None \<Rightarrow> (case body_of Anslp_bidding evt of
         Some bidding \<Rightarrow> nr_anslp_bidding d evt bidding (s, w)
       | None \<Rightarrow> (case api_bidding_of evt of
           Some (objs, rq) \<Rightarrow> nr_api_bidding d Nr_auctioning objs rq (s, w)
         | None \<Rightarrow>
             if is_timer_of evt (nr_state_timer s)
             then nr_begin_teardown d (report ''session timed out'' (s, w))
             else if is_timer evt then (Ok Nr_auctioning, s, w)
             else (Ok Nr_auctioning, s, w))))"

definition nr_timeout_teardown :: "'m dispatcher \<Rightarrow> 'm nr_session \<times> 'm world \<Rightarrow> ('m, nr_state) nr_step" where
  "nr_timeout_teardown d = (\<lambda>(s, w).
     if nr_create_counter s < nr_retries s
     then let s = s\<lparr>nr_create_counter := nr_create_counter s + 1\<rparr>
          in call (service (remove_auction_rules d (session_id_to_string (sess_id s)) (rule s)) (s, w))
               (\<lambda>_ sw. (Ok Nr_pending_teardown, nr_start_state_timer d (nr_response_timeout (conf d)) sw))
     else (Ok Nr_close, s, w))"

definition nr_handle_state_pending_teardown :: "'m dispatcher \<Rightarrow> 'm event \<Rightarrow> 'm nr_session \<times> 'm world \<Rightarrow> ('m, nr_state) nr_step" where
  "nr_handle_state_pending_teardown d evt = (\<lambda>(s, w).
     if is_timer_of evt (nr_state_timer s) then nr_timeout_teardown d (s, w)
     else if is_api_check evt then (Ok Nr_pending_teardown, s, w)
     else if is_api_install evt then (Ok Nr_pending_teardown, s, w)
     else if is_anslp_bidding evt then (Ok Nr_pending_teardown, s, w)
     else case api_bidding_of evt of
            Some (objs, rq) \<Rightarrow> nr_api_bidding d Nr_pending_teardown objs rq (s, w)
          | None \<Rightarrow>
              if is_api_remove evt then (Ok Nr_close, nr_stop_state_timer (s, w))
              else (Ok Nr_pending_teardown, s, w))"

definition nr_handle :: "'m dispatcher \<Rightarrow> 'm event \<Rightarrow> 'm nr_session \<times> 'm world \<Rightarrow> ('m, nr_state) nr_step" where
  "nr_handle d evt = (\<lambda>(s, w). case nr_state s of
       Nr_close \<Rightarrow> nr_handle_state_close d evt (s, w)
     | Nr_pending \<Rightarrow> nr_handle_state_pending d evt (s, w)
     | Nr_pending_installing \<Rightarrow> nr_handle_state_pending_installing d evt (s, w)
     | Nr_auctioning \<Rightarrow> nr_handle_state_auctioning d evt (s, w)
     | Nr_pending_teardown \<Rightarrow> nr_handle_state_pending_teardown d evt (s, w))"

definition nr_process_event :: "'m dispatcher \<Rightarrow> 'm event \<Rightarrow> 'm nr_session \<times> 'm world \<Rightarrow> ('m, unit) nr_step" where
  "nr_process_event d evt sw =
     call (nr_handle d evt sw) (\<lambda>st (s, w). (Ok (), s\<lparr>nr_state := st\<rparr>, w))"

section \<open>Postconditions of the helpers\<close>

lemma nr_plain [simp]:
  "nr_start_state_timer d n (s, w) = (s\<lparr>nr_state_timer := timer_msg_id (plat d) (timers_made w)\<rparr>,
     started d (sess_id s) n w)"
  "nr_stop_state_timer (s, w) = (s\<lparr>nr_state_timer := 0\<rparr>, w)"
  by (simp_all add: nr_start_state_timer_def nr_stop_state_timer_def timer_start_started timer_stop_def)

lemma post_nr_set_last_create [wp]:
  "post Q E F (nr_set_last_create_message m (s, w)) \<longleftrightarrow>
     (if nr_create_message s = None then Q () (s\<lparr>nr_create_message := Some m\<rparr>, w) else F Double_free (s, w))"
  by (simp add: nr_set_last_create_message_def)

definition nr_bidding_of :: "'m object_list \<Rightarrow> u32 \<Rightarrow> 'm anslp_msg" where
  "nr_bidding_of objs n = set_mspec_list (map (object_copy \<circ> snd) objs) (set_msg_sequence_number n new_anslp_bidding)"

lemma class_nr_bidding_of [simp]: "msg_class (nr_bidding_of l n) = Anslp_bidding"
  by (simp add: nr_bidding_of_def)

lemma post_nr_build_bidding [wp]:
  "post Q E F (nr_build_bidding_message d objs (s, w)) \<longleftrightarrow>
     (nr_mri s = None \<longrightarrow> F Assert_failed (s, w)) \<and>
     (\<forall>r. nr_mri s = Some r \<longrightarrow>
        Q (new_ntlp_msg (sess_id s) (nr_bidding_of objs (nr_msn_bidding s + 1)) (invertDirection (plat d) r) 0)
          (s\<lparr>nr_msn_bidding := nr_msn_bidding s + 1\<rparr>, w))"
  by (simp add: nr_build_bidding_message_def nr_bidding_of_def wp Let_def nr_next_msg_bidding_sequence_number_def)

lemma post_nr_try_setup:
  "post Q E F (nr_try_setup d m c lifetime sw)
   = post Q (\<lambda>e sw. case e of Installer_error _ _ \<Rightarrow> Q Nr_close (send (create_response (plat d) 5 9 m) sw) | _ \<Rightarrow> E e sw) F
       (nr_setup_session d m c lifetime sw)"
  unfolding nr_try_setup_def
  by (cases "nr_setup_session d m c lifetime sw" rule: call_cases) (auto split: exn.split)

lemma post_nr_anslp_bidding [wp_intro]:
  assumes "\<And>w'. sent w' = sent w \<Longrightarrow> timers_made w' = timers_made w \<Longrightarrow> Q Nr_auctioning (s, w')"
    "\<And>w'. sent w' = sent w \<Longrightarrow> E wrong_conf_message (s, w')" "get_mspec_objects b = None \<Longrightarrow> F Null_deref (s, w)"
  shows "post Q E F (nr_anslp_bidding d evt b (s, w))"
proof (cases "\<exists>m. ev_data evt = Msg_event m True")
  case True
  then show ?thesis
    using assms(3) unfolding nr_anslp_bidding_def nr_create_auction_rule_def
    by (auto simp: wp, intro wp_intro) (auto intro!: assms(1,2) simp: same_actions_def add_requests_world sent_def)
next
  case False
  then have "nr_anslp_bidding d evt b (s, w) = (Ok Nr_auctioning, s, w)"
    by (auto simp: nr_anslp_bidding_def split: event_data.split bool.split)
  then show ?thesis using assms(1) by simp
qed

lemma post_nr_begin_teardown [wp_intro]:
  assumes "rule s = None \<Longrightarrow> F Null_deref (s, w)"
    "\<And>r w'. rule s = Some r \<Longrightarrow> same_actions w w' \<Longrightarrow>
       Q Nr_pending_teardown (s\<lparr>nr_state_timer := timer_msg_id (plat d) (timers_made w)\<rparr>,
         started d (sess_id s) (nr_response_timeout (conf d)) w')"
    "\<And>w'. same_actions w w' \<Longrightarrow> E wrong_conf_message (s, w')"
    "rule s \<noteq> None \<Longrightarrow> Q Nr_close (s\<lparr>nr_state_timer := 0\<rparr>, w)"
  shows "post Q E F (nr_begin_teardown d (s, w))"
  using assms
  by (simp add: nr_begin_teardown_def wp) (intro conjI impI allI wp_intro; simp add: same_actions_def)

section \<open>The invariant\<close>

definition nr_inv :: "'m nr_session \<Rightarrow> bool" where
  "nr_inv s = (session_type s = St_receiver \<and> rule s \<noteq> None \<and> nr_lifetime s \<le> nr_max_lifetime s \<and>
     nr_create_counter s \<le> max 1 (nr_retries s) \<and>
     (nr_create_message s = None \<longrightarrow> nr_create_counter s = 0) \<and>
     (nr_state s \<noteq> Nr_close \<longrightarrow> nr_mri s \<noteq> None \<and>
        (\<exists>m c. nr_create_message s = Some m \<and> cast_msg Anslp_create m = Some c \<and> get_mspec_objects c \<noteq> None)))"

definition nr_next :: "'m nr_session \<Rightarrow> nr_state \<Rightarrow> 'm nr_session \<times> 'm world \<Rightarrow> bool" where
  "nr_next s st sw = (nr_inv (fst sw\<lparr>nr_state := st\<rparr>) \<and> sess_id (fst sw) = sess_id s \<and>
     nr_max_lifetime (fst sw) = nr_max_lifetime s)"

definition nr_same_id :: "'m nr_session \<Rightarrow> 'm nr_session \<times> 'm world \<Rightarrow> bool" where
  "nr_same_id s sw = (sess_id (fst sw) = sess_id s)"

abbreviation nr_keeps :: "'m nr_session \<Rightarrow> ('m, nr_state) nr_step \<Rightarrow> bool" where
  "nr_keeps s \<equiv> post (nr_next s) (\<lambda>_. nr_same_id s) (\<lambda>_. nr_same_id s)"

lemmas nr_next_defs = nr_next_def nr_same_id_def nr_inv_def

lemma counter_step: "(a :: u32) < b \<Longrightarrow> a + 1 \<le> max 1 b"
  using inc_le [of a b] by (meson max.coboundedI2)

lemma nr_give_up_keeps [wp_intro]:
  "nr_inv (s'\<lparr>nr_state := Nr_close\<rparr>) \<Longrightarrow> sess_id s' = sess_id s \<Longrightarrow> nr_max_lifetime s' = nr_max_lifetime s \<Longrightarrow>
   nr_keeps s (nr_give_up d (s', w))"
  by (simp add: nr_give_up_def wp nr_next_defs)

lemma nr_try_setup_keeps [wp_intro]:
  assumes "nr_inv (s'\<lparr>nr_state := Nr_close\<rparr>)" "sess_id s' = sess_id s" "nr_max_lifetime s' = nr_max_lifetime s"
    "nr_mri s' \<noteq> None" "nr_create_message s' = Some m" "cast_msg Anslp_create m = Some c" "nr_create_counter s' = 0"
  shows "nr_keeps s (nr_try_setup d m c lifetime (s', w))"
  using assms unfolding post_nr_try_setup nr_setup_session_def nr_save_auction_rule_def
  by (simp add: wp Let_def) (intro conjI impI allI wp_intro; auto simp: wp nr_next_defs wrong_conf_message_def)

lemma nr_close_keeps: "nr_inv s \<Longrightarrow> nr_state s = Nr_close \<Longrightarrow> nr_keeps s (nr_handle_state_close d evt (s, w))"
  unfolding nr_handle_state_close_def
  by (simp add: wp Let_def) (intro conjI impI allI wp_intro; auto simp: wp nr_next_defs msg_with_cast)

lemma nr_pending_keeps:
  "nr_inv s \<Longrightarrow> nr_state s = Nr_pending \<Longrightarrow> nr_keeps s (nr_handle_state_pending d evt (s, w))"
  unfolding nr_handle_state_pending_def nr_timeout_pending_def nr_api_check_def nr_save_auction_rule_def
  by (simp add: wp Let_def) (intro conjI impI allI wp_intro; auto simp: wp nr_next_defs counter_step)

lemma nr_installing_keeps:
  "nr_inv s \<Longrightarrow> nr_state s = Nr_pending_installing \<Longrightarrow> nr_keeps s (nr_handle_state_pending_installing d evt (s, w))"
  unfolding nr_handle_state_pending_installing_def nr_timeout_installing_def nr_api_install_def
  by (simp add: wp Let_def split_beta)
    (intro conjI impI allI wp_intro; auto simp: wp nr_next_defs counter_step intro!: wp_intro)

lemma nr_auctioning_keeps:
  "nr_inv s \<Longrightarrow> nr_state s = Nr_auctioning \<Longrightarrow> nr_keeps s (nr_handle_state_auctioning d evt (s, w))"
  unfolding nr_handle_state_auctioning_def nr_anslp_refresh_def nr_api_bidding_def
  by (simp add: wp Let_def) (intro conjI impI allI wp_intro; auto simp: nr_next_defs)

lemma nr_teardown_keeps:
  "nr_inv s \<Longrightarrow> nr_state s = Nr_pending_teardown \<Longrightarrow> nr_keeps s (nr_handle_state_pending_teardown d evt (s, w))"
  unfolding nr_handle_state_pending_teardown_def nr_timeout_teardown_def nr_api_bidding_def
  by (simp add: wp Let_def) (intro conjI impI allI wp_intro; auto simp: nr_next_defs counter_step)

lemma nr_handle_keeps: "nr_inv s \<Longrightarrow> nr_keeps s (nr_handle d evt (s, w))"
  by (cases "nr_state s") (simp_all add: nr_handle_def nr_close_keeps nr_pending_keeps nr_installing_keeps
      nr_auctioning_keeps nr_teardown_keeps)

lemma nr_process_keeps:
  "nr_inv s \<Longrightarrow> post (\<lambda>_ sw. nr_inv (fst sw) \<and> sess_id (fst sw) = sess_id s \<and> nr_max_lifetime (fst sw) = nr_max_lifetime s)
     (\<lambda>_ sw. sess_id (fst sw) = sess_id s) (\<lambda>_ sw. sess_id (fst sw) = sess_id s) (nr_process_event d evt (s, w))"
  unfolding nr_process_event_def post_call
  by (rule post_mono [OF nr_handle_keeps]) (auto simp: nr_next_def nr_same_id_def)

interpretation nr_machine: session_machine "nr_process_event d" sess_id nr_inv for d
  by unfold_locales (rule post_mono [OF nr_process_keeps]; simp)

lemma nr_inv_new: "nr_inv (new_nr_session i c random garbage)"
  by (simp add: nr_inv_def new_nr_session_def)

text \<open>
  C9: the invariant of the receiver holds for a new session and is kept by every event that is processed: in
  particular the session's lifetime never exceeds the configured maximum, whatever lifetimes the
  CREATE and REFRESH messages ask for. The session id never changes, also when the handler throws or stops.
\<close>

theorem nr_invariant:
  "nr_inv (new_nr_session i c random garbage) \<and>
   nr_max_lifetime (new_nr_session i c random garbage) = nr_max_session_lifetime c \<and>
   (nr_inv s \<longrightarrow>
      post (\<lambda>_ (s', w'). nr_inv s' \<and> nr_lifetime s' \<le> nr_max_lifetime s \<and> sess_id s' = sess_id s)
        (\<lambda>_ (s', w'). sess_id s' = sess_id s)
        (\<lambda>_ (s', w'). sess_id s' = sess_id s) (nr_process_event d evt (s, w)))"
proof -
  have "nr_max_lifetime (new_nr_session i c random garbage) = nr_max_session_lifetime c"
    by (simp add: new_nr_session_def)
  moreover have "post (\<lambda>_ (s', w'). nr_inv s' \<and> nr_lifetime s' \<le> nr_max_lifetime s \<and> sess_id s' = sess_id s)
        (\<lambda>_ (s', w'). sess_id s' = sess_id s)
        (\<lambda>_ (s', w'). sess_id s' = sess_id s) (nr_process_event d evt (s, w))" if "nr_inv s"
    by (rule post_mono [OF nr_process_keeps [OF that]]) (auto simp: nr_inv_def)
  ultimately show ?thesis using nr_inv_new by auto
qed

end
