(* ===== verification/Nr_Properties.thy ===== *)
theory Nr_Properties
  imports Nr_Session
begin

text \<open>
  What the receiver's handlers do: the answers to CREATE and REFRESH messages and to the application,
  and the abstract state machine that the handlers refine.
\<close>

section \<open>Responses\<close>

text \<open>A success response carries the lifetime and the objects of the rule, and answers its request.\<close>

lemma success_response_facts:
  assumes "msg m = Some b" "has_msg_sequence_number b"
    and "\<forall>obj \<in> set (map snd (object_responses r)). wf_object obj \<and> is_mspec obj"
    and "length (object_responses r) \<le> mspec_limit"
  obtains c where "msg (nr_success_response d lt r m) = Some c" "msg_class c = Anslp_response" "is_success c"
    "find_msg_sequence_number c = find_msg_sequence_number b" "find_session_lifetime c = Some lt"
    "get_mspec_objects c = Some (map snd (object_responses r))"
proof -
  let ?base = "set_session_lifetime lt (set_msg_sequence_number (get_msg_sequence_number b)
    (set_information_code 2 1 0 new_anslp_response))"
  let ?c = "set_mspec_list (map snd (object_responses r)) ?base"
  have copies: "map (object_copy \<circ> snd) (object_responses r) = map snd (object_responses r)"
    using assms(3) by (simp add: wf_copy)
  have "msg (nr_success_response d lt r m) = Some ?c"
    using assms(1,2) copies
    by (simp add: nr_success_response_def create_success_response_def create_response_def new_ntlp_msg_def Let_def)
      (simp only: copies)
  moreover have "mspec_count ?base + length (map snd (object_responses r)) \<le> mspec_limit" using assms(4) by simp
  note laws = set_mspec_list_laws [OF _ this assms(3)]
  have "find_msg_sequence_number ?base = find_msg_sequence_number b"
    using assms(2) by (auto simp: getter_defs)
  then have "msg_class ?c = Anslp_response" "is_success ?c" "find_msg_sequence_number ?c = find_msg_sequence_number b"
    "find_session_lifetime ?c = Some lt" "get_mspec_objects ?c = Some (map snd (object_responses r))"
    using laws by (simp_all add: is_success_def)
  ultimately show ?thesis by (intro that)
qed

lemma success_response_header [simp]:
  "sid (nr_success_response d lt r m) = sid m"
  "routing_info (nr_success_response d lt r m) = invertDirection (plat d) (routing_info m)"
  "class_of_msg (nr_success_response d lt r m) = Some Anslp_response"
  by (simp_all add: nr_success_response_def create_success_response_def create_response_def new_ntlp_msg_def Let_def
      class_of_msg_def split: option.split)

lemma plain_success_response: "create_success_response (plat d) lt m = nr_success_response d lt new_auction_rule m"
proof -
  have "set_mspec_list [] = (\<lambda>c :: 'a anslp_msg. c)" by (simp add: fun_eq_iff)
  then show ?thesis by (simp add: nr_success_response_def Let_def option.map_ident)
qed

lemma nr_process_eq:
  "nr_handle d evt (s, w) = (Ok st, s', w') \<Longrightarrow> nr_process_event d evt (s, w) = (Ok (), s'\<lparr>nr_state := st\<rparr>, w')"
  by (simp add: nr_process_event_def)

section \<open>CREATE\<close>

lemma nr_create_step:
  assumes "nr_inv s" "nr_state s = Nr_close" "nr_create_message s = None"
    and "msg_with Anslp_create evt = Some (m, c)"
    and "routing_info m = Mri_pathcoupled p" "get_mspec_objects c \<noteq> None"
    and "\<not> check_participating St_receiver (get_selection_auctioning_entities c)"
    and "lt = min (get_session_lifetime c) (nr_max_lifetime s)" "lt \<noteq> 0"
  shows "\<exists>s' w'. nr_process_event d evt (s, w) = (Ok (), s', w') \<and> nr_state s' = Nr_auctioning \<and>
    sent w' = sent w @ [nr_success_response d lt new_auction_rule m] \<and> nr_lifetime s' = lt \<and>
    msn s' = get_msg_sequence_number c \<and> nr_state_timer s' = timer_msg_id (plat d) (timers_made w)"
proof -
  obtain objs r where some: "get_mspec_objects c = Some objs" "rule s = Some r"
    using assms(1,6) by (auto simp: nr_inv_def)
  let ?m = "nr_success_response d lt new_auction_rule m"
  have "post (\<lambda>st (s', w'). st = Nr_auctioning \<and> sent w' = sent w @ [?m] \<and> nr_lifetime s' = lt \<and>
      msn s' = get_msg_sequence_number c \<and> nr_state_timer s' = timer_msg_id (plat d) (timers_made w))
    (\<lambda>_ _. False) (\<lambda>_ _. False) (nr_handle_state_close d evt (s, w))"
    using assms some
    by (simp add: nr_handle_state_close_def Let_def post_nr_try_setup nr_setup_session_def wp
        nr_save_auction_rule_def save_auction_rule_eq split_beta as_pathcoupled_def nr_inv_def
        rule_of_create_def add_requests_world word_neq_0_conv)
  then obtain s' w' where step: "nr_handle_state_close d evt (s, w) = (Ok Nr_auctioning, s', w')"
    and facts: "sent w' = sent w @ [?m]" "nr_lifetime s' = lt" "msn s' = get_msg_sequence_number c"
      "nr_state_timer s' = timer_msg_id (plat d) (timers_made w)"
    by (elim post_returns) auto
  then have "nr_process_event d evt (s, w) = (Ok (), s'\<lparr>nr_state := Nr_auctioning\<rparr>, w')"
    using assms(2) step by (intro nr_process_eq) (simp add: nr_handle_def)
  then show ?thesis using facts by simp
qed

text \<open>
  C32: a receiver that does not take part in the auction answers a CREATE at once: one success response, back along
  the route, that carries the sequence number of the CREATE, the lifetime cut to the configured maximum and no
  mspec objects. The session is established, with its state timer running.
\<close>

theorem nr_answers_create:
  assumes "nr_inv s" "nr_state s = Nr_close" "nr_create_message s = None"
    and "msg_with Anslp_create evt = Some (m, c)" "has_msg_sequence_number c"
    and "routing_info m = Mri_pathcoupled p" "get_mspec_objects c \<noteq> None"
    and "\<not> check_participating St_receiver (get_selection_auctioning_entities c)"
    and "lt = min (get_session_lifetime c) (nr_max_lifetime s)" "lt \<noteq> 0"
  shows "\<exists>s' w' m' r. nr_process_event d evt (s, w) = (Ok (), s', w') \<and> nr_state s' = Nr_auctioning \<and>
    sent w' = sent w @ [m'] \<and> sid m' = sid m \<and> routing_info m' = invertDirection (plat d) (routing_info m) \<and>
    msg m' = Some r \<and> msg_class r = Anslp_response \<and> is_success r \<and>
    find_msg_sequence_number r = find_msg_sequence_number c \<and> find_session_lifetime r = Some lt \<and>
    get_mspec_objects r = Some [] \<and> nr_lifetime s' = lt \<and> msn s' = get_msg_sequence_number c \<and>
    nr_state_timer s' = timer_msg_id (plat d) (timers_made w)"
proof -
  have "msg m = Some c" using msg_with_SomeD [OF assms(4)] by simp
  then obtain resp where "msg (nr_success_response d lt new_auction_rule m) = Some resp" "msg_class resp = Anslp_response"
    "is_success resp" "find_msg_sequence_number resp = find_msg_sequence_number c" "find_session_lifetime resp = Some lt"
    "get_mspec_objects resp = Some []"
    using success_response_facts [of m c new_auction_rule d lt] assms(5) by (auto simp: mspec_limit_def)
  then show ?thesis using nr_create_step [OF assms(1-4,6-10), of d w] by auto
qed

text \<open>
  For a CREATE whose routing information is not path-coupled, the receiver's handler throws: nothing is sent, in
  contrast to the forwarder, and the dispatcher drops the session.
\<close>

theorem nr_routing_error_escapes:
  assumes "nr_state s = Nr_close" "nr_create_message s = None" "msg_with Anslp_create evt = Some (m, c)"
    and "as_pathcoupled (routing_info m) = None" "min (get_session_lifetime c) (nr_max_lifetime s) \<noteq> 0"
  shows "\<exists>s'. nr_process_event d evt (s, w) = (Throw (Request_error 5 9), s', w)"
proof -
  have "post (\<lambda>_ _. False) (\<lambda>e sw. e = Request_error 5 9 \<and> snd sw = w) (\<lambda>_ _. False) (nr_process_event d evt (s, w))"
    using assms
    by (simp add: nr_process_event_def nr_handle_def nr_handle_state_close_def Let_def post_nr_try_setup
        nr_setup_session_def wp word_neq_0_conv)
  then show ?thesis by (cases "nr_process_event d evt (s, w)" rule: call_cases) auto
qed

section \<open>REFRESH\<close>

text \<open>C29: a REFRESH that is not newer than the last one changes nothing and is not answered.\<close>

theorem nr_replayed_refresh:
  assumes "nr_state s = Nr_auctioning" "msg_with Anslp_refresh evt = Some (m, c)"
    and "\<not> is_greater_than (get_msg_sequence_number c) (msn s)"
  shows "nr_process_event d evt (s, w) = (Ok (), s, w)"
  using assms
  by (simp add: nr_process_event_def nr_handle_def nr_handle_state_auctioning_def nr_anslp_refresh_def Let_def)

text \<open>
  C33: a newer REFRESH is answered with one success response that carries its sequence number and the granted lifetime,
  in every case. With a lifetime other than 0 the session goes on with that lifetime and a new state timer, and the same
  message is not accepted again. With lifetime 0 a session without installed objects ends; with installed objects their
  removal is handed to the installer, and the session waits for the confirmation with a new timer, or the handler throws
  when the installer does not take the removal.
\<close>

theorem nr_answers_refresh:
  assumes "nr_state s = Nr_auctioning" "msg_with Anslp_refresh evt = Some (m, c)" "has_msg_sequence_number c"
    and "is_greater_than (get_msg_sequence_number c) (msn s)" "rule s = Some r"
    and "lt = min (get_session_lifetime c) (nr_max_lifetime s)" "i = session_id_to_string (sess_id s)"
  shows "\<exists>res s' w' m' resp. nr_process_event d evt (s, w) = (res, s', w') \<and>
    sent w' = sent w @ [m'] \<and> routing_info m' = invertDirection (plat d) (routing_info m) \<and>
    msg m' = Some resp \<and> msg_class resp = Anslp_response \<and> is_success resp \<and>
    find_msg_sequence_number resp = find_msg_sequence_number c \<and> find_session_lifetime resp = Some lt \<and>
    (if lt \<noteq> 0
     then res = Ok () \<and> nr_state s' = Nr_auctioning \<and> nr_lifetime s' = lt \<and> msn s' = get_msg_sequence_number c \<and>
       \<not> is_greater_than (get_msg_sequence_number c) (msn s') \<and> nr_state_timer s' = timer_msg_id (plat d) (timers_made w) \<and>
       install_queue w' = install_queue w
     else if object_responses r = [] then res = Ok () \<and> nr_is_final s' \<and> install_queue w' = install_queue w
     else install_queue w' = install_queue (snd (remove_auction_rules d i (Some r) w)) \<and>
       (if removal_taken d i r w
        then res = Ok () \<and> nr_state s' = Nr_pending_teardown \<and> nr_state_timer s' = timer_msg_id (plat d) (timers_made w)
        else res = Throw wrong_conf_message))"
proof -
  let ?m = "nr_success_response d lt new_auction_rule m"
  let ?i = "session_id_to_string (sess_id s)"
  let ?timer = "\<lambda>s'. nr_state_timer s' = timer_msg_id (plat d) (timers_made w)"
  let ?goes = "\<lambda>s' w'. sent w' = sent w @ [?m] \<and>
      (if lt \<noteq> 0
       then nr_state s' = Nr_auctioning \<and> nr_lifetime s' = lt \<and> msn s' = get_msg_sequence_number c \<and> ?timer s' \<and>
         install_queue w' = install_queue w
       else if object_responses r = [] then nr_is_final s' \<and> install_queue w' = install_queue w
       else install_queue w' = install_queue (snd (remove_auction_rules d ?i (Some r) w)) \<and> removal_taken d ?i r w \<and>
         nr_state s' = Nr_pending_teardown \<and> ?timer s')"
  have "post (\<lambda>_ (s', w'). ?goes s' w')
    (\<lambda>e (s', w'). e = wrong_conf_message \<and> sent w' = sent w @ [?m] \<and> lt = 0 \<and> object_responses r \<noteq> [] \<and>
       \<not> removal_taken d ?i r w \<and> install_queue w' = install_queue w) (\<lambda>_ _. False) (nr_process_event d evt (s, w))"
    using assms(1-6)
    by (simp add: nr_process_event_def nr_handle_def nr_handle_state_auctioning_def nr_anslp_refresh_def Let_def wp nr_begin_teardown_def
        get_number_mspec_response_objects_def word_gt_0 plain_success_response service_def remove_rules_exact nr_is_final_def
        removal_taken_def queue_takes_def)
      (auto simp: min_def word_gt_0 split: if_splits)
  then obtain res s' w' where step: "nr_process_event d evt (s, w) = (res, s', w')"
    "res = Ok () \<and> ?goes s' w' \<or> res = Throw wrong_conf_message \<and> sent w' = sent w @ [?m] \<and> lt = 0 \<and> object_responses r \<noteq> [] \<and>
       \<not> removal_taken d ?i r w \<and> install_queue w' = install_queue w"
    by (cases "nr_process_event d evt (s, w)" rule: call_cases) (simp_all split: prod.split_asm)
  have "msg m = Some c" using msg_with_SomeD [OF assms(2)] by simp
  then obtain resp where resp: "msg ?m = Some resp" "msg_class resp = Anslp_response" "is_success resp"
    "find_msg_sequence_number resp = find_msg_sequence_number c" "find_session_lifetime resp = Some lt"
    "routing_info ?m = invertDirection (plat d) (routing_info m)"
    using success_response_facts [of m c new_auction_rule d lt] assms(3) by (auto simp: mspec_limit_def)
  show ?thesis
    by (rule exI [of _ res], rule exI [of _ s'], rule exI [of _ w'], rule exI [of _ ?m], rule exI [of _ resp])
      (use step resp in \<open>simp only: assms(7) simp_thms; elim disjE conjE; simp add: is_greater_than_def remove_rules_exact split: if_splits\<close>)
qed

section \<open>The answer after the installation\<close>

text \<open>
  When the application reports as many installed objects as were requested, the receiver answers the CREATE: one
  success response with the sequence number of the CREATE, the granted lifetime and exactly the installed
  objects. With another number of objects the response is an error and the session goes to the teardown state.
\<close>

theorem nr_install_answer:
  assumes "nr_inv s" "nr_state s = Nr_pending_installing" "nr_create_message s = Some m"
    and "cast_msg Anslp_create m = Some c" "has_msg_sequence_number c"
    and "rule s = Some r" "object_responses r = []" "length objs \<le> mspec_limit"
    and "ev_data evt = Api_install_event objs" "wf_object_list (plat d) objs" "uuid_ok (plat d)"
  shows "\<exists>s' w' m' resp. nr_process_event d evt (s, w) = (Ok (), s', w') \<and>
    sent w' = sent w @ [m'] \<and> msg m' = Some resp \<and> msg_class resp = Anslp_response \<and>
    find_msg_sequence_number resp = find_msg_sequence_number c \<and>
    (if length (object_requests r) = length objs
     then nr_state s' = Nr_auctioning \<and> is_success resp \<and> find_session_lifetime resp = Some (nr_lifetime s) \<and>
       (\<exists>l. get_mspec_objects resp = Some l \<and> mset l = mset (map snd objs))
     else nr_state s' = Nr_pending_teardown \<and> find_information_code resp = Some (5, 4, 0))"
proof -
  have msg: "msg m = Some c" using assms(4) by (auto simp: cast_msg_def split: option.splits if_splits)
  have proc: "nr_process_event d evt (s, w) = (Ok (), s'\<lparr>nr_state := st\<rparr>, w')"
    if "nr_handle_state_pending_installing d evt (s, w) = (Ok st, s', w')" for st s' w'
    using that assms(2) by (intro nr_process_eq) (simp add: nr_handle_def)
  note unfold = nr_handle_state_pending_installing_def nr_api_install_def event_pred_defs wp Let_def
    get_number_mspec_request_objects_def get_number_mspec_response_objects_def
  show ?thesis
  proof (cases "length (object_requests r) = length objs")
    case True
    obtain r' w1 where rw: "set_reponse_objects (plat d) objs (r, w) = (r', w1)" by fastforce
    note new = installed_responses [OF assms(11,10,7) rw]
    let ?m = "nr_success_response d (nr_lifetime s) r' m"
    have "post (\<lambda>st (s', w'). st = Nr_auctioning \<and> sent w' = sent w @ [?m]) (\<lambda>_ _. False) (\<lambda>_ _. False)
      (nr_handle_state_pending_installing d evt (s, w))"
      using assms(2,3,6,9) True rw new(3) by (simp add: unfold)
    then obtain s' w' where step: "nr_handle_state_pending_installing d evt (s, w) = (Ok Nr_auctioning, s', w')"
      and sent: "sent w' = sent w @ [?m]"
      by (elim post_returns) auto
    obtain resp where "msg ?m = Some resp" "msg_class resp = Anslp_response" "is_success resp"
      "find_msg_sequence_number resp = find_msg_sequence_number c" "find_session_lifetime resp = Some (nr_lifetime s)"
      "get_mspec_objects resp = Some (map snd (object_responses r'))"
      using success_response_facts [OF msg assms(5) new(4), of d "nr_lifetime s"] new(2) assms(8) by auto
    then show ?thesis using True proc [OF step] sent new(1) by simp
  next
    case False
    let ?m = "create_response (plat d) 5 4 m"
    have "post (\<lambda>st (s', w'). st = Nr_pending_teardown \<and> sent w' = sent w @ [?m]) (\<lambda>_ _. False) (\<lambda>_ _. False)
      (nr_handle_state_pending_installing d evt (s, w))"
      using assms(2,3,6,7,9) False by (simp add: unfold)
    then obtain s' w' where step: "nr_handle_state_pending_installing d evt (s, w) = (Ok Nr_pending_teardown, s', w')"
      and sent: "sent w' = sent w @ [?m]"
      by (elim post_returns) auto
    obtain resp where "msg ?m = Some resp" "msg_class resp = Anslp_response" "find_information_code resp = Some (5, 4, 0)"
      "find_msg_sequence_number resp = find_msg_sequence_number c"
      using create_response_facts [OF msg assms(5), of "plat d" 5 4] by auto
    then show ?thesis using False proc [OF step] sent by simp
  qed
qed

section \<open>The abstract state machine\<close>

inductive nr_spec :: "nr_state \<Rightarrow> label \<Rightarrow> msg_class option list \<Rightarrow> nr_state \<Rightarrow> bool" where
  nr_established: "nr_spec Nr_close (L_msg Anslp_create) [Some Anslp_response] Nr_auctioning"
| nr_ask_application: "nr_spec Nr_close (L_msg Anslp_create) [] Nr_pending"
| nr_refuse: "nr_spec Nr_close (L_msg Anslp_create) [Some Anslp_response] Nr_close"
| nr_not_checked: "l = L_timer \<or> l = L_no_next_node \<Longrightarrow> nr_spec Nr_pending l [Some Anslp_response] Nr_close"
| nr_checked: "nr_spec Nr_pending L_check [] Nr_pending_installing"
| nr_no_answer: "nr_spec Nr_pending_installing L_timer [Some Anslp_response] Nr_close"
| nr_installed: "st = Nr_auctioning \<or> st = Nr_pending_teardown \<Longrightarrow>
    nr_spec Nr_pending_installing L_install [Some Anslp_response] st"
| nr_refreshed: "st \<in> {Nr_auctioning, Nr_close, Nr_pending_teardown} \<Longrightarrow>
    nr_spec Nr_auctioning (L_msg Anslp_refresh) [Some Anslp_response] st"
| nr_expired: "st = Nr_close \<or> st = Nr_pending_teardown \<Longrightarrow> nr_spec Nr_auctioning L_timer [] st"
| nr_bid: "st = Nr_auctioning \<or> st = Nr_pending_teardown \<Longrightarrow> nr_spec st L_bidding [Some Anslp_bidding] st"
| nr_removed: "l = L_timer \<or> l = L_remove \<Longrightarrow> nr_spec Nr_pending_teardown l [] Nr_close"
| nr_stay: "nr_spec st l [] st"

inductive_simps nr_spec_auctioning: "nr_spec st l ms Nr_auctioning"

definition nr_follows :: "label \<Rightarrow> 'm nr_session \<Rightarrow> 'm world \<Rightarrow> nr_state \<Rightarrow> 'm nr_session \<times> 'm world \<Rightarrow> bool" where
  "nr_follows l s w st sw = nr_spec (nr_state s) l (sent_classes w (snd sw)) st"

abbreviation nr_refines :: "label \<Rightarrow> 'm nr_session \<Rightarrow> 'm world \<Rightarrow> ('m, nr_state) nr_step \<Rightarrow> bool" where
  "nr_refines l s w \<equiv> post (nr_follows l s w) (\<lambda>_ _. True) (\<lambda>_ _. True)"

lemmas nr_follows_simps = nr_follows_def sent_classes_simps label_of_simps nr_spec.intros

lemma sent_trace [simp]: "sent (if b then emit (Return_message i) w else w) = sent w"
  by simp

lemma nr_try_setup_refines [wp_intro]:
  assumes "nr_state s = Nr_close" "sent w' = sent w" "l = L_msg Anslp_create"
  shows "nr_refines l s w (nr_try_setup d m c lt (s', w'))"
  using assms unfolding post_nr_try_setup nr_setup_session_def nr_save_auction_rule_def
  by (simp add: wp Let_def) (intro conjI impI allI wp_intro; simp add: wp nr_follows_simps wrong_conf_message_def)

lemma nr_close_refines:
  "nr_state s = Nr_close \<Longrightarrow> nr_refines (label_of evt) s w (nr_handle_state_close d evt (s, w))"
  unfolding nr_handle_state_close_def
  by (simp add: wp Let_def) (intro conjI impI allI wp_intro; auto simp: nr_follows_simps dest: label_of_some)

lemma nr_give_up_refines [wp_intro]:
  assumes "(nr_state s = Nr_pending \<and> (l = L_timer \<or> l = L_no_next_node)) \<or> (nr_state s = Nr_pending_installing \<and> l = L_timer)"
  shows "nr_refines l s w (nr_give_up d (s, w))"
  using assms by (auto simp: nr_give_up_def wp nr_follows_simps)

lemma nr_pending_refines:
  "nr_state s = Nr_pending \<Longrightarrow> nr_refines (label_of evt) s w (nr_handle_state_pending d evt (s, w))"
  unfolding nr_handle_state_pending_def nr_timeout_pending_def nr_api_check_def nr_save_auction_rule_def
  by (simp add: wp Let_def) (intro conjI impI allI wp_intro;
      auto simp: nr_follows_simps dest!: label_of_some same_actions_sent)

lemma nr_installing_refines:
  "nr_inv s \<Longrightarrow> nr_state s = Nr_pending_installing \<Longrightarrow>
   nr_refines (label_of evt) s w (nr_handle_state_pending_installing d evt (s, w))"
  unfolding nr_handle_state_pending_installing_def nr_timeout_installing_def nr_api_install_def
  by (simp add: wp Let_def split_beta) (intro conjI impI allI wp_intro;
      auto simp: nr_inv_def nr_follows_simps dest!: label_of_some same_actions_sent intro!: wp_intro)

lemma nr_auctioning_refines:
  "nr_state s = Nr_auctioning \<Longrightarrow> nr_refines (label_of evt) s w (nr_handle_state_auctioning d evt (s, w))"
  unfolding nr_handle_state_auctioning_def nr_anslp_refresh_def nr_api_bidding_def
  by (simp add: wp Let_def) (intro conjI impI allI wp_intro;
      auto simp: nr_follows_simps dest!: label_of_some same_actions_sent)

lemma nr_teardown_refines:
  "nr_state s = Nr_pending_teardown \<Longrightarrow> nr_refines (label_of evt) s w (nr_handle_state_pending_teardown d evt (s, w))"
  unfolding nr_handle_state_pending_teardown_def nr_timeout_teardown_def nr_api_bidding_def
  by (simp add: wp Let_def) (intro conjI impI allI wp_intro;
      auto simp: nr_follows_simps dest!: label_of_some same_actions_sent)

lemma nr_handle_refines: "nr_inv s \<Longrightarrow> nr_refines (label_of evt) s w (nr_handle d evt (s, w))"
  by (cases "nr_state s") (simp_all add: nr_handle_def nr_close_refines nr_pending_refines
      nr_installing_refines nr_auctioning_refines nr_teardown_refines)

text \<open>
  C12: every event that a receiver session processes is a step of the abstract state machine \<open>nr_spec\<close>, which fixes
  the next state and the classes of the messages that are sent. In particular the auctioning state is entered only
  together with a response, from the closed state on a CREATE or from the installing state when the
  application reports the installed objects.
\<close>

theorem nr_refines_spec:
  assumes "nr_inv s" "nr_process_event d evt (s, w) = (Ok (), s', w')"
  shows "nr_spec (nr_state s) (label_of evt) (sent_classes w w') (nr_state s') \<and>
    (nr_state s' = Nr_auctioning \<and> nr_state s \<noteq> Nr_auctioning \<longrightarrow> sent_classes w w' = [Some Anslp_response] \<and>
       (nr_state s = Nr_close \<and> label_of evt = L_msg Anslp_create \<or>
        nr_state s = Nr_pending_installing \<and> label_of evt = L_install))"
proof -
  obtain st s1 where "nr_handle d evt (s, w) = (Ok st, s1, w')" "s' = s1\<lparr>nr_state := st\<rparr>"
    using assms(2) by (auto simp: nr_process_event_def split: call_splits)
  with nr_handle_refines [OF assms(1), of evt w d]
  have "nr_spec (nr_state s) (label_of evt) (sent_classes w w') (nr_state s')" by (simp add: nr_follows_def)
  then show ?thesis by (auto simp: nr_spec_auctioning)
qed

end
