(* ===== verification/Handshake.thy ===== *)
theory Handshake
  imports Gistka_Properties Ni_Properties Nf_Properties Nr_Properties
begin

text \<open>
  The steps of a session set-up, one lemma for each node a message passes: the initiator that sends the first CREATE, the
  receiver that answers it, the initiator that accepts the answer, and what GIST does in between. The
  properties of the set-up are composed of them.
\<close>

section \<open>From one node to the next\<close>

text \<open>A message of one node as it arrives at the next one.\<close>

definition arrives :: "'m ntlp_msg \<Rightarrow> 'm event" where
  "arrives m = \<lparr>ev_sid = Some (sid m), ev_data = Msg_event m True\<rparr>"

lemma arrives_with:
  "msg m = Some c \<Longrightarrow> msg_class c = k \<Longrightarrow> msg_with k (arrives m) = Some (m, c) \<and> body_of k (arrives m) = Some c"
  by (simp add: arrives_def event_pred_defs)

lemma arrives_response:
  assumes "msg m = Some b" "find_msg_sequence_number b = Some n" "msg m' = Some r" "msg_class r = Anslp_response"
    "find_msg_sequence_number r = Some n"
  shows "is_anslp_response (arrives m') m"
  using assms arrives_with [OF assms(3,4)] by (simp add: is_anslp_response_def is_anslp_response_msn_def getter_defs)

text \<open>
  What becomes of a message on its way: it is handed to GIST as bytes and mapped to an event at the other end, where
  GIST gives the routing information and the handle it was sent with. That event has the very message that was sent.
\<close>

definition carried :: "('b, 'm) wire \<Rightarrow> 'm ntlp_msg \<Rightarrow> 'm event \<Rightarrow> bool" where
  "carried L m evt = (evt = arrives m \<and> (\<exists>s. create_api_msg L m = Ok s \<and>
     map_to_event L (Some (Api_msg (delivered s (routing_info m) (sii_handle m) True))) = Some (Ok (Some evt))))"

lemma complete_carried:
  assumes "netmsg_laws L R" "ie_laws L" "msg m = Some b" "complete L b \<and> msg_serialized_size L b < 2 ^ 32"
  shows "carried L m (arrives m)"
  using complete_delivered [OF assms(1-3)] assms(4) by (fastforce simp: carried_def arrives_def)

lemma new_ntlp_msg_parts [simp]:
  "msg (new_ntlp_msg i c r h) = Some c" "sid (new_ntlp_msg i c r h) = i" "routing_info (new_ntlp_msg i c r h) = r"
  by (simp_all add: new_ntlp_msg_def)

section \<open>The answer of the receiver\<close>

definition success_body :: "u32 \<Rightarrow> u32 \<Rightarrow> 'm anslp_msg" where
  "success_body lt n = set_session_lifetime lt (set_msg_sequence_number n (set_information_code 2 1 0 new_anslp_response))"

text \<open>The body with the objects that forwarders add to it.\<close>

lemma success_list_facts:
  assumes "\<forall>obj \<in> set l. wf_object obj \<and> is_mspec obj" "length l \<le> mspec_limit" "b = set_mspec_list l (success_body lt n)"
  shows "wf_msg b" "msg_class b = Anslp_response" "is_success b" "find_session_lifetime b = Some lt"
    "find_msg_sequence_number b = Some n" "get_mspec_objects b = Some l"
proof -
  have base: "wf_msg (success_body lt n)" "mspec_count (success_body lt n) = 0"
    by (simp_all add: success_body_def)
  note laws = set_mspec_list_laws [OF base(1) _ assms(1)]
  show "wf_msg b" "msg_class b = Anslp_response" "is_success b" "find_session_lifetime b = Some lt"
    "find_msg_sequence_number b = Some n" "get_mspec_objects b = Some l"
    using laws assms(2) base by (simp_all add: assms(3) is_success_def getter_defs) (simp_all add: success_body_def)
qed

text \<open>Every object of a message is an mspec object or stands under the key of its type.\<close>

lemma good_member:
  assumes "good L m" "(k, obj) \<in> set (objects m)"
  shows "object_type k = 0xF9 \<or> (\<exists>t \<in> {OT_information_code, OT_selection_auctioning_entities, OT_message_hop_count, OT_msg_sequence_number, OT_session_lifetime}.
    k = unique_key t \<and> get_object (unique_key t) m \<noteq> None)"
proof -
  have reg: "registered_key k" and get: "get_object k m = Some obj"
    using assms(2) goodD(1) [OF assms(1)] ie_store_get_member [of "objects m" k obj]
    by (force simp: get_object_def wf_msg_def wf_store_def registered_store_def)+
  from reg show ?thesis
  proof (cases rule: registered_key_cases)
    case (unique t)
    then have "\<exists>t \<in> {OT_information_code, OT_selection_auctioning_entities, OT_message_hop_count, OT_msg_sequence_number, OT_session_lifetime}. k = unique_key t"
      by (auto simp: unique_types_def unique_key_def)
    then show ?thesis using get by blast
  qed simp
qed

lemma success_list_complete:
  assumes "\<forall>obj \<in> set l. sendable L obj \<and> is_mspec obj" "length l < 2 ^ 17" "b = set_mspec_list l (success_body lt n)"
  shows "complete L b \<and> msg_serialized_size L b < 2 ^ 32"
proof -
  let ?base = "success_body lt n :: 'a anslp_msg"
  have base: "good L ?base" "mspec_count ?base = 0"
    unfolding success_body_def by (intro good_setters; simp add: mspec_limit_def)+ simp
  have room: "mspec_count ?base + length l \<le> mspec_limit" using base(2) assms(2) by (simp add: mspec_limit_def)
  note g = good_set_mspec_list [OF base(1) assms(1) room, folded assms(3)]
  note objs = response_objects(3) [of lt n 2 1 0, folded success_body_def]
  have "length (objects b) \<le> 3 + length l" using length_objects(2) [of l ?base] assms(3) by (simp add: objs)
  then have size: "msg_serialized_size L b < 2 ^ 32" using good_size [OF conjunct1 [OF g]] assms(2) by simp
  have keys: "get_object (unique_key t) b = get_object (unique_key t) ?base" if "ucast t \<in> set unique_types" for t
    unfolding assms(3) using unique_set_mspec_list [OF base(1) assms(1) room that] .
  have types: "get_object (unique_key t) b \<noteq> None \<longleftrightarrow> t \<in> set (wire_types Anslp_response)"
    if "t \<in> {OT_information_code, OT_selection_auctioning_entities, OT_message_hop_count, OT_msg_sequence_number, OT_session_lifetime}" for t
    using that keys [of t] by (auto simp: unique_types_def objs get_object_def ie_store_get_def wire_types_def unique_key_def
        ie_object_key_lt_def)
  have cls: "msg_class b = Anslp_response" "msg_type b = msg_type (msg_new_instance b)"
    using assms(3) by (simp_all add: msg_new_instance_def success_body_def)
  have "complete L b"
  proof (rule good_complete [OF conjunct1 [OF g]])
    have "object_type k = ucast OT_msg_sequence_number \<or> object_type k = ucast OT_information_code \<or>
        object_type k = ucast OT_session_lifetime \<or> object_type k = ucast OT_ipap_message" if "(k, obj) \<in> set (objects b)" for k obj
    proof -
      have "object_type k = 0xF9 \<or> (\<exists>t \<in> set (wire_types Anslp_response). k = unique_key t)"
        using good_member [OF conjunct1 [OF g] that] types by blast
      then show ?thesis by (auto simp: wire_types_def unique_key_def)
    qed
    then show "msg_check b" by (force simp: msg_check_def cls(1) response_check_def list_all_iff)
  qed (use g base(2) assms(2) cls types in \<open>simp_all add: mspec_limit_def\<close>)
  then show ?thesis using size by blast
qed

text \<open>A CREATE arrives at a receiver that has no session for it and does not take part in the auction.\<close>

lemma receiver_answers:
  assumes "msg m = Some c" "msg_class c = Anslp_create" "find_session_lifetime c = Some l" "find_msg_sequence_number c = Some n"
    and "find_selection_auctioning_entities c = Some sme" "get_mspec_objects c \<noteq> None" "routing_info m = Mri_pathcoupled p"
    and "\<not> check_participating St_receiver sme" "lt = min l (nr_max_session_lifetime (conf d))" "lt \<noteq> 0"
  shows "\<exists>s' w' m'. nr_process_event d (arrives m) (new_nr_session (sid m) (conf d) random garbage, w) = (Ok (), s', w') \<and>
    sent w' = sent w @ [m'] \<and> msg m' = Some (success_body lt n) \<and> sid m' = sid m \<and> nr_state s' = Nr_auctioning \<and>
    nr_lifetime s' = lt \<and> sess_id s' = sid m"
proof -
  let ?s = "new_nr_session (sid m) (conf d) random garbage :: 'a nr_session"
  obtain s' w' where step: "nr_process_event d (arrives m) (?s, w) = (Ok (), s', w')" "nr_state s' = Nr_auctioning"
    "sent w' = sent w @ [nr_success_response d lt new_auction_rule m]" "nr_lifetime s' = lt"
    using nr_create_step [OF nr_inv_new, of "sid m" "conf d" random garbage "arrives m" m c p lt d w]
      arrives_with [OF assms(1,2)] assms
    by (auto simp: new_nr_session_def getter_defs)
  have "msg (nr_success_response d lt new_auction_rule m) = Some (success_body lt n)" "sid (nr_success_response d lt new_auction_rule m) = sid m"
    using assms(1,4) by (simp_all add: nr_success_response_def new_auction_rule_def create_success_response_def create_response_def
        success_body_def getter_defs Let_def)
  moreover have "sess_id s' = sid m"
    using nr_machine.proc_ident [OF nr_inv_new step(1)] by (simp add: new_nr_session_def)
  ultimately show ?thesis using step by blast
qed

section \<open>The initiator\<close>

lemma ni_first_create_complete:
  assumes "wf_object_list P (ac_mspec_objects e)" "list_all (sendable L) (map snd (ac_mspec_objects e))"
    "length (ac_mspec_objects e) < 2 ^ 17"
  shows "complete L (ni_first_create e s) \<and> msg_serialized_size L (ni_first_create e s) < 2 ^ 32"
proof (rule create_complete)
  let ?l = "map snd (ac_mspec_objects e)"
  have wf: "\<forall>obj \<in> set ?l. wf_object obj \<and> is_mspec obj" using assms(1) by (auto simp: wf_object_list_def)
  show "\<forall>obj \<in> set ?l. sendable L obj \<and> is_mspec obj" using wf assms(2) by (auto simp: list_all_iff)
  show "length ?l < 2 ^ 17" using assms(3) by simp
  have "map object_copy ?l = ?l" using wf wf_object_copies by blast
  then show "ni_first_create e s = set_mspec_list ?l (set_message_hop_count (msg_hop_count s)
      (set_selection_auctioning_entities (ac_sel_auct_entities e) (set_msg_sequence_number (msn s + 1)
        (set_session_lifetime (min (ac_session_lifetime e) (ac_session_lifetime e)) new_anslp_create))))"
    by (simp only: ni_first_create_def ni_create_of_def)
qed

text \<open>The application asks for a session: one CREATE leaves the node.\<close>

lemma initiator_starts:
  assumes "netmsg_laws L R" "ie_laws L"
    and "ni_inv s" "ni_state s = Ni_close" "ev_data evt = Api_create_event e" "ac_return_queue e"
    and "ac_session_lifetime e \<noteq> 0" "refresh_seconds (ac_session_lifetime e) (ni_retries s) \<noteq> 0"
    and "wf_object_list (plat d) (ac_mspec_objects e)" "list_all (sendable L) (map snd (ac_mspec_objects e))"
    and "length (ac_mspec_objects e) < 2 ^ 17" "m = new_ntlp_msg (sess_id s) (ni_first_create e s) (api_mri e) 0"
  shows "\<exists>s' w'. ni_process_event d evt (s, w) = (Ok (), s', w') \<and> sent w' = sent w @ [m] \<and> carried L m (arrives m) \<and>
    ni_inv s' \<and> ni_state s' = Ni_pending \<and> ni_last_create_msg s' = Some m \<and> sess_id s' = sess_id s"
proof -
  obtain s' w' where step: "ni_process_event d evt (s, w) = (Ok (), s', w')" "ni_state s' = Ni_pending"
    "sent w' = sent w @ [m]" "ni_last_create_msg s' = Some m"
    using ni_create_step [OF assms(4-9,12), of w] by auto
  moreover have "ni_inv s'" "sess_id s' = sess_id s"
    using ni_machine.proc_inv [OF assms(3) step(1)] ni_machine.proc_ident [OF assms(3) step(1)] by simp_all
  moreover have "carried L m (arrives m)"
    using complete_carried [OF assms(1,2) _ ni_first_create_complete [OF assms(9-11), of s]] assms(12) by simp
  ultimately show ?thesis by blast
qed

text \<open>The answer of the receiver arrives, with the objects that were added to it on the way.\<close>

lemma initiator_accepts:
  assumes "ni_inv s" "ni_state s = Ni_pending" "ni_last_create_msg s = Some m" "msg m = Some c" "find_msg_sequence_number c = Some n"
    and "msg m' = Some (set_mspec_list l (success_body lt n))" "\<forall>obj \<in> set l. wf_object obj \<and> is_mspec obj"
    and "length l \<le> mspec_limit" "rule_installer d = Nop_auction_rule_installer"
  shows "\<exists>s' w'. ni_process_event d (arrives m') (s, w) = (Ok (), s', w') \<and> ni_state s' = Ni_pending_installing \<and>
    ni_lifetime s' = lt \<and> sess_id s' = sess_id s \<and> sent w' = sent w"
proof -
  note b = success_list_facts [OF assms(7,8) refl, of lt n]
  have "is_anslp_response (arrives m') m" using arrives_response [OF assms(4,5,6) b(2,5)] .
  then obtain s' w' where step: "ni_process_event d (arrives m') (s, w) = (Ok (), s', w')" "ni_state s' = Ni_pending_installing"
    "ni_lifetime s' = lt" "sent w' = sent w"
    using ni_response_step [OF assms(1-3) conjunct2 [OF arrives_with [OF assms(6) b(2)]], of d w] b assms(9)
    by (cases "ni_process_event d (arrives m') (s, w)" rule: call_cases) (auto simp: send_response_def getter_defs)
  then show ?thesis using ni_machine.proc_ident [OF assms(1) step(1)] by auto
qed

section \<open>A forwarder between them\<close>

text \<open>A CREATE arrives at a forwarder that has no session for it and does not take part in the auction.\<close>

lemma forwarder_passes:
  assumes "msg m = Some c" "msg_class c = Anslp_create" "find_session_lifetime c = Some l" "get_mspec_objects c = Some objs"
    and "find_selection_auctioning_entities c = Some sme" "routing_info m = Mri_pathcoupled p" "downstream p"
    and "\<not> check_participating St_forwarder sme" "lt = min l (nf_max_session_lifetime (conf d))" "lt \<noteq> 0"
    and "uuid_ok (plat d)" "\<forall>obj \<in> set objs. wf_object obj"
    and "m' = new_ntlp_msg (sid m) (nf_create_of c objs lt) (Mri_pathcoupled p) 0"
  shows "\<exists>s' w' r. nf_process_event d (arrives m) (new_nf_session (sid m) random garbage, w) = (Ok (), s', w') \<and>
    sent w' = sent w @ [m'] \<and> nf_inv s' \<and> nf_state s' = Nf_pending \<and> nf_create_message s' = Some m \<and> nf_lifetime s' = lt \<and>
    sess_id s' = sid m \<and> shutdownflag w' = shutdownflag w \<and>
    rule s' = Some r \<and> object_responses r = [] \<and> length (object_requests r) = length objs"
proof -
  let ?s = "new_nf_session (sid m) random garbage :: 'a nf_session"
  let ?r = "fst (rule_of_create d objs new_auction_rule w)"
  have sel: "\<not> check_participating St_forwarder (get_selection_auctioning_entities c)"
    and lt: "lt = min (get_session_lifetime c) (nf_max_session_lifetime (conf d))"
    and new: "nf_state ?s = Nf_close" "rule ?s = Some new_auction_rule" "sess_id ?s = sid m"
    using assms(3,5,8,9) by (simp_all add: getter_defs new_nf_session_def)
  obtain s' w' where step: "nf_process_event d (arrives m) (?s, w) = (Ok (), s', w')" "nf_state s' = Nf_pending"
    "sent w' = sent w @ [m']" "nf_lifetime s' = lt" "nf_create_message s' = Some m" "rule s' = Some ?r"
    "shutdownflag w' = shutdownflag w"
    using nf_create_step [OF nf_inv_new new(1) conjunct1 [OF arrives_with [OF assms(1,2)]] assms(6,7) sel assms(4) new(2) lt assms(10), of m' w]
      assms(13) new(3) by auto
  have "size (image_mset snd (mset (object_requests ?r))) = size (mset objs)"
    using rule_of_create_requests [OF assms(11,12), of new_auction_rule w] by (rule arg_cong)
  moreover have "object_responses ?r = []" by (simp add: rule_of_create_def add_requests_world new_auction_rule_def)
  moreover have "nf_inv s'" "sess_id s' = sid m"
    using nf_machine.proc_inv [OF nf_inv_new step(1)] nf_machine.proc_ident [OF nf_inv_new step(1)] new(3) by simp_all
  ultimately show ?thesis using step by (intro exI [of _ s'] exI [of _ w'] exI [of _ ?r]) simp
qed

text \<open>The response of the receiver arrives: nothing is sent before the application has installed the objects.\<close>

lemma forwarder_waits:
  assumes "nf_inv s" "nf_state s = Nf_pending" "nf_create_message s = Some m" "msg m = Some c" "find_msg_sequence_number c = Some n"
    and "msg m' = Some (set_mspec_list l (success_body lt n))" "\<forall>obj \<in> set l. wf_object obj \<and> is_mspec obj" "length l \<le> mspec_limit"
    and "rule s = Some r" "can_install d w"
  shows "\<exists>s' w'. nf_process_event d (arrives m') (s, w) = (Ok (), s', w') \<and> sent w' = sent w \<and>
    nf_state s' = Nf_pending_installing \<and> nf_response_message s' = Some m' \<and> rule s' = Some r \<and>
    nf_lifetime s' = nf_lifetime s \<and> sess_id s' = sess_id s"
proof -
  note b = success_list_facts [OF assms(7,8) refl, of lt n]
  have answer: "is_anslp_response (arrives m') m" using arrives_response [OF assms(4,5,6) b(2,5)] .
  have "ev_sid (arrives m') \<noteq> None" by (simp add: arrives_def)
  from nf_response_step [OF assms(1-3) conjunct1 [OF arrives_with [OF assms(6) b(2)]] answer b(3) this assms(9,10)]
  obtain s' w' where step: "nf_process_event d (arrives m') (s, w) = (Ok (), s', w')" "nf_state s' = Nf_pending_installing"
    "sent w' = sent w" "nf_response_message s' = Some m'" "rule s' = Some r" "nf_lifetime s' = nf_lifetime s" by auto
  then show ?thesis using nf_machine.proc_ident [OF assms(1) step(1)] by auto
qed

text \<open>The application has installed the objects: the response goes on with them.\<close>

lemma forwarder_installs:
  assumes "nf_inv s" "nf_state s = Nf_pending_installing" "nf_response_message s = Some m"
    and "msg m = Some (set_mspec_list l (success_body lt n))" "\<forall>obj \<in> set l. wf_object obj \<and> is_mspec obj" "length l \<le> mspec_limit"
    and "rule s = Some r" "object_responses r = []" "length (object_requests r) = length objs"
    and "ev_data evt = Api_install_event objs" "wf_object_list (plat d) objs" "uuid_ok (plat d)"
  shows "\<exists>s' w' m' new. nf_process_event d evt (s, w) = (Ok (), s', w') \<and> sent w' = sent w @ [m'] \<and>
    msg m' = Some (set_mspec_list (l @ new) (success_body lt n)) \<and> sid m' = sess_id s \<and> mset new = mset (map snd objs) \<and>
    nf_state s' = Nf_auctioning \<and> nf_lifetime s' = nf_lifetime s \<and> sess_id s' = sess_id s"
proof -
  let ?b = "set_mspec_list l (success_body lt n)"
  note b = success_list_facts [OF assms(5,6) refl, of lt n]
  have "cast_msg Anslp_response m = Some ?b" using assms(4) b(2) by (simp add: cast_msg_def)
  from nf_install_step [OF assms(2,3) this b(1) assms(7-12), of w]
  obtain s' w' new where step: "nf_process_event d evt (s, w) = (Ok (), s', w')" "nf_state s' = Nf_auctioning"
    "sent w' = sent w @ [new_ntlp_msg (sess_id s) (set_mspec_list new ?b) (routing_info m) 0]"
    "mset new = mset (map snd objs)" "nf_lifetime s' = nf_lifetime s" by auto
  moreover have "set_mspec_list new ?b = set_mspec_list (l @ new) (success_body lt n)" by (simp add: set_mspec_list_def)
  ultimately show ?thesis using nf_machine.proc_ident [OF assms(1) step(1)] new_ntlp_msg_parts(1,2) by fastforce
qed

section \<open>A path of forwarders\<close>

text \<open>
  A forwarder on the path: its node and world, what the constructor of its session draws, and the event by which its
  application reports the objects it has installed.
\<close>

record 'm hop =
  hop_node :: "'m dispatcher"
  hop_world :: "'m world"
  hop_random :: u32
  hop_garbage :: u32
  hop_install :: "'m event"
  hop_objects :: "'m object_list"

text \<open>
  The CREATE \<open>m\<close> with the lifetime \<open>l\<close> is answered with \<open>m'\<close> along the forwarders \<open>hs\<close> up to the
  receiver, whose constructor draws two numbers: each forwarder gets it as GIST carries it, passes its own CREATE on, gets the
  answer of the rest of the path, and sends the answer on when its application has installed the objects.
\<close>

primrec answered :: "('b, 'm) wire \<Rightarrow> 'm dispatcher \<Rightarrow> 'm world \<Rightarrow> u32 \<times> u32 \<Rightarrow> 'm hop list \<Rightarrow> u32 \<Rightarrow> 'm ntlp_msg \<Rightarrow> 'm ntlp_msg \<Rightarrow> bool" where
  "answered L d w drawn [] l m m' = (\<exists>evt s' w'. carried L m evt \<and>
     nr_process_event d evt (new_nr_session (sid m) (conf d) (fst drawn) (snd drawn), w) = (Ok (), s', w') \<and>
     sent w' = sent w @ [m'] \<and> nr_state s' = Nr_auctioning \<and> sess_id s' = sid m \<and>
     nr_lifetime s' = min l (nr_max_session_lifetime (conf d)))"
| "answered L d w drawn (h # hs) l m m' = (\<exists>evt s1 w1 out back_msg evt' s2 w2 s3 w3. carried L m evt \<and>
     nf_process_event (hop_node h) evt (new_nf_session (sid m) (hop_random h) (hop_garbage h), hop_world h) = (Ok (), s1, w1) \<and>
     sent w1 = sent (hop_world h) @ [out] \<and>
     answered L d w drawn hs (min l (nf_max_session_lifetime (conf (hop_node h)))) out back_msg \<and> carried L back_msg evt' \<and>
     nf_process_event (hop_node h) evt' (s1, w1) = (Ok (), s2, w2) \<and> sent w2 = sent w1 \<and>
     nf_process_event (hop_node h) (hop_install h) (s2, w2) = (Ok (), s3, w3) \<and> sent w3 = sent w2 @ [m'] \<and>
     nf_state s3 = Nf_auctioning \<and> sess_id s3 = sid m \<and>
     nf_lifetime s3 = min l (nf_max_session_lifetime (conf (hop_node h))))"

text \<open>The lifetime that the path grants.\<close>

definition granted :: "'m dispatcher \<Rightarrow> 'm hop list \<Rightarrow> u32 \<Rightarrow> u32" where
  "granted d hs l = min (fold (\<lambda>h v. min v (nf_max_session_lifetime (conf (hop_node h)))) hs l) (nr_max_session_lifetime (conf d))"

text \<open>
  What is asked of a forwarder: it has a maximum, it can queue its requests to the application, and the application
  installs as many objects as were requested, each of which can be sent.
\<close>

definition hop_ready :: "('b, 'm) wire \<Rightarrow> nat \<Rightarrow> 'm hop \<Rightarrow> bool" where
  "hop_ready L k h = (nf_max_session_lifetime (conf (hop_node h)) \<noteq> 0 \<and> can_install (hop_node h) (hop_world h) \<and>
     uuid_ok (plat (hop_node h)) \<and> ev_data (hop_install h) = Api_install_event (hop_objects h) \<and>
     wf_object_list (plat (hop_node h)) (hop_objects h) \<and> list_all (sendable L) (map snd (hop_objects h)) \<and>
     length (hop_objects h) = k)"

text \<open>The CREATE between two nodes, with what a forwarder keeps of it.\<close>

definition create_with :: "('b, 'm) wire \<Rightarrow> 'm ntlp_msg \<Rightarrow> 'm anslp_msg \<Rightarrow> u32 \<Rightarrow> u32 \<Rightarrow> u32 \<Rightarrow> 'm anslp_object list \<Rightarrow> bool" where
  "create_with L m c l n sme objs = (msg m = Some c \<and> msg_class c = Anslp_create \<and> find_session_lifetime c = Some l \<and>
     find_msg_sequence_number c = Some n \<and> find_selection_auctioning_entities c = Some sme \<and>
     get_mspec_objects c = Some objs \<and> (\<exists>p. routing_info m = Mri_pathcoupled p \<and> downstream p) \<and>
     complete L c \<and> msg_serialized_size L c < 2 ^ 32)"

lemma create_with_forwarded:
  assumes "create_with L m c l n sme objs" "\<forall>obj \<in> set objs. sendable L obj \<and> is_mspec obj" "length objs < 2 ^ 17"
    and "lt \<le> l" "routing_info m = Mri_pathcoupled p" "m' = new_ntlp_msg i (nf_create_of c objs lt) (Mri_pathcoupled p) 0"
  shows "create_with L m' (nf_create_of c objs lt) lt n sme objs"
proof -
  have wf: "\<forall>obj \<in> set objs. wf_object obj \<and> is_mspec obj" using assms(2) by (auto simp: sendable_def)
  have "length objs \<le> mspec_limit" using assms(3) by (simp add: mspec_limit_def)
  note facts = nf_create_of_facts [OF wf this, of c lt]
  have copies: "map object_copy objs = objs" using wf wf_object_copies by blast
  have "complete L (nf_create_of c objs lt) \<and> msg_serialized_size L (nf_create_of c objs lt) < 2 ^ 32"
    by (rule create_complete [OF assms(2,3)]) (simp only: nf_create_of_def copies)
  moreover have "msg_class (nf_create_of c objs lt) = Anslp_create" by (simp add: nf_create_of_def)
  ultimately show ?thesis
    using assms(1,4,5,6) facts by (auto simp: create_with_def getter_defs min_def)
qed

lemma create_with_carried:
  assumes "netmsg_laws L R" "ie_laws L" "create_with L m c l n sme objs"
  shows "carried L m (arrives m)"
  using complete_carried [OF assms(1,2), of m c] assms(3) by (simp add: create_with_def)

lemma granted_simps [simp]:
  "granted d [] l = min l (nr_max_session_lifetime (conf d))"
  "granted d (h # hs) l = granted d hs (min l (nf_max_session_lifetime (conf (hop_node h))))"
  by (simp_all add: granted_def)

lemma min_not_zero: "a \<noteq> 0 \<Longrightarrow> b \<noteq> 0 \<Longrightarrow> min a b \<noteq> (0 :: u32)"
  by (simp add: min_def)

text \<open>The response between two nodes, with the objects that forwarders have installed.\<close>

definition response_with :: "('b, 'm) wire \<Rightarrow> 'm ntlp_msg \<Rightarrow> u32 \<Rightarrow> u32 \<Rightarrow> 'm anslp_object multiset \<Rightarrow> bool" where
  "response_with L m lt n M = (\<exists>objs. msg m = Some (set_mspec_list objs (success_body lt n)) \<and> mset objs = M \<and>
     (\<forall>obj \<in> set objs. sendable L obj \<and> is_mspec obj))"

definition installed :: "'m hop list \<Rightarrow> 'm anslp_object multiset" where
  "installed hs = mset (concat (map (\<lambda>h. map snd (hop_objects h)) hs))"

lemma installed_simps [simp]:
  "installed [] = {#}" "installed (h # hs) = mset (map snd (hop_objects h)) + installed hs"
  by (simp_all add: installed_def)

lemma installed_size: "\<forall>h \<in> set hs. hop_ready L k h \<Longrightarrow> size (installed hs) = length hs * k"
  by (induction hs) (simp_all add: hop_ready_def)

text \<open>One more forwarder in front of a path that answers.\<close>

lemma hop_answers:
  assumes "netmsg_laws L R" "ie_laws L" "create_with L m c l n sme objs"
    and "\<forall>obj \<in> set objs. sendable L obj \<and> is_mspec obj" "length objs < 2 ^ 17" "\<not> check_participating St_forwarder sme"
    and "hop_ready L (length objs) h" "lt = min l (nf_max_session_lifetime (conf (hop_node h)))" "lt \<noteq> 0" "size M < 2 ^ 17"
    and "\<And>out. create_with L out (nf_create_of c objs lt) lt n sme objs \<Longrightarrow>
      \<exists>rep. answered L d w drawn hs lt out rep \<and> response_with L rep g n M"
  shows "\<exists>m'. answered L d w drawn (h # hs) l m m' \<and> response_with L m' g n (mset (map snd (hop_objects h)) + M) \<and> sid m' = sid m"
proof -
  let ?d = "hop_node h"
  have h: "can_install ?d (hop_world h)" "uuid_ok (plat ?d)"
    "ev_data (hop_install h) = Api_install_event (hop_objects h)" "wf_object_list (plat ?d) (hop_objects h)"
    "list_all (sendable L) (map snd (hop_objects h))" "length (hop_objects h) = length objs"
    using assms(7) by (simp_all add: hop_ready_def)
  obtain p where m: "msg m = Some c" "msg_class c = Anslp_create" "find_session_lifetime c = Some l" "get_mspec_objects c = Some objs"
    "find_selection_auctioning_entities c = Some sme" "routing_info m = Mri_pathcoupled p" "downstream p"
    and n: "find_msg_sequence_number c = Some n"
    using assms(3) by (auto simp: create_with_def)
  have wf: "\<forall>obj \<in> set objs. wf_object obj" using assms(4) by (auto simp: sendable_def)
  let ?out = "new_ntlp_msg (sid m) (nf_create_of c objs lt) (Mri_pathcoupled p) 0"
  from forwarder_passes [OF m assms(6,8,9) h(2) wf refl, of "hop_random h" "hop_garbage h" "hop_world h"]
  obtain s1 w1 r where one: "nf_process_event ?d (arrives m) (new_nf_session (sid m) (hop_random h) (hop_garbage h), hop_world h) = (Ok (), s1, w1)"
    "sent w1 = sent (hop_world h) @ [?out]" "nf_inv s1" "nf_state s1 = Nf_pending" "nf_create_message s1 = Some m" "nf_lifetime s1 = lt"
    "sess_id s1 = sid m" "shutdownflag w1 = shutdownflag (hop_world h)" "rule s1 = Some r" "object_responses r = []"
    "length (object_requests r) = length objs" by auto
  have "lt \<le> l" using assms(8) by simp
  from assms(11) [OF create_with_forwarded [OF assms(3-5) this m(6) refl, where i = "sid m"]]
  obtain rep new where rest: "answered L d w drawn hs lt ?out rep" "msg rep = Some (set_mspec_list new (success_body g n))"
    "mset new = M" "\<forall>obj \<in> set new. sendable L obj \<and> is_mspec obj"
    unfolding response_with_def by blast
  have short: "length new < 2 ^ 17" using assms(10) rest(3) by auto
  then have len: "length new \<le> mspec_limit" and wfn: "\<forall>obj \<in> set new. wf_object obj \<and> is_mspec obj"
    using rest(4) by (auto simp: mspec_limit_def sendable_def)
  have carr: "carried L rep (arrives rep)"
    using complete_carried [OF assms(1,2) rest(2) success_list_complete [OF rest(4) short refl]] .
  have "can_install ?d w1" using h(1) one(8) by (simp add: can_install_def)
  from forwarder_waits [OF one(3-5) m(1) n rest(2) wfn len one(9) this]
  obtain s2 w2 where two: "nf_process_event ?d (arrives rep) (s1, w1) = (Ok (), s2, w2)" "sent w2 = sent w1"
    "nf_state s2 = Nf_pending_installing" "nf_response_message s2 = Some rep" "rule s2 = Some r" "nf_lifetime s2 = lt"
    "sess_id s2 = sid m" using one(6,7) by auto
  have inv: "nf_inv s2" using nf_machine.proc_inv [OF one(3) two(1)] by simp
  have "length (object_requests r) = length (hop_objects h)" using one(11) h(6) by simp
  from forwarder_installs [OF inv two(3,4) rest(2) wfn len two(5) one(10) this h(3,4,2), of w2]
  obtain s3 w3 m' own where three: "nf_process_event ?d (hop_install h) (s2, w2) = (Ok (), s3, w3)" "sent w3 = sent w2 @ [m']"
    "msg m' = Some (set_mspec_list (new @ own) (success_body g n))" "sid m' = sid m"
    "mset own = mset (map snd (hop_objects h))" "nf_state s3 = Nf_auctioning" "nf_lifetime s3 = lt" "sess_id s3 = sid m"
    using two(6,7) by auto
  have "answered L d w drawn (h # hs) l m m'"
    using create_with_carried [OF assms(1-3)] one(1,2) rest(1) carr two(1,2) three(1,2,6,7,8)
    unfolding answered.simps assms(8) by blast
  moreover have "set own = set (map snd (hop_objects h))" using three(5) by (metis set_mset_mset)
  then have "response_with L m' g n (mset (map snd (hop_objects h)) + M)"
    using rest(3,4) h(4,5) three(3,5) unfolding response_with_def
    by (intro exI [of _ "new @ own"]) (auto simp: wf_object_list_def list_all_iff)
  ultimately show ?thesis using three(4) by blast
qed

lemma path_answers:
  assumes "netmsg_laws L R" "ie_laws L" "create_with L m c l n sme objs"
    and "\<forall>obj \<in> set objs. sendable L obj \<and> is_mspec obj" "length objs < 2 ^ 17" "l \<noteq> 0"
    and "\<not> check_participating St_forwarder sme" "\<not> check_participating St_receiver sme" "nr_max_session_lifetime (conf d) \<noteq> 0"
    and "\<forall>h \<in> set hs. hop_ready L (length objs) h" "length hs * length objs < 2 ^ 17"
  shows "\<exists>m'. answered L d w drawn hs l m m' \<and> response_with L m' (granted d hs l) n (installed hs) \<and> sid m' = sid m"
  using assms(3,6,10,11)
proof (induction hs arbitrary: m c l)
  case Nil
  obtain p where m: "msg m = Some c" "msg_class c = Anslp_create" "find_session_lifetime c = Some l" "find_msg_sequence_number c = Some n"
    "find_selection_auctioning_entities c = Some sme" "get_mspec_objects c \<noteq> None" "routing_info m = Mri_pathcoupled p"
    using Nil.prems(1) by (auto simp: create_with_def)
  from receiver_answers [OF m assms(8) refl min_not_zero [OF Nil.prems(2) assms(9)], of "fst drawn" "snd drawn" w]
  obtain s' w' m' where step: "nr_process_event d (arrives m) (new_nr_session (sid m) (conf d) (fst drawn) (snd drawn), w) = (Ok (), s', w')"
    "sent w' = sent w @ [m']" "msg m' = Some (success_body (granted d [] l) n)" "sid m' = sid m" "nr_state s' = Nr_auctioning"
    "nr_lifetime s' = granted d [] l" "sess_id s' = sid m" by auto
  then have "answered L d w drawn [] l m m'" using create_with_carried [OF assms(1,2) Nil.prems(1)] by auto
  then show ?case using step by (auto simp: response_with_def set_mspec_list_def)
next
  case (Cons h hs)
  let ?lt = "min l (nf_max_session_lifetime (conf (hop_node h)))"
  have h: "hop_ready L (length objs) h" "\<forall>h \<in> set hs. hop_ready L (length objs) h" "length hs * length objs < 2 ^ 17"
    using Cons.prems(3,4) by simp_all
  have lt: "?lt \<noteq> 0" using min_not_zero [OF Cons.prems(2)] h(1) by (simp add: hop_ready_def)
  have "size (installed hs) < 2 ^ 17" using installed_size [OF h(2)] h(3) by simp
  from hop_answers [OF assms(1,2) Cons.prems(1) assms(4,5,7) h(1) refl lt this, of d w drawn hs "granted d hs ?lt"]
  show ?case using Cons.IH [OF _ lt h(2,3)] unfolding granted_simps(2) installed_simps(2) by blast
qed

lemma response_with_objects:
  assumes "response_with L m lt n M" "size M < 2 ^ 17"
  shows "\<exists>b objs. msg m = Some b \<and> get_mspec_objects b = Some objs \<and> mset objs = M"
proof -
  obtain l where l: "msg m = Some (set_mspec_list l (success_body lt n))" "mset l = M" "\<forall>obj \<in> set l. sendable L obj \<and> is_mspec obj"
    using assms(1) by (auto simp: response_with_def)
  then have "length l \<le> mspec_limit" "\<forall>obj \<in> set l. wf_object obj \<and> is_mspec obj"
    using assms(2) by (auto simp: mspec_limit_def sendable_def)
  then show ?thesis using success_list_facts(6) [OF _ _ refl, of l lt n] l(1,2) by blast
qed

text \<open>The answer comes back to the initiator.\<close>

lemma answer_accepted:
  assumes "netmsg_laws L R" "ie_laws L" "ni_inv s" "ni_state s = Ni_pending" "ni_last_create_msg s = Some m" "msg m = Some c"
    and "find_msg_sequence_number c = Some n" "response_with L m' lt n M" "size M < 2 ^ 17"
    and "rule_installer d = Nop_auction_rule_installer"
  shows "carried L m' (arrives m') \<and> (\<exists>s' w'. ni_process_event d (arrives m') (s, w) = (Ok (), s', w') \<and>
    ni_state s' = Ni_pending_installing \<and> ni_lifetime s' = lt \<and> sess_id s' = sess_id s \<and> sent w' = sent w)"
proof -
  obtain l where l: "msg m' = Some (set_mspec_list l (success_body lt n))" "mset l = M" "\<forall>obj \<in> set l. sendable L obj \<and> is_mspec obj"
    using assms(8) by (auto simp: response_with_def)
  have short: "length l < 2 ^ 17" using assms(9) l(2) by auto
  then have "length l \<le> mspec_limit" "\<forall>obj \<in> set l. wf_object obj \<and> is_mspec obj"
    using l(3) by (auto simp: mspec_limit_def sendable_def)
  then show ?thesis
    using initiator_accepts [OF assms(3-7) l(1) _ _ assms(10), of w]
      complete_carried [OF assms(1,2) l(1) success_list_complete [OF l(3) short refl]] by blast
qed

lemma first_create_with:
  assumes "wf_object_list P (ac_mspec_objects e)" "list_all (sendable L) (map snd (ac_mspec_objects e))"
    "length (ac_mspec_objects e) < 2 ^ 17" "m = new_ntlp_msg i (ni_first_create e s) (api_mri e) 0"
  shows "create_with L m (ni_first_create e s) (ac_session_lifetime e) (next_msg_sequence_number (msn s)) (ac_sel_auct_entities e)
    (map snd (ac_mspec_objects e))"
proof -
  have "length (ac_mspec_objects e) \<le> mspec_limit" using assms(3) by (simp add: mspec_limit_def)
  then show ?thesis
    using ni_first_create_facts [OF assms(1), of s] ni_first_create_complete [OF assms(1-3), of s] assms(4)
    by (auto simp: create_with_def api_mri_def)
qed

end
