(* ===== verification/Session_Manager.thy ===== *)
theory Session_Manager
  imports Ni_Session Nf_Session Nr_Session
begin

text \<open>
  The session table (\<open>src/src/session_manager.cpp\<close>): the live sessions by session id, and the
  list of the last finished ones. The mutex is not modelled: the operations are atomic.
\<close>

datatype 'm any_session = Ni "'m ni_session" | Nf "'m nf_session" | Nr "'m nr_session"

text \<open>The virtual functions of \<open>session\<close>.\<close>

definition get_id :: "'m any_session \<Rightarrow> session_id" where
  "get_id s = (case s of Ni x \<Rightarrow> sess_id x | Nf x \<Rightarrow> sess_id x | Nr x \<Rightarrow> sess_id x)"

definition is_final :: "'m any_session \<Rightarrow> bool" where
  "is_final s = (case s of Ni x \<Rightarrow> ni_is_final x | Nf x \<Rightarrow> nf_is_final x | Nr x \<Rightarrow> nr_is_final x)"

definition process :: "'m dispatcher \<Rightarrow> 'm event \<Rightarrow> 'm any_session \<times> 'm world
    \<Rightarrow> (exn, unit) outcome \<times> 'm any_session \<times> 'm world" where
  "process d evt = (\<lambda>(s, w). case s of
       Ni x \<Rightarrow> (case ni_process_event d evt (x, w) of (r, x, w) \<Rightarrow> (r, Ni x, w))
     | Nf x \<Rightarrow> (case nf_process_event d evt (x, w) of (r, x, w) \<Rightarrow> (r, Nf x, w))
     | Nr x \<Rightarrow> (case nr_process_event d evt (x, w) of (r, x, w) \<Rightarrow> (r, Nr x, w)))"

record 'm session_manager =
  session_table :: "session_id \<rightharpoonup> 'm any_session"
  sessionDone :: "'m any_session list"

definition empty_manager :: "'m session_manager" where
  "empty_manager = \<lparr>session_table = Map.empty, sessionDone = []\<rparr>"

definition get_session :: "session_id \<Rightarrow> 'm session_manager \<Rightarrow> 'm any_session option" where
  "get_session i mgr = session_table mgr i"

definition add_session :: "'m any_session \<Rightarrow> 'm session_manager \<Rightarrow> 'm session_manager" where
  "add_session s mgr = mgr\<lparr>session_table := (session_table mgr)(get_id s \<mapsto> s)\<rparr>"

text \<open>
  \<open>create_unique_id\<close> draws random ids until one is not in the table; \<open>n\<close> counts the draws. The
  loop need not end, so that the result is an option.
\<close>

partial_function (option) create_unique_id ::
    "'m platform \<Rightarrow> (session_id \<rightharpoonup> 'm any_session) \<Rightarrow> nat \<Rightarrow> (session_id \<times> nat) option" where
  "create_unique_id P table n =
     (if table (random_id P n) \<noteq> None then create_unique_id P table (Suc n)
      else Some (random_id P n, Suc n))"

definition create_ni_session :: "'m dispatcher \<Rightarrow> 'm session_manager \<times> 'm world
    \<Rightarrow> ('m any_session \<times> 'm session_manager \<times> 'm world) option" where
  "create_ni_session d = (\<lambda>(mgr, w).
     case create_unique_id (plat d) (session_table mgr) (randoms_made w) of
       None \<Rightarrow> None
     | Some (i, n) \<Rightarrow>
         let s = Ni (new_ni_session i (conf d) (random_u32 (plat d) n) (uninitialised (plat d)))
         in Some (s, add_session s mgr, w\<lparr>randoms_made := Suc n\<rparr>))"

definition create_nf_session :: "'m dispatcher \<Rightarrow> session_id \<Rightarrow> 'm session_manager \<times> 'm world
    \<Rightarrow> 'm any_session \<times> 'm session_manager \<times> 'm world" where
  "create_nf_session d i = (\<lambda>(mgr, w).
     let s = Nf (new_nf_session i (random_u32 (plat d) (randoms_made w)) (uninitialised (plat d)))
     in (s, add_session s mgr, w\<lparr>randoms_made := Suc (randoms_made w)\<rparr>))"

definition create_nr_session :: "'m dispatcher \<Rightarrow> session_id \<Rightarrow> 'm session_manager \<times> 'm world
    \<Rightarrow> 'm any_session \<times> 'm session_manager \<times> 'm world" where
  "create_nr_session d i = (\<lambda>(mgr, w).
     let s = Nr (new_nr_session i (conf d) (random_u32 (plat d) (randoms_made w)) (uninitialised (plat d)))
     in (s, add_session s mgr, w\<lparr>randoms_made := Suc (randoms_made w)\<rparr>))"

definition DONE_SESSION_LIST_SIZE :: nat where
  "DONE_SESSION_LIST_SIZE = 300"

definition store_session_asdone :: "'m any_session \<Rightarrow> 'm session_manager \<Rightarrow> 'm session_manager" where
  "store_session_asdone s mgr =
     (let done = sessionDone mgr @ [s]
      in mgr\<lparr>sessionDone := (if length done > DONE_SESSION_LIST_SIZE then tl done else done)\<rparr>)"

text \<open>The log statement reads the session, so that removing an unknown id goes through a null pointer.\<close>

definition remove_session :: "session_id \<Rightarrow> 'm session_manager \<times> 'm world
    \<Rightarrow> (exn, unit) outcome \<times> 'm session_manager \<times> 'm world" where
  "remove_session i = (\<lambda>(mgr, w).
     deref (session_table mgr i) Null_deref (mgr, w) (\<lambda>s.
       let mgr = mgr\<lparr>session_table := (session_table mgr)(i := None)\<rparr>
       in (Ok (), store_session_asdone s mgr, w)))"

section \<open>Sessions of any kind\<close>

definition any_inv :: "'m any_session \<Rightarrow> bool" where
  "any_inv s = (case s of Ni x \<Rightarrow> ni_inv x | Nf x \<Rightarrow> nf_inv x | Nr x \<Rightarrow> nr_inv x)"

interpretation any_machine: session_machine "process d" get_id any_inv for d
proof
  fix s :: "'a any_session" and evt w
  assume inv: "any_inv s"
  show "post (\<lambda>_ sw. any_inv (fst sw) \<and> get_id (fst sw) = get_id s) (\<lambda>_ sw. get_id (fst sw) = get_id s)
      (\<lambda>_ sw. get_id (fst sw) = get_id s) (process d evt (s, w))"
  proof (cases s)
    case (Ni x)
    then show ?thesis using inv ni_machine.proc_keeps [of x d evt w]
      by (cases "ni_process_event d evt (x, w)" rule: call_cases) (auto simp: process_def any_inv_def get_id_def)
  next
    case (Nf x)
    then show ?thesis using inv nf_machine.proc_keeps [of x d evt w]
      by (cases "nf_process_event d evt (x, w)" rule: call_cases) (auto simp: process_def any_inv_def get_id_def)
  next
    case (Nr x)
    then show ?thesis using inv nr_machine.proc_keeps [of x d evt w]
      by (cases "nr_process_event d evt (x, w)" rule: call_cases) (auto simp: process_def any_inv_def get_id_def)
  qed
qed

section \<open>The session table\<close>

text \<open>
  Between two events the table holds sessions under their own ids, each in a valid state other than
  the final one, and the list of finished sessions is bounded.
\<close>

definition table_ok :: "(session_id \<rightharpoonup> 'm any_session) \<Rightarrow> bool" where
  "table_ok t = (\<forall>i s. t i = Some s \<longrightarrow> get_id s = i \<and> any_inv s \<and> \<not> is_final s)"

definition manager_ok :: "'m session_manager \<Rightarrow> bool" where
  "manager_ok mgr = (table_ok (session_table mgr) \<and> length (sessionDone mgr) \<le> DONE_SESSION_LIST_SIZE)"

lemma manager_ok_empty: "manager_ok empty_manager"
  by (simp add: manager_ok_def table_ok_def empty_manager_def)

lemma store_session_asdone_simps [simp]:
  "session_table (store_session_asdone s mgr) = session_table mgr"
  "sessionDone (store_session_asdone s mgr) = (if length (sessionDone mgr) < DONE_SESSION_LIST_SIZE
     then sessionDone mgr @ [s] else tl (sessionDone mgr @ [s]))"
  by (simp_all add: store_session_asdone_def Let_def not_less DONE_SESSION_LIST_SIZE_def)

lemma remove_session_ok:
  assumes "session_table mgr i = Some s" "table_ok ((session_table mgr)(i := None))"
    "length (sessionDone mgr) \<le> DONE_SESSION_LIST_SIZE"
  shows "\<exists>mgr'. remove_session i (mgr, w) = (Ok (), mgr', w) \<and> manager_ok mgr' \<and>
    session_table mgr' = (session_table mgr)(i := None) \<and> last (sessionDone mgr') = s"
proof -
  have "remove_session i (mgr, w) =
      (Ok (), store_session_asdone s (mgr\<lparr>session_table := (session_table mgr)(i := None)\<rparr>), w)"
    using assms(1) by (simp add: remove_session_def Let_def)
  moreover have "last (tl (sessionDone mgr @ [s])) = s" if "\<not> length (sessionDone mgr) < DONE_SESSION_LIST_SIZE"
    using that by (cases "sessionDone mgr") (simp_all add: DONE_SESSION_LIST_SIZE_def)
  ultimately show ?thesis using assms(2,3) by (auto simp: manager_ok_def)
qed

section \<open>Unique ids\<close>

lemma create_unique_id_fresh:
  assumes "table (random_id P k) = None" "n \<le> k"
  shows "\<exists>j. n \<le> j \<and> j \<le> k \<and> create_unique_id P table n = Some (random_id P j, Suc j) \<and> table (random_id P j) = None"
  using assms(2)
proof (induction "k - n" arbitrary: n)
  case 0
  then show ?case using assms(1) by (subst create_unique_id.simps) auto
next
  case (Suc m)
  show ?case
  proof (cases "table (random_id P n) = None")
    case True
    then show ?thesis using Suc.prems by (subst create_unique_id.simps) auto
  next
    case False
    have "\<exists>j. Suc n \<le> j \<and> j \<le> k \<and> create_unique_id P table (Suc n) = Some (random_id P j, Suc j) \<and>
        table (random_id P j) = None"
      using Suc.hyps by (intro Suc.hyps) auto
    then obtain j where "Suc n \<le> j" "j \<le> k" "create_unique_id P table (Suc n) = Some (random_id P j, Suc j)"
      "table (random_id P j) = None" by blast
    then show ?thesis using False by (subst create_unique_id.simps) auto
  qed
qed

lemma create_unique_id_Some:
  assumes "create_unique_id P table n = Some r"
  shows "\<exists>j \<ge> n. r = (random_id P j, Suc j) \<and> table (random_id P j) = None \<and>
    (\<forall>k. n \<le> k \<and> k < j \<longrightarrow> table (random_id P k) \<noteq> None)"
proof -
  let ?Q = "\<lambda>((P, table), n) r. \<exists>j \<ge> n. r = (random_id P j, Suc j) \<and> table (random_id P j) = None \<and>
    (\<forall>k. n \<le> k \<and> k < j \<longrightarrow> table (random_id P k) \<noteq> None)"
  have "?Q ((P, table), n) r"
  proof (rule create_unique_id.raw_induct [OF _ assms, of ?Q])
    fix f :: "'a platform \<Rightarrow> (session_id \<Rightarrow> 'a any_session option) \<Rightarrow> nat \<Rightarrow> (session_id \<times> nat) option" and P table n r
    assume IH: "\<And>P table n y. f P table n = Some y \<Longrightarrow> ?Q ((P, table), n) y"
      and eq: "(if table (random_id P n) \<noteq> None then f P table (Suc n) else Some (random_id P n, Suc n)) = Some r"
    show "?Q ((P, table), n) r"
    proof (cases "table (random_id P n)")
      case None
      then show ?thesis using eq by auto
    next
      case (Some x)
      then obtain j where "Suc n \<le> j" "r = (random_id P j, Suc j)" "table (random_id P j) = None"
        "\<forall>k. Suc n \<le> k \<and> k < j \<longrightarrow> table (random_id P k) \<noteq> None"
        using IH [of P table "Suc n" r] eq by auto
      moreover have "table (random_id P k) \<noteq> None" if "n \<le> k" "k < j" for k
        using that Some calculation(4) by (cases "k = n") auto
      ultimately show ?thesis by (auto intro!: exI [of _ j])
    qed
  qed
  then show ?thesis by simp
qed

text \<open>
  C38: the search for an unused session id returns exactly when some later draw is not in the table, and then gives
  the first such draw: the id of a new initiator session is never the id of a live session.
\<close>

theorem unique_id_search:
  "(create_unique_id P table n \<noteq> None \<longleftrightarrow> (\<exists>k \<ge> n. table (random_id P k) = None)) \<and>
   (\<forall>i m. create_unique_id P table n = Some (i, m) \<longrightarrow>
      table i = None \<and> n < m \<and> i = random_id P (m - 1) \<and>
      (\<forall>k. n \<le> k \<and> k < m - 1 \<longrightarrow> table (random_id P k) \<noteq> None))"
proof (intro conjI allI impI iffI)
  assume "create_unique_id P table n \<noteq> None"
  then show "\<exists>k \<ge> n. table (random_id P k) = None" using create_unique_id_Some by blast
next
  assume "\<exists>k \<ge> n. table (random_id P k) = None"
  then obtain k where "n \<le> k" "table (random_id P k) = None" by blast
  then show "create_unique_id P table n \<noteq> None" using create_unique_id_fresh [of table P k n] by auto
qed (use create_unique_id_Some in fastforce)+

end
