(* ===== verification/Dispatcher.thy ===== *)
theory Dispatcher
  imports Session_Manager
begin

text \<open>
  The dispatcher (\<open>src/src/dispatcher.cpp\<close>): routes an event to its session, creates
  sessions for CREATE requests, and removes sessions that are final or threw an exception. \<open>None\<close> is
  a run that does not return (the search for an unused session id).
\<close>

definition dispatcher_create_session :: "'m dispatcher \<Rightarrow> 'm event \<Rightarrow> 'm session_manager \<times> 'm world
    \<Rightarrow> ((exn, 'm any_session option) outcome \<times> 'm session_manager \<times> 'm world) option" where
  "dispatcher_create_session d evt = (\<lambda>(mgr, w).
     if is_api_create evt
     then (case create_ni_session d (mgr, w) of
             None \<Rightarrow> None
           | Some (s, mgr, w) \<Rightarrow> Some (Ok (Some s), mgr, w))
     else if is_anslp_create evt
     then Some (deref (ev_sid evt) Null_deref (mgr, w) (\<lambda>i.
            if nf_for_this_node evt
            then (case create_nr_session d i (mgr, w) of (s, mgr, w) \<Rightarrow> (Ok (Some s), mgr, w))
            else if nf_is_edge (conf d)
            then (case create_nr_session d i (mgr, w) of (s, mgr, w) \<Rightarrow> (Ok (Some s), mgr, w))
            else (case create_nf_session d i (mgr, w) of (s, mgr, w) \<Rightarrow> (Ok (Some s), mgr, w))))
     else Some (Ok None, mgr, w))"

definition send_receive_answer :: "'m event \<Rightarrow> mri \<Rightarrow> 'm session_manager \<times> 'm world
    \<Rightarrow> (exn, unit) outcome \<times> 'm session_manager \<times> 'm world" where
  "send_receive_answer evt m = (\<lambda>(mgr, w).
     deref (ev_sid evt) Null_deref (mgr, w) (\<lambda>i. (Ok (), mgr, emit (Receive_answer i m) w)))"

text \<open>The session processes the event in place; \<open>catch (...)\<close> and the final state remove it.\<close>

definition run_session :: "'m dispatcher \<Rightarrow> 'm event \<Rightarrow> 'm any_session \<Rightarrow> 'm session_manager \<times> 'm world
    \<Rightarrow> (exn, unit) outcome \<times> 'm session_manager \<times> 'm world" where
  "run_session d evt s = (\<lambda>(mgr, w).
     case process d evt (s, w) of
       (Ok _, s, w) \<Rightarrow>
         if is_final s then remove_session (get_id s) (add_session s mgr, w)
         else (Ok (), add_session s mgr, w)
     | (Throw e, s, w) \<Rightarrow> remove_session (get_id s) (add_session s mgr, w)
     | (Crash f, s, w) \<Rightarrow> (Crash f, add_session s mgr, w))"

text \<open>The session of an event: looked up by its id, or created.\<close>

definition find_session :: "'m dispatcher \<Rightarrow> 'm event \<Rightarrow> 'm session_manager \<times> 'm world
    \<Rightarrow> ((exn, 'm any_session option) outcome \<times> 'm session_manager \<times> 'm world) option" where
  "find_session d evt = (\<lambda>(mgr, w).
     case (case ev_sid evt of Some i \<Rightarrow> get_session i mgr | None \<Rightarrow> None) of
       Some x \<Rightarrow> Some (Ok (Some x), mgr, w)
     | None \<Rightarrow> dispatcher_create_session d evt (mgr, w))"

definition process_found :: "'m dispatcher \<Rightarrow> 'm event \<Rightarrow> 'm any_session option \<Rightarrow> 'm session_manager \<times> 'm world
    \<Rightarrow> (exn, unit) outcome \<times> 'm session_manager \<times> 'm world" where
  "process_found d evt s mw = (case s of Some x \<Rightarrow> run_session d evt x mw | None \<Rightarrow> (Ok (), mw))"

definition dispatcher_process :: "'m dispatcher \<Rightarrow> 'm event \<Rightarrow> 'm session_manager \<times> 'm world
    \<Rightarrow> ((exn, unit) outcome \<times> 'm session_manager \<times> 'm world) option" where
  "dispatcher_process d evt = (\<lambda>(mgr, w).
     if msg_of evt \<noteq> None \<and> ev_sid evt = None then Some (Crash Assert_failed, mgr, w)
     else (case routing_state_check_of evt of
       Some m \<Rightarrow> Some (send_receive_answer evt m (mgr, w))
     | None \<Rightarrow>
         if is_invalid_anslp_msg evt
         then Some (deref (msg_of evt) Null_deref (mgr, w) (\<lambda>m.
                (Ok (), mgr, send_message (create_response (plat d) 3 0 m) w)))
         else (case find_session d evt (mgr, w) of
                 None \<Rightarrow> None
               | Some r \<Rightarrow> Some (call r (process_found d evt)))))"

text \<open>A sequence of events, one after the other.\<close>

fun dispatch_all :: "'m dispatcher \<Rightarrow> 'm event list \<Rightarrow> 'm session_manager \<times> 'm world
    \<Rightarrow> ((exn, unit) outcome \<times> 'm session_manager \<times> 'm world) option" where
  "dispatch_all d [] mw = Some (Ok (), mw)"
| "dispatch_all d (evt # evts) mw = (case dispatcher_process d evt mw of
       None \<Rightarrow> None
     | Some (Ok _, mw) \<Rightarrow> dispatch_all d evts mw
     | Some (Throw e, mw) \<Rightarrow> Some (Throw e, mw)
     | Some (Crash f, mw) \<Rightarrow> Some (Crash f, mw))"

section \<open>The table between events\<close>

lemma new_sessions_ok:
  "any_inv (Ni (new_ni_session i c n g))" "any_inv (Nf (new_nf_session i n g))" "any_inv (Nr (new_nr_session i c n g))"
  by (simp_all add: any_inv_def ni_inv_new nf_inv_new nr_inv_new)

lemma new_session_ids [simp]:
  "get_id (Ni (new_ni_session i c n g)) = i" "get_id (Nf (new_nf_session i n g)) = i" "get_id (Nr (new_nr_session i c n g)) = i"
  by (simp_all add: get_id_def new_ni_session_def new_nf_session_def new_nr_session_def)

lemma table_ok_update:
  assumes "table_ok (t(i := None))"
  shows "table_ok (t(i := x)) \<longleftrightarrow> (\<forall>s. x = Some s \<longrightarrow> get_id s = i \<and> any_inv s \<and> \<not> is_final s)"
proof -
  have "\<forall>j s. j \<noteq> i \<longrightarrow> t j = Some s \<longrightarrow> get_id s = j \<and> any_inv s \<and> \<not> is_final s"
    using assms by (auto simp: table_ok_def split: if_splits)
  then show ?thesis by (auto simp: table_ok_def)
qed

lemma table_ok_drop: "table_ok t \<Longrightarrow> table_ok (t(i := None))"
  by (simp add: table_ok_def)

text \<open>A session that is in the table under its id processes an event.\<close>

lemma run_session_effect:
  assumes "any_inv s" "get_id s = i" "table_ok ((session_table mgr)(i := None))"
    "length (sessionDone mgr) \<le> DONE_SESSION_LIST_SIZE" "run_session d evt s (mgr, w) = (r, mgr', w')"
  shows "(\<forall>j. j \<noteq> i \<longrightarrow> session_table mgr' j = session_table mgr j) \<and> (\<forall>e. r \<noteq> Throw e) \<and>
    (r = Ok () \<longrightarrow> manager_ok mgr')"
proof -
  obtain pr s' w1 where proc: "process d evt (s, w) = (pr, s', w1)" by (cases "process d evt (s, w)") auto
  have id: "get_id s' = i" using any_machine.proc_ident [OF assms(1) proc] assms(2) by simp
  let ?mgr = "add_session s' mgr"
  have table: "session_table ?mgr = (session_table mgr)(i \<mapsto> s')" using id by (simp add: add_session_def)
  have "sessionDone ?mgr = sessionDone mgr" by (simp add: add_session_def)
  then obtain mgr1 where rem: "remove_session i (?mgr, w1) = (Ok (), mgr1, w1)" "manager_ok mgr1"
    "session_table mgr1 = (session_table mgr)(i := None)"
    using remove_session_ok [of ?mgr i s' w1] table assms(3,4) by auto
  show ?thesis
  proof (cases pr)
    case (Ok u)
    have "any_inv s'" using any_machine.proc_inv [OF assms(1)] proc Ok by simp
    then have "table_ok (session_table ?mgr)" if "\<not> is_final s'"
      using that table_ok_update [OF assms(3)] id table by simp
    then show ?thesis
      using assms(4,5) proc Ok id rem table
      by (auto simp: run_session_def manager_ok_def add_session_def split: if_splits)
  next
    case (Throw e)
    then show ?thesis using assms(5) proc id rem by (auto simp: run_session_def)
  next
    case (Crash f)
    then show ?thesis using assms(5) proc table by (auto simp: run_session_def)
  qed
qed

text \<open>The session that an event is for is in the table, valid and under its id.\<close>

lemma find_session_effect:
  assumes "manager_ok mgr" "find_session d evt (mgr, w) = Some (r, mgr1, wl)"
  shows "(r = Crash Null_deref \<and> mgr1 = mgr \<and> wl = w) \<or> (r = Ok None \<and> mgr1 = mgr \<and> wl = w) \<or>
    (\<exists>s i. r = Ok (Some s) \<and> any_inv s \<and> get_id s = i \<and> (ev_sid evt = Some i \<or> session_table mgr i = None) \<and>
       session_table mgr1 = (session_table mgr)(i \<mapsto> s) \<and> sessionDone mgr1 = sessionDone mgr \<and> trace wl = trace w)"
proof (cases "case ev_sid evt of Some i \<Rightarrow> get_session i mgr | None \<Rightarrow> None")
  case (Some s)
  then obtain i where "ev_sid evt = Some i" "session_table mgr i = Some s"
    by (auto simp: get_session_def split: option.splits)
  then show ?thesis using assms Some
    by (auto simp: find_session_def manager_ok_def table_ok_def fun_upd_idem)
next
  case None
  then have "dispatcher_create_session d evt (mgr, w) = Some (r, mgr1, wl)"
    using assms(2) by (simp add: find_session_def)
  then show ?thesis
    by (auto simp: dispatcher_create_session_def create_ni_session_def create_nf_session_def create_nr_session_def
        add_session_def new_sessions_ok Let_def deref_def dest: create_unique_id_Some
        split: if_splits option.splits prod.splits)
qed

lemma process_found_effect:
  assumes "manager_ok mgr" "find_session d evt (mgr, w) = Some (fr, mgr1, wl)"
    "call (fr, mgr1, wl) (process_found d evt) = (r, mgr', w')"
  shows "(session_table mgr' = session_table mgr \<or> (\<exists>i x. (ev_sid evt = Some i \<or> session_table mgr i = None) \<and>
      session_table mgr' = (session_table mgr)(i := x))) \<and>
    (\<forall>e. r \<noteq> Throw e) \<and> (r = Ok () \<longrightarrow> manager_ok mgr')"
proof -
  consider (same) "mgr1 = mgr" "fr = Crash Null_deref \<or> fr = Ok None"
    | (found) s i where "fr = Ok (Some s)" "any_inv s" "get_id s = i" "ev_sid evt = Some i \<or> session_table mgr i = None"
      "session_table mgr1 = (session_table mgr)(i \<mapsto> s)" "sessionDone mgr1 = sessionDone mgr"
    using find_session_effect [OF assms(1,2)] by blast
  then show ?thesis
  proof cases
    case same
    then show ?thesis using assms by (auto simp: process_found_def)
  next
    case s: (found s i)
    have "table_ok ((session_table mgr1)(i := None))" "length (sessionDone mgr1) \<le> DONE_SESSION_LIST_SIZE"
      using assms(1) s(5,6) by (simp_all add: manager_ok_def table_ok_drop)
    moreover have "run_session d evt s (mgr1, wl) = (r, mgr', w')" using assms(3) s(1) by (simp add: process_found_def)
    ultimately have "(\<forall>j. j \<noteq> i \<longrightarrow> session_table mgr' j = session_table mgr1 j) \<and> (\<forall>e. r \<noteq> Throw e) \<and>
        (r = Ok () \<longrightarrow> manager_ok mgr')"
      using run_session_effect [OF s(2,3)] by blast
    moreover from this have "session_table mgr' = (session_table mgr)(i := session_table mgr' i)"
      using s(5) by (auto simp: fun_eq_iff)
    ultimately show ?thesis using s(4) by blast
  qed
qed

lemma dispatcher_process_cases:
  assumes "dispatcher_process d evt (mgr, w) = Some (r, mgr', w')"
  obtains (stopped) f where "r = Crash f" "f = Assert_failed \<or> f = Null_deref" "mgr' = mgr"
    | (answered) "r = Ok ()" "mgr' = mgr"
    | (found) fr mgr1 wl where "find_session d evt (mgr, w) = Some (fr, mgr1, wl)"
        "call (fr, mgr1, wl) (process_found d evt) = (r, mgr', w')"
  using assms
  by (auto simp: dispatcher_process_def send_receive_answer_def split: if_splits option.splits deref_splits)

lemma dispatcher_process_effect:
  assumes "manager_ok mgr" "dispatcher_process d evt (mgr, w) = Some (r, mgr', w')"
  shows "(session_table mgr' = session_table mgr \<or> (\<exists>i x. (ev_sid evt = Some i \<or> session_table mgr i = None) \<and>
      session_table mgr' = (session_table mgr)(i := x))) \<and>
    (\<forall>e. r \<noteq> Throw e) \<and> (r = Ok () \<longrightarrow> manager_ok mgr')"
  using assms(2)
proof (cases rule: dispatcher_process_cases)
  case (found fr mgr1 wl)
  then show ?thesis by (rule process_found_effect [OF assms(1)])
qed (use assms(1) in auto)

text \<open>
  C2: processing one event keeps the session table valid: every session is stored under its own id, in
  a valid state, and no session in its final state is left in the table. No exception of a session leaves
  the dispatcher, and no session other than the one the event is for is touched.
\<close>

theorem dispatcher_keeps_table:
  assumes "manager_ok mgr" "dispatcher_process d evt (mgr, w) = Some (r, mgr', w')"
  shows "(\<forall>e. r \<noteq> Throw e) \<and> (r = Ok () \<longrightarrow> manager_ok mgr') \<and>
    (\<forall>i s. session_table mgr i = Some s \<and> ev_sid evt \<noteq> Some i \<longrightarrow> session_table mgr' i = Some s)"
  using dispatcher_process_effect [OF assms] by (auto split: if_splits)

lemma dispatch_all_effect:
  "manager_ok mgr \<Longrightarrow> dispatch_all d evts (mgr, w) = Some (r, mgr', w') \<Longrightarrow>
   (\<forall>e. r \<noteq> Throw e) \<and> (r = Ok () \<longrightarrow> manager_ok mgr')"
proof (induction evts arbitrary: mgr w)
  case (Cons evt evts)
  then obtain r1 mgr1 wl where step: "dispatcher_process d evt (mgr, w) = Some (r1, mgr1, wl)"
    by (auto split: option.splits)
  from dispatcher_process_effect [OF Cons.prems(1) this] Cons.IH [of mgr1 wl] Cons.prems(2) step
  show ?case by (cases r1) auto
qed auto

text \<open>
  From the empty table any sequence of events that is processed to its end leaves a valid table; a
  sequence ends early only with an abnormal stop of the process, never with an exception.
\<close>

theorem dispatch_all_keeps_table:
  assumes "dispatch_all d evts (empty_manager, w) = Some (r, mgr', w')"
  shows "(\<forall>e. r \<noteq> Throw e) \<and> (r = Ok () \<longrightarrow> manager_ok mgr')"
  using dispatch_all_effect [OF manager_ok_empty assms] .

text \<open>
  A message that could not be parsed is answered with exactly one protocol error response, back along
  its route; no session is created, changed or removed.
\<close>

theorem invalid_message_answered:
  assumes "is_invalid_anslp_msg evt" "msg_of evt = Some m" "ev_sid evt \<noteq> None"
  shows "\<exists>w' m' r. dispatcher_process d evt (mgr, w) = Some (Ok (), mgr, w') \<and> trace w' = trace w @ [Send_message m'] \<and>
    sid m' = sid m \<and> routing_info m' = invertDirection (plat d) (routing_info m) \<and>
    msg m' = Some r \<and> msg_class r = Anslp_response \<and> find_information_code r = Some (3, 0, 0) \<and> \<not> is_success r"
proof -
  have "msg m = None" "routing_state_check_of evt = None"
    using assms(1,2) by (auto simp: event_pred_defs split: event_data.splits)
  then show ?thesis
    using assms by (simp add: dispatcher_process_def send_message_def create_response_def new_ntlp_msg_def Let_def
        is_success_def)
qed

text \<open>
  An event for a session that is not in the table, and that is neither a CREATE nor a request for a new
  session, is dropped: nothing is sent and the table does not change.
\<close>

theorem unknown_session_dropped:
  assumes "ev_sid evt = Some i" "session_table mgr i = None"
    and "\<not> is_api_create evt" "\<not> is_anslp_create evt" "\<not> is_routing_state_check evt" "\<not> is_invalid_anslp_msg evt"
  shows "dispatcher_process d evt (mgr, w) = Some (Ok (), mgr, w)"
  using assms
  by (simp add: dispatcher_process_def is_routing_state_check_def find_session_def get_session_def
      dispatcher_create_session_def process_found_def)

end
