(* ===== verification/Faults.thy ===== *)
theory Faults
  imports Dispatcher
begin

text \<open>
  Which abnormal stops a single thread can reach through the dispatcher: running off the end of the
  forwarder's closed state and the double deletion in the receiver it cannot, because the dispatcher gives
  a session in its closed state to the handler only right after its creation, with the CREATE it was created for.
\<close>

definition reachable_fault :: "fault \<Rightarrow> bool" where
  "reachable_fault f = (f \<in> {Assert_failed, Null_deref, Iterator_past_begin})"

lemma reachable_faults [simp]:
  "reachable_fault Assert_failed" "reachable_fault Null_deref" "reachable_fault Iterator_past_begin"
  "\<not> reachable_fault Missing_return" "\<not> reachable_fault Double_free" "\<not> reachable_fault Unexpected_exception"
  by (simp_all add: reachable_fault_def)

abbreviation sound_stop :: "(exn, 'a) outcome \<times> 's \<Rightarrow> bool" where
  "sound_stop \<equiv> post (\<lambda>_ _. True) (\<lambda>_ _. True) (\<lambda>f _. reachable_fault f)"

lemma ni_close_stop: "sound_stop (ni_handle_state_close d evt (s, w))"
  by (simp add: ni_handle_state_close_def ni_setup_session_def wp Let_def)

lemma ni_pending_stop: "sound_stop (ni_handle_state_pending d evt (s, w))"
  unfolding ni_handle_state_pending_def ni_response_timeout_pending_def ni_response_pending_def ni_send_teardown_def
  by (simp add: wp Let_def) (intro conjI impI allI wp_intro; simp)

lemma ni_installing_stop: "sound_stop (ni_handle_state_pending_installing d evt (s, w))"
  unfolding ni_handle_state_pending_installing_def ni_response_timeout_installing_def
    ni_remove_install_rule_def ni_api_install_def ni_send_teardown_def
  by (simp add: wp Let_def) (intro conjI impI allI wp_intro; simp add: wp)

lemma ni_begin_teardown_stop [wp_intro]: "sound_stop (ni_begin_teardown d (s, w))"
  by (auto simp: ni_begin_teardown_def wp Let_def intro!: wp_intro)

lemma ni_auctioning_stop: "sound_stop (ni_handle_state_auctioning d evt (s, w))"
  unfolding ni_handle_state_auctioning_def ni_refresh_timeout_def ni_response_timeout_auctioning_def
    ni_api_teardown_auctioning_def ni_api_bidding_def ni_response_auctioning_def
  by (simp add: wp Let_def) (intro conjI impI allI wp_intro; simp)

lemma ni_teardown_stop: "sound_stop (ni_handle_state_pending_teardown d evt (s, w))"
  unfolding ni_handle_state_pending_teardown_def ni_response_timeout_teardown_def ni_api_bidding_def
  by (simp add: wp Let_def) (intro conjI impI allI wp_intro; simp)

lemma nf_process_state_close_stop [wp_intro]: "sound_stop (nf_process_state_close d m c (s, w))"
  unfolding post_nf_process_state_close nf_process_create_def nf_set_auction_rule_def
  by (simp add: wp Let_def) (intro conjI impI allI wp_intro; simp add: wp wrong_conf_message_def)

lemma nf_close_stop: "msg_with Anslp_create evt \<noteq> None \<Longrightarrow> sound_stop (nf_handle_state_close d evt (s, w))"
  unfolding nf_handle_state_close_def
  by (simp add: wp Let_def) (intro conjI impI allI wp_intro; auto simp: wp intro!: wp_intro)

lemma nf_create_again_stop [wp_intro]: "sound_stop (nf_create_again st d m c (s, w))"
  unfolding nf_create_again_def by (simp add: wp Let_def) (intro conjI impI allI wp_intro; simp)

lemma nf_not_reached_stop [wp_intro]: "sound_stop (nf_not_reached d (s, w))"
  by (simp add: nf_not_reached_def wp)

lemma nf_pending_check_stop: "sound_stop (nf_handle_state_pending_check d evt (s, w))"
  unfolding nf_handle_state_pending_check_def nf_api_check_def
  by (simp add: wp Let_def) (intro conjI impI allI wp_intro; simp)

lemma nf_pending_stop: "rule s \<noteq> None \<Longrightarrow> sound_stop (nf_handle_state_pending d evt (s, w))"
  unfolding nf_handle_state_pending_def nf_response_pending_def
  by (simp add: wp Let_def) (intro conjI impI allI wp_intro; auto intro!: wp_intro)

lemma nf_installing_stop: "sound_stop (nf_handle_state_pending_installing d evt (s, w))"
  unfolding nf_handle_state_pending_installing_def nf_api_install_def
  by (simp add: wp Let_def split_beta) (intro conjI impI allI wp_intro; simp add: wp)

lemma nf_anslp_bidding_stop [wp_intro]: "sound_stop (nf_anslp_bidding d st m b bidding (s, w))"
  unfolding nf_anslp_bidding_def nf_create_auction_rule_def
  by (simp add: wp) (intro conjI impI allI wp_intro; simp)

lemma nf_auctioning_stop: "sound_stop (nf_handle_state_auctioning d evt (s, w))"
  unfolding nf_handle_state_auctioning_def nf_anslp_refresh_def nf_response_auctioning_def
  by (simp add: wp Let_def) (intro conjI impI allI wp_intro; simp)

lemma nf_teardown_stop: "sound_stop (nf_handle_state_pending_teardown d evt (s, w))"
  unfolding nf_handle_state_pending_teardown_def
  by (simp add: wp Let_def) (intro conjI impI allI wp_intro; simp)

lemma nr_give_up_stop [wp_intro]: "sound_stop (nr_give_up d (s, w))"
  by (simp add: nr_give_up_def wp)

lemma nr_try_setup_stop [wp_intro]: "sound_stop (nr_try_setup d m c lifetime (s, w))"
  unfolding post_nr_try_setup nr_setup_session_def nr_save_auction_rule_def
  by (simp add: wp Let_def) (intro conjI impI allI wp_intro; auto simp: wp wrong_conf_message_def)

lemma nr_close_stop: "nr_create_message s = None \<Longrightarrow> sound_stop (nr_handle_state_close d evt (s, w))"
  unfolding nr_handle_state_close_def
  by (simp add: wp Let_def) (intro conjI impI allI wp_intro; simp add: wp)

lemma nr_pending_stop: "sound_stop (nr_handle_state_pending d evt (s, w))"
  unfolding nr_handle_state_pending_def nr_timeout_pending_def nr_api_check_def nr_save_auction_rule_def
  by (simp add: wp Let_def) (intro conjI impI allI wp_intro; auto simp: wp)

lemma nr_installing_stop: "rule s \<noteq> None \<Longrightarrow> sound_stop (nr_handle_state_pending_installing d evt (s, w))"
  unfolding nr_handle_state_pending_installing_def nr_timeout_installing_def nr_api_install_def
  by (simp add: wp Let_def split_beta) (intro conjI impI allI wp_intro; auto simp: wp intro!: wp_intro)

lemma nr_auctioning_stop: "sound_stop (nr_handle_state_auctioning d evt (s, w))"
  unfolding nr_handle_state_auctioning_def nr_anslp_refresh_def nr_api_bidding_def
  by (simp add: wp Let_def) (intro conjI impI allI wp_intro; auto)

lemma nr_teardown_stop: "sound_stop (nr_handle_state_pending_teardown d evt (s, w))"
  unfolding nr_handle_state_pending_teardown_def nr_timeout_teardown_def nr_api_bidding_def
  by (simp add: wp Let_def) (intro conjI impI allI wp_intro; auto)

section \<open>Sessions given an event by the dispatcher\<close>

definition ready :: "'m event \<Rightarrow> 'm any_session \<Rightarrow> bool" where
  "ready evt x = (case x of
       Ni s \<Rightarrow> True
     | Nf s \<Rightarrow> rule s \<noteq> None \<and> (nf_state s = Nf_close \<longrightarrow> msg_with Anslp_create evt \<noteq> None)
     | Nr s \<Rightarrow> rule s \<noteq> None \<and> (nr_state s = Nr_close \<longrightarrow> nr_create_message s = None))"

lemma ni_process_stop: "sound_stop (ni_process_event d evt (s, w))"
  using ni_close_stop ni_pending_stop ni_installing_stop ni_auctioning_stop ni_teardown_stop
  by (cases "ni_state s") (simp_all add: ni_process_event_def ni_handle_def wp split_beta)

lemma nf_process_stop:
  "rule s \<noteq> None \<Longrightarrow> (nf_state s = Nf_close \<Longrightarrow> msg_with Anslp_create evt \<noteq> None) \<Longrightarrow> sound_stop (nf_process_event d evt (s, w))"
  using nf_close_stop nf_pending_check_stop nf_pending_stop nf_installing_stop nf_auctioning_stop nf_teardown_stop
  by (cases "nf_state s") (simp_all add: nf_process_event_def nf_handle_def wp split_beta)

lemma nr_process_stop:
  "rule s \<noteq> None \<Longrightarrow> (nr_state s = Nr_close \<Longrightarrow> nr_create_message s = None) \<Longrightarrow> sound_stop (nr_process_event d evt (s, w))"
  using nr_close_stop nr_pending_stop nr_installing_stop nr_auctioning_stop nr_teardown_stop
  by (cases "nr_state s") (simp_all add: nr_process_event_def nr_handle_def wp split_beta)

lemma process_stop: "ready evt x \<Longrightarrow> process d evt (x, w) = (Crash f, x', w') \<Longrightarrow> reachable_fault f"
proof (cases x)
  case (Ni s)
  then show ?thesis if "process d evt (x, w) = (Crash f, x', w')"
    using that ni_process_stop [of d evt s w] by (auto simp: process_def split: prod.splits)
next
  case (Nf s)
  then show ?thesis if "ready evt x" "process d evt (x, w) = (Crash f, x', w')"
    using that nf_process_stop [of s evt d w] by (auto simp: ready_def process_def split: prod.splits)
next
  case (Nr s)
  then show ?thesis if "ready evt x" "process d evt (x, w) = (Crash f, x', w')"
    using that nr_process_stop [of s d evt w] by (auto simp: ready_def process_def split: prod.splits)
qed

lemma find_session_ready:
  assumes "manager_ok mgr" "find_session d evt (mgr, w) = Some (Ok (Some x), mgr1, wl)"
  shows "ready evt x"
proof (cases "case ev_sid evt of Some i \<Rightarrow> get_session i mgr | None \<Rightarrow> None")
  case (Some s)
  then have "\<not> is_final s" "any_inv s" "x = s" using assms
    by (auto simp: find_session_def get_session_def manager_ok_def table_ok_def split: option.splits)
  then show ?thesis
    by (auto simp: ready_def any_inv_def nf_inv_def nr_inv_def is_final_def nf_is_final_def nr_is_final_def split: any_session.splits)
next
  case None
  then have "dispatcher_create_session d evt (mgr, w) = Some (Ok (Some x), mgr1, wl)"
    using assms(2) by (simp add: find_session_def)
  then show ?thesis
    by (auto simp: dispatcher_create_session_def create_ni_session_def create_nf_session_def create_nr_session_def
        new_nr_session_def new_nf_session_def ready_def deref_def Let_def is_anslp_create_def body_of_def msg_with_def
        split: if_splits option.splits prod.splits)
qed

lemma process_faults:
  assumes "manager_ok mgr" "dispatcher_process d evt (mgr, w) = Some (Crash f, mgr', w')"
  shows "f \<in> {Assert_failed, Null_deref, Iterator_past_begin}"
proof -
  have "reachable_fault f"
    using assms(2)
  proof (cases rule: dispatcher_process_cases)
    case (found fr mgr1 wl)
    consider "fr = Crash Null_deref" | "fr = Ok None" | x where "fr = Ok (Some x)"
      using find_session_effect [OF assms(1) found(1)] by blast
    then show ?thesis
    proof cases
      case (3 x)
      then have "ready evt x" using find_session_ready [OF assms(1)] found(1) by simp
      moreover obtain x' w2 where "process d evt (x, wl) = (Crash f, x', w2)"
        using found(2) 3
        by (auto simp: process_found_def run_session_def remove_session_def deref_def Let_def add_session_def split: prod.splits
            outcome.splits if_splits option.splits)
      ultimately show ?thesis by (rule process_stop)
    qed (use found(2) in \<open>auto simp: process_found_def\<close>)
  qed auto
  then show ?thesis by (simp add: reachable_fault_def)
qed

text \<open>
  C35: a dispatcher that is given events one after the other, whatever the configuration, the valid table it starts from and
  the events, can be stopped by its own code and that of the sessions only through a failed assertion, a null pointer or
  the iterator that leaves the map. The missing return of the forwarder and the double deletion of the receiver's CREATE
  message, which only a closed session could show, are not reached that way. The statement is about one thread: a second
  one that is in the dispatcher at the same time can reach the missing return. It does not count what
  stops the mapper when a recorded message is carried out (\<open>Send_Path\<close>).
\<close>

theorem dispatcher_faults:
  assumes "manager_ok mgr" "dispatch_all d evts (mgr, w) = Some (Crash f, mgr', w')"
  shows "f \<in> {Assert_failed, Null_deref, Iterator_past_begin}"
  using assms
proof (induction evts arbitrary: mgr w)
  case (Cons evt evts)
  then obtain r1 mgr1 wl where step: "dispatcher_process d evt (mgr, w) = Some (r1, mgr1, wl)"
    by (auto split: option.splits)
  show ?case
  proof (cases r1)
    case (Ok u)
    then have "manager_ok mgr1" using dispatcher_process_effect [OF Cons.prems(1) step] by simp
    then show ?thesis using Cons.IH Cons.prems(2) step Ok by simp
  next
    case (Crash g)
    then show ?thesis using process_faults [OF Cons.prems(1)] step Cons.prems(2) by auto
  qed (use step Cons.prems(2) in auto)
qed simp

end
