(* ===== verification/Examples.thy ===== *)
theory Examples
  imports Faults Ni_Properties Nf_Properties Nr_Properties
begin

text \<open>
  The properties of the development at concrete inputs: the node of \<open>Example_Node\<close> with one session of
  each kind, in any of its states.
\<close>

abbreviation ex_route :: mri where
  "ex_route \<equiv> Mri_pathcoupled ex_mri"

definition ex_ni :: "ni_state \<Rightarrow> nat ni_session" where
  "ex_ni st = (new_ni_session ex_id default_config 7 0)\<lparr>ni_state := st, ni_mri := Some ex_route,
     ni_last_create_msg := Some (ex_msg ex_route (ex_create 30 8 sme_first)), ni_response_timer := 1,
     ni_last_auction_install_rule := Some new_auction_rule\<rparr>"

definition ex_nf :: "nf_state \<Rightarrow> nat nf_session" where
  "ex_nf st = (new_nf_session ex_id 7 0)\<lparr>nf_state := st, nf_nr_mri := Some ex_mri, nf_max_lifetime := 60, msn := 8,
     nf_create_message := Some (ex_msg ex_route (ex_create 30 8 sme_first))\<rparr>"

definition ex_nr :: "nr_state \<Rightarrow> nat nr_session" where
  "ex_nr st = (new_nr_session ex_id default_config 7 0)\<lparr>nr_state := st, nr_mri := Some ex_route, msn := 8,
     nr_create_message := Some (ex_msg ex_route (ex_create 30 8 sme_first))\<rparr>"

lemmas ex_facts = ex_create_facts ex_refresh_facts default_config_def ex_uuid_ok ex_uuid_order

lemma ex_cast [simp]: "cast_msg c (ex_msg r b) = (if msg_class b = c then Some b else None)"
  by (simp add: cast_msg_def)

lemma ex_getters [simp]:
  "get_session_lifetime (ex_create lt n sme) = lt" "get_msg_sequence_number (ex_create lt n sme) = n"
  "get_selection_auctioning_entities (ex_create lt n sme) = sme" "get_message_hop_count (ex_create lt n sme) = 20"
  "get_session_lifetime (ex_refresh lt n) = lt" "get_msg_sequence_number (ex_refresh lt n) = n"
  "has_msg_sequence_number (ex_create lt n sme)" "has_msg_sequence_number (ex_refresh lt n)"
  using ex_create_facts [of lt n sme] ex_refresh_facts [of lt n] by (simp_all add: getter_defs)

definition ex_pair :: "nat object_list" where
  "ex_pair = [([], new_anslp_ipap_message 5), ([0], new_anslp_ipap_message 6)]"

lemma ex_objects: "wf_object_list ex_plat [([], new_anslp_ipap_message (5 :: nat))]"
  "wf_object_list ex_plat ex_pair" "length ex_pair = 2"
  by (simp_all add: wf_object_list_def is_mspec_def ex_uuid_lt map_ordered_def ex_pair_def)

lemma ex_ni_inv: "ni_inv (ex_ni st)"
  by (simp add: ni_inv_def ex_ni_def new_ni_session_def ex_facts)

lemma ex_nf_inv: "st \<noteq> Nf_pending_installing \<Longrightarrow> nf_inv (ex_nf st)"
  by (simp add: nf_inv_def ex_nf_def new_nf_session_def ex_facts)

lemma ex_nr_inv: "nr_inv (ex_nr st)"
  by (simp add: nr_inv_def ex_nr_def new_nr_session_def ex_facts)

section \<open>Data\<close>

theorem prune_requests_behaviour_witness:
  "\<exists>l'. prune_requests ex_plat [] 2 ex_pair = Some l' \<and> length l' = 1"
  using prune_requests_behaviour [OF ex_uuid_order, of ex_pair "[]"] ex_objects(2,3)
  by (simp add: wf_object_list_def)

theorem get_mspec_objects_null_witness:
  "get_mspec_objects (set_information_code 2 1 0 (ex_create 30 8 sme_all)) = None"
proof -
  have "has_type OT_information_code (set_information_code 2 1 0 (ex_create 30 8 sme_all))"
    by code_simp
  then show ?thesis
    using get_mspec_objects_null [of "set_information_code 2 1 0 (ex_create 30 8 sme_all)"] by (simp add: ex_facts)
qed

theorem auction_rule_copy_id_witness:
  "auction_rule_copy ex_plat (new_auction_rule\<lparr>object_requests := [([], new_anslp_ipap_message (5 :: nat))]\<rparr>) =
     new_auction_rule\<lparr>object_requests := [([], new_anslp_ipap_message 5)]\<rparr>"
  using ex_objects by (intro auction_rule_copy_id [OF ex_uuid_order]) (simp add: wf_rule_def wf_object_list_def)

theorem unique_id_search_witness:
  "\<exists>i m. create_unique_id ex_plat [random_id ex_plat 0 \<mapsto> Ni (ex_ni Ni_pending)] 0 = Some (i, m) \<and> i \<noteq> random_id ex_plat 0"
proof -
  let ?t = "[random_id ex_plat 0 \<mapsto> Ni (ex_ni Ni_pending)]"
  have "?t (random_id ex_plat 1) = None" by (simp add: ex_plat_def)
  then obtain i m where "create_unique_id ex_plat ?t 0 = Some (i, m)" "?t i = None"
    using unique_id_search [of ex_plat ?t 0] by auto
  then show ?thesis by (auto split: if_splits)
qed

section \<open>Initiator\<close>

theorem ni_invariant_witness:
  "sess_id (fst (snd (ni_process_event ex_disp (ex_api_create 30) (ex_ni Ni_close, ex_world)))) = ex_id"
  using ni_invariant [of ex_id default_config 7 0 "ex_ni Ni_close" ex_disp "ex_api_create 30" ex_world]
    ex_ni_inv [of Ni_close]
  by (cases "ni_process_event ex_disp (ex_api_create 30) (ex_ni Ni_close, ex_world)" rule: call_cases)
    (auto simp: ex_ni_def new_ni_session_def)

theorem ni_api_create_witness:
  "\<exists>s' w' m c. ni_process_event ex_disp (ex_api_create 30) (ex_ni Ni_close, ex_world) = (Ok (), s', w') \<and>
     ni_state s' = Ni_pending \<and> sent w' = [m] \<and> routing_info m = ex_route \<and> msg m = Some c \<and> create_check c \<and>
     find_session_lifetime c = Some 30 \<and> find_msg_sequence_number c = Some 8 \<and>
     get_mspec_objects c = Some [new_anslp_ipap_message 5]"
proof -
  have "sent ex_world = []" by (simp add: sent_def ex_world_def map_filter_def)
  moreover have "api_mri (ex_request 30) = ex_route" by (simp add: api_mri_def ex_request_def ex_mri_def)
  ultimately show ?thesis
    using ni_api_create [of "ex_ni Ni_close" "ex_api_create 30" "ex_request 30" ex_disp ex_world] ex_objects(1)
    by (simp add: ex_ni_def new_ni_session_def ex_api_create_def ex_request_def refresh_seconds_def default_config_def
        mspec_limit_def next_msg_sequence_number_def) blast
qed

theorem ni_create_retries_witness:
  "\<exists>s' w'. ni_expire ex_disp 4 (ex_ni Ni_pending, ex_world) = (Ok (), s', w') \<and> ni_is_final s' \<and>
     sent w' = sent ex_world @ replicate 3 (ex_msg ex_route (ex_create 30 8 sme_first))"
  using ni_create_retries [OF ex_ni_inv, of Ni_pending "ex_msg ex_route (ex_create 30 8 sme_first)" 3 ex_disp ex_world]
  by (auto simp: ex_ni_def new_ni_session_def default_config_def)

theorem ni_refines_spec_witness:
  "ni_spec Ni_pending L_timer (sent_classes ex_world (snd (snd
     (ni_process_event ex_disp (timer_event ex_id 1) (ex_ni Ni_pending, ex_world))))) Ni_pending"
proof -
  let ?m = "ex_msg ex_route (ex_create 30 8 sme_first)"
  have "ni_process_event ex_disp (timer_event ex_id 1) (ex_ni Ni_pending, ex_world) =
      (Ok (), ni_resent ex_disp ?m (ex_ni Ni_pending, ex_world))"
    using ni_timeout_resend [of "ex_ni Ni_pending" ?m ex_disp ex_id ex_world]
    by (simp add: ex_ni_def new_ni_session_def default_config_def)
  moreover obtain s' w' where "ni_resent ex_disp ?m (ex_ni Ni_pending, ex_world) = (s', w')" by fastforce
  moreover from this have "ni_state s' = Ni_pending" by (auto simp: ni_resent_def)
  ultimately show ?thesis
    using ni_refines_spec [OF ex_ni_inv, of ex_disp "timer_event ex_id 1" Ni_pending ex_world s' w']
    by (simp add: ex_ni_def timer_event_def label_of_def)
qed

definition ex_response :: "u32 \<Rightarrow> u32 \<Rightarrow> nat anslp_msg" where
  "ex_response lt n = set_session_lifetime lt (set_msg_sequence_number n (set_information_code 2 1 0 new_anslp_response))"

lemma ex_response_facts [simp]:
  "wf_msg (ex_response lt n)" "msg_class (ex_response lt n) = Anslp_response" "get_mspec_objects (ex_response lt n) = Some []"
  "mspec_count (ex_response lt n) = 0" "find_session_lifetime (ex_response lt n) = Some lt"
  "find_msg_sequence_number (ex_response lt n) = Some n" "find_information_code (ex_response lt n) = Some (2, 1, 0)"
  by (simp_all add: ex_response_def)

theorem ni_response_accepted_witness:
  "(\<exists>s' w'. ni_process_event ex_disp (ex_event (ex_msg ex_route (ex_response 20 8))) (ex_ni Ni_pending, ex_world) =
      (Throw wrong_conf_message, s', w') \<and> install_queue w' = []) \<and>
   (\<exists>s' w'. ni_process_event (ex_disp\<lparr>conf := default_config\<lparr>is_auctioneer := True\<rparr>\<rparr>) (ex_event (ex_msg ex_route (ex_response 20 8)))
      (ex_ni Ni_pending, ex_world) = (Ok (), s', w') \<and> ni_state s' = Ni_pending_installing \<and> ni_lifetime s' = 20 \<and>
      length (install_queue w') = 1)"
proof -
  let ?d = "ex_disp\<lparr>conf := default_config\<lparr>is_auctioneer := True\<rparr>\<rparr>"
  let ?r = "\<lambda>d :: nat dispatcher. fst (install_rule_of d [] ex_world)"
  have "\<not> put_taken ex_disp (session_id_to_string ex_id) (?r ex_disp) ex_world" "put_taken ?d (session_id_to_string ex_id) (?r ?d) ex_world"
    by (simp_all add: put_taken_def queue_takes_def default_config_def ex_node_def ex_plat_def ex_world_def)
  moreover have "sess_id (ex_ni Ni_pending) = ex_id" by (simp add: ex_ni_def new_ni_session_def)
  moreover have "length q' = Suc (length q)" if "enqueue_element ex_plat q e = Some q'" for q e q'
    using that by (auto simp: ex_plat_def)
  ultimately show ?thesis
    using ni_response_accepted [OF ex_ni_inv, of Ni_pending "ex_msg ex_route (ex_create 30 8 sme_first)"
        "ex_event (ex_msg ex_route (ex_response 20 8))" "ex_response 20 8" "[]" "session_id_to_string ex_id" "?r ex_disp" ex_disp ex_world]
      ni_response_accepted [OF ex_ni_inv, of Ni_pending "ex_msg ex_route (ex_create 30 8 sme_first)"
        "ex_event (ex_msg ex_route (ex_response 20 8))" "ex_response 20 8" "[]" "session_id_to_string ex_id" "?r ?d" ?d ex_world]
    by (auto simp: ex_ni_def is_anslp_response_def is_anslp_response_msn_def getter_defs is_success_def ex_facts ex_world_def)
qed

theorem ni_abort_leaves_rules_witness:
  "\<exists>s' w'. ni_process_event ex_disp \<lparr>ev_sid = Some ex_id, ev_data = Api_teardown_event\<rparr>
       (ex_ni Ni_pending_installing, ex_world) = (Ok (), s', w') \<and> ni_is_final s' \<and> install_queue w' = []"
  using ni_abort_leaves_rules [OF ex_ni_inv, of Ni_pending_installing "\<lparr>ev_sid = Some ex_id, ev_data = Api_teardown_event\<rparr>"
      ex_disp ex_world]
  by (auto simp: ex_ni_def is_api_teardown_def ex_world_def)

section \<open>Forwarder\<close>

theorem nf_invariant_witness:
  "sess_id (fst (snd (nf_process_event ex_disp (ex_api_create 30) (ex_nf Nf_auctioning, ex_world)))) = ex_id"
  using nf_invariant [of ex_id 7 0 "ex_nf Nf_auctioning" ex_disp "ex_api_create 30" ex_world]
    ex_nf_inv [of Nf_auctioning]
  by (cases "nf_process_event ex_disp (ex_api_create 30) (ex_nf Nf_auctioning, ex_world)" rule: call_cases)
    (auto simp: ex_nf_def new_nf_session_def)

theorem nf_forwards_create_witness:
  "\<exists>s' w' m' c'. nf_process_event ex_disp (ex_event (ex_msg ex_route (ex_create 90 8 sme_first)))
       (ex_nf Nf_close, ex_world) = (Ok (), s', w') \<and> nf_state s' = Nf_pending \<and>
     sent w' = sent ex_world @ [m'] \<and> msg m' = Some c' \<and> find_session_lifetime c' = Some 60 \<and>
     get_mspec_objects c' = Some [new_anslp_ipap_message 5]"
proof -
  let ?c = "ex_create 90 8 sme_first"
  have "nf_state (ex_nf Nf_close) = Nf_close" by (simp add: ex_nf_def)
  moreover have "msg_with Anslp_create (ex_event (ex_msg ex_route ?c)) = Some (ex_msg ex_route ?c, ?c)"
    "wf_msg ?c" "get_mspec_objects ?c = Some [new_anslp_ipap_message 5]" by (simp_all add: ex_facts)
  moreover have "\<not> check_participating St_forwarder (get_selection_auctioning_entities ?c)"
    by (simp add: check_participating_def sme_defs)
  moreover have "60 = min (get_session_lifetime ?c) (nf_max_session_lifetime (conf ex_disp))"
    by (simp add: default_config_def)
  ultimately show ?thesis
    using nf_forwards_create [OF ex_nf_inv, of Nf_close "ex_event (ex_msg ex_route ?c)" "ex_msg ex_route ?c" ?c
        ex_mri "[new_anslp_ipap_message 5]" 60 ex_disp ex_world]
    by (auto simp: ex_mri_def mspec_limit_def)
qed

theorem nf_refuses_routing_witness:
  "\<exists>s' w' m' r. nf_process_event ex_disp (ex_event (ex_msg (Mri_other 0) (ex_create 30 8 sme_first)))
       (ex_nf Nf_close, ex_world) = (Ok (), s', w') \<and> nf_is_final s' \<and> sent w' = sent ex_world @ [m'] \<and>
     msg m' = Some r \<and> find_information_code r = Some (5, 9, 0) \<and> find_msg_sequence_number r = Some 8"
  using nf_refuses_routing [of "ex_nf Nf_close" "ex_event (ex_msg (Mri_other 0) (ex_create 30 8 sme_first))"
      "ex_msg (Mri_other 0) (ex_create 30 8 sme_first)" "ex_create 30 8 sme_first" ex_disp ex_world]
  by (simp add: ex_facts ex_nf_def as_pathcoupled_def) blast

theorem nf_close_crash_exactly_witness:
  "crashed (fst (nf_process_event ex_disp (ex_event (ex_msg ex_route (ex_refresh 30 8))) (ex_nf Nf_close, ex_world))) \<and>
   \<not> crashed (fst (nf_process_event ex_disp (ex_event (ex_msg ex_route (ex_create 30 8 sme_all))) (ex_nf Nf_close, ex_world)))"
proof -
  have "nf_state (ex_nf Nf_close) = Nf_close" by (simp add: ex_nf_def)
  then show ?thesis
    using nf_close_crash_exactly [OF ex_nf_inv, of Nf_close ex_disp "ex_event (ex_msg ex_route (ex_refresh 30 8))" ex_world]
      nf_close_crash_exactly [OF ex_nf_inv, of Nf_close ex_disp "ex_event (ex_msg ex_route (ex_create 30 8 sme_all))" ex_world]
    by (simp add: ex_facts ex_mri_def)
qed

theorem nf_replayed_refresh_witness:
  "nf_process_event ex_disp (ex_event (ex_msg ex_route (ex_refresh 30 8))) (ex_nf Nf_auctioning, ex_world) =
     (Ok (), ex_nf Nf_auctioning, ex_world)"
  by (rule nf_replayed_refresh [where m = "ex_msg ex_route (ex_refresh 30 8)" and c = "ex_refresh 30 8"])
    (simp_all add: ex_facts ex_nf_def is_greater_than_def)

theorem nf_forwards_refresh_witness:
  "\<exists>s' w'. nf_process_event ex_disp (ex_event (ex_msg ex_route (ex_refresh 90 9))) (ex_nf Nf_auctioning, ex_world) =
       (Ok (), s', w') \<and> nf_lifetime s' = 60 \<and> msn s' = 9"
  using nf_forwards_refresh [of "ex_nf Nf_auctioning" "ex_event (ex_msg ex_route (ex_refresh 90 9))"
      "ex_msg ex_route (ex_refresh 90 9)" "ex_refresh 90 9" ex_disp ex_world]
  by (auto simp: ex_facts ex_nf_def is_greater_than_def)

theorem nf_replacement_lifetime_witness:
  "\<exists>s' w'. nf_process_event ex_disp (ex_event (ex_msg ex_route (ex_create 90 9 sme_first)))
       (ex_nf Nf_pending, ex_world) = (Ok (), s', w') \<and> nf_lifetime s' = 90"
proof -
  let ?evt = "ex_event (ex_msg ex_route (ex_create 90 9 sme_first))"
  have "post (\<lambda>_ _. True) (\<lambda>_ _. False) (\<lambda>_ _. False) (nf_process_event ex_disp ?evt (ex_nf Nf_pending, ex_world))"
    by (simp add: nf_process_event_def nf_handle_def nf_handle_state_pending_def nf_create_again_def ex_nf_def
        new_nf_session_def post_nf_process_state_close nf_process_create_def wp Let_def nf_set_auction_rule_def
        save_auction_rule_eq split_beta as_pathcoupled_def ex_facts check_participating_def sme_defs ex_mri_def)
  then obtain s' w' where step: "nf_process_event ex_disp ?evt (ex_nf Nf_pending, ex_world) = (Ok (), s', w')"
    by (elim post_returns) auto
  have "nf_lifetime s' = get_session_lifetime (ex_create 90 9 sme_first)"
    using ex_nf_inv [of Nf_pending]
    by (intro nf_replacement_lifetime [where previous = "ex_create 30 8 sme_first" and c = "ex_create 90 9 sme_first"
          and m = "ex_msg ex_route (ex_create 90 9 sme_first)" and latest = "ex_msg ex_route (ex_create 30 8 sme_first)",
        OF _ _ _ _ _ _ _ step])
      (simp_all add: ex_facts ex_nf_def)
  with step show ?thesis by simp
qed

theorem nf_refines_spec_witness:
  "nf_spec Nf_auctioning (L_msg Anslp_refresh) [] Nf_auctioning"
proof -
  let ?evt = "ex_event (ex_msg ex_route (ex_refresh 30 8))"
  have "nf_process_event ex_disp ?evt (ex_nf Nf_auctioning, ex_world) = (Ok (), ex_nf Nf_auctioning, ex_world)"
    by (simp add: nf_process_event_def nf_handle_def nf_handle_state_auctioning_def nf_anslp_refresh_def Let_def
        ex_facts ex_nf_def is_greater_than_def)
  from nf_refines_spec [OF ex_nf_inv this]
  show ?thesis by (simp add: ex_nf_def ex_event_def ex_msg_def new_ntlp_msg_def label_of_def ex_facts sent_classes_def)
qed

definition ex_one :: "nat object_list" where
  "ex_one = [([], new_anslp_ipap_message 5)]"

lemma ex_one_facts: "wf_object_list ex_plat ex_one" "length ex_one = 1" "map snd ex_one = [new_anslp_ipap_message 5]"
  using ex_objects(1) by (simp_all add: ex_one_def)

definition ex_requested :: "nat auction_rule" where
  "ex_requested = new_auction_rule\<lparr>object_requests := ex_one\<rparr>"

definition ex_install :: "nat event" where
  "ex_install = \<lparr>ev_sid = Some ex_id, ev_data = Api_install_event ex_one\<rparr>"

theorem nf_install_answer_witness:
  "\<exists>s' w' m' c. nf_process_event ex_disp ex_install ((ex_nf Nf_pending_installing)\<lparr>rule := Some ex_requested,
       nf_response_message := Some (ex_msg ex_route (ex_response 30 8))\<rparr>, ex_world) = (Ok (), s', w') \<and>
     nf_state s' = Nf_auctioning \<and> sent w' = sent ex_world @ [m'] \<and> msg m' = Some c \<and>
     find_session_lifetime c = Some 30 \<and> get_mspec_objects c = Some [new_anslp_ipap_message 5]"
proof -
  let ?s = "(ex_nf Nf_pending_installing)\<lparr>rule := Some ex_requested,
    nf_response_message := Some (ex_msg ex_route (ex_response 30 8))\<rparr>"
  have "nf_state ?s = Nf_pending_installing" "rule ?s = Some ex_requested"
    "nf_response_message ?s = Some (ex_msg ex_route (ex_response 30 8))" by (simp_all add: ex_nf_def)
  moreover have "object_responses ex_requested = []" "length (object_requests ex_requested) = length ex_one"
    by (simp_all add: ex_requested_def)
  moreover have "ev_data ex_install = Api_install_event ex_one" by (simp add: ex_install_def)
  ultimately obtain s' w' m' c new where "nf_process_event ex_disp ex_install (?s, ex_world) = (Ok (), s', w')"
    "nf_state s' = Nf_auctioning" "sent w' = sent ex_world @ [m']" "msg m' = Some c"
    "find_session_lifetime c = Some 30" "get_mspec_objects c = Some ([] @ new)" "mset new = mset (map snd ex_one)"
    using nf_install_answer [of ?s "ex_msg ex_route (ex_response 30 8)" "ex_response 30 8" "[]" ex_one ex_requested
        ex_install ex_disp ex_world] ex_one_facts ex_uuid_ok by (auto simp: mspec_limit_def)
  moreover from this(7) have "new = [new_anslp_ipap_message 5]" by (simp add: ex_one_facts)
  ultimately show ?thesis by auto
qed

section \<open>Receiver\<close>

theorem nr_invariant_witness:
  "sess_id (fst (snd (nr_process_event ex_disp (ex_api_create 30) (ex_nr Nr_auctioning, ex_world)))) = ex_id"
  using nr_invariant [of ex_id default_config 7 0 "ex_nr Nr_auctioning" ex_disp "ex_api_create 30" ex_world]
    ex_nr_inv [of Nr_auctioning]
  by (cases "nr_process_event ex_disp (ex_api_create 30) (ex_nr Nr_auctioning, ex_world)" rule: call_cases)
    (auto simp: ex_nr_def new_nr_session_def)

theorem nr_answers_create_witness:
  "\<exists>s' w' m' r. nr_process_event ex_disp (ex_event (ex_msg ex_route (ex_create 90 8 sme_first)))
       (new_nr_session ex_id default_config 7 0, ex_world) = (Ok (), s', w') \<and> nr_state s' = Nr_auctioning \<and>
     sent w' = sent ex_world @ [m'] \<and> msg m' = Some r \<and> is_success r \<and> find_session_lifetime r = Some 60"
proof -
  let ?c = "ex_create 90 8 sme_first" and ?s = "new_nr_session ex_id default_config 7 0 :: nat nr_session"
  have "nr_state ?s = Nr_close" "nr_create_message ?s = None" "nr_max_lifetime ?s = 60"
    by (simp_all add: new_nr_session_def default_config_def)
  moreover have "msg_with Anslp_create (ex_event (ex_msg ex_route ?c)) = Some (ex_msg ex_route ?c, ?c)"
    "get_mspec_objects ?c \<noteq> None" by (simp_all add: ex_facts)
  moreover have "\<not> check_participating St_receiver (get_selection_auctioning_entities ?c)"
    by (simp add: check_participating_def sme_defs)
  ultimately show ?thesis
    using nr_answers_create [OF nr_inv_new, of ex_id default_config 7 0 "ex_event (ex_msg ex_route ?c)" "ex_msg ex_route ?c"
        ?c ex_mri 60 ex_disp ex_world]
    by auto
qed

theorem nr_routing_error_escapes_witness:
  "\<exists>s'. nr_process_event ex_disp (ex_event (ex_msg (Mri_other 0) (ex_create 30 8 sme_first)))
     (new_nr_session ex_id default_config 7 0, ex_world) = (Throw (Request_error 5 9), s', ex_world)"
  by (rule nr_routing_error_escapes [where m = "ex_msg (Mri_other 0) (ex_create 30 8 sme_first)"
        and c = "ex_create 30 8 sme_first"])
    (simp_all add: new_nr_session_def ex_facts as_pathcoupled_def)

theorem nr_replayed_refresh_witness:
  "nr_process_event ex_disp (ex_event (ex_msg ex_route (ex_refresh 30 8))) (ex_nr Nr_auctioning, ex_world) =
     (Ok (), ex_nr Nr_auctioning, ex_world)"
  by (rule nr_replayed_refresh [where m = "ex_msg ex_route (ex_refresh 30 8)" and c = "ex_refresh 30 8"])
    (simp_all add: ex_facts ex_nr_def is_greater_than_def)

theorem nr_answers_refresh_witness:
  "(\<exists>s' w' m' resp. nr_process_event ex_disp (ex_event (ex_msg ex_route (ex_refresh 0 9))) (ex_nr Nr_auctioning, ex_world) =
       (Ok (), s', w') \<and> sent w' = sent ex_world @ [m'] \<and> msg m' = Some resp \<and> is_success resp \<and> nr_is_final s') \<and>
   (\<exists>s' w' m' resp. nr_process_event ex_disp (ex_event (ex_msg ex_route (ex_refresh 0 9)))
       ((ex_nr Nr_auctioning)\<lparr>rule := Some (new_auction_rule\<lparr>object_responses := ex_one\<rparr>)\<rparr>, ex_world) = (Ok (), s', w') \<and>
       sent w' = sent ex_world @ [m'] \<and> msg m' = Some resp \<and> is_success resp \<and> nr_state s' = Nr_pending_teardown)"
proof -
  let ?r = "new_auction_rule\<lparr>object_responses := ex_one\<rparr>"
  let ?i = "session_id_to_string ex_id"
  have "removal_taken ex_disp ?i ?r ex_world"
    by (simp add: removal_taken_def queue_takes_def ex_plat_def ex_world_def)
  then show ?thesis
    using nr_answers_refresh [of "ex_nr Nr_auctioning" "ex_event (ex_msg ex_route (ex_refresh 0 9))"
        "ex_msg ex_route (ex_refresh 0 9)" "ex_refresh 0 9" new_auction_rule 0 ?i ex_disp ex_world]
      nr_answers_refresh [of "(ex_nr Nr_auctioning)\<lparr>rule := Some ?r\<rparr>" "ex_event (ex_msg ex_route (ex_refresh 0 9))"
        "ex_msg ex_route (ex_refresh 0 9)" "ex_refresh 0 9" ?r 0 ?i ex_disp ex_world]
    by (auto simp: ex_facts ex_nr_def new_nr_session_def is_greater_than_def ex_one_def)
qed

theorem nr_install_answer_witness:
  "\<exists>s' w' m' r. nr_process_event ex_disp ex_install ((ex_nr Nr_pending_installing)\<lparr>rule := Some ex_requested\<rparr>, ex_world) =
       (Ok (), s', w') \<and> nr_state s' = Nr_auctioning \<and> sent w' = sent ex_world @ [m'] \<and> msg m' = Some r \<and> is_success r"
proof -
  let ?s = "(ex_nr Nr_pending_installing)\<lparr>rule := Some ex_requested\<rparr>"
  have "nr_inv ?s" using ex_nr_inv [of Nr_pending_installing] by (auto simp: nr_inv_def)
  moreover have "nr_state ?s = Nr_pending_installing" "rule ?s = Some ex_requested"
    "nr_create_message ?s = Some (ex_msg ex_route (ex_create 30 8 sme_first))" by (simp_all add: ex_nr_def)
  moreover have "object_responses ex_requested = []" "length (object_requests ex_requested) = length ex_one"
    by (simp_all add: ex_requested_def)
  moreover have "ev_data ex_install = Api_install_event ex_one" by (simp add: ex_install_def)
  ultimately show ?thesis
    using nr_install_answer [of ?s "ex_msg ex_route (ex_create 30 8 sme_first)" "ex_create 30 8 sme_first" ex_requested ex_one
        ex_install ex_disp ex_world] ex_one_facts ex_uuid_ok by (auto simp: mspec_limit_def ex_facts)
qed

theorem nr_refines_spec_witness:
  "nr_spec Nr_auctioning (L_msg Anslp_refresh) [] Nr_auctioning"
proof -
  let ?evt = "ex_event (ex_msg ex_route (ex_refresh 30 8))"
  have "nr_process_event ex_disp ?evt (ex_nr Nr_auctioning, ex_world) = (Ok (), ex_nr Nr_auctioning, ex_world)"
    by (simp add: nr_process_event_def nr_handle_def nr_handle_state_auctioning_def nr_anslp_refresh_def Let_def
        ex_facts ex_nr_def is_greater_than_def)
  from nr_refines_spec [OF ex_nr_inv this]
  show ?thesis by (simp add: ex_nr_def ex_event_def ex_msg_def new_ntlp_msg_def label_of_def ex_facts sent_classes_def)
qed

section \<open>Dispatcher\<close>

definition ex_manager :: "nat session_manager" where
  "ex_manager = empty_manager\<lparr>session_table := [ex_id \<mapsto> Nr (ex_nr Nr_auctioning)]\<rparr>"

lemma ex_manager_ok: "manager_ok ex_manager"
  using ex_nr_inv [of Nr_auctioning]
  by (auto simp: manager_ok_def table_ok_def ex_manager_def empty_manager_def any_inv_def get_id_def is_final_def
      nr_is_final_def ex_nr_def new_nr_session_def split: if_splits)

theorem dispatcher_keeps_table_witness:
  "\<exists>r mgr' w'. dispatcher_process ex_disp (ex_api_create 30) (ex_manager, ex_world) = Some (r, mgr', w') \<and>
     (\<forall>e. r \<noteq> Throw e) \<and> session_table mgr' ex_id = Some (Nr (ex_nr Nr_auctioning))"
proof -
  have "random_id ex_plat 0 \<noteq> ex_id" by (simp add: ex_plat_def ex_id_def)
  then have "create_unique_id ex_plat (session_table ex_manager) 0 \<noteq> None"
    by (subst create_unique_id.simps) (simp add: ex_manager_def empty_manager_def)
  then have "dispatcher_process ex_disp (ex_api_create 30) (ex_manager, ex_world) \<noteq> None"
    by (auto simp: dispatcher_process_def ex_api_create_def event_pred_defs find_session_def
        dispatcher_create_session_def create_ni_session_def ex_world_def Let_def simp del: not_None_eq)
  then obtain r mgr' w' where step: "dispatcher_process ex_disp (ex_api_create 30) (ex_manager, ex_world) = Some (r, mgr', w')"
    by (auto elim!: prod_cases3)
  have "ev_sid (ex_api_create 30) = None" by (simp add: ex_api_create_def)
  then show ?thesis
    using dispatcher_keeps_table [OF ex_manager_ok step] step by (auto simp: ex_manager_def)
qed

theorem dispatch_all_keeps_table_witness:
  "\<exists>r mgr' w'. dispatch_all ex_disp [ex_event (ex_msg ex_route (ex_create 30 8 sme_first)), timer_event ex_id 0]
     (empty_manager, ex_world) = Some (r, mgr', w') \<and> (\<forall>e. r \<noteq> Throw e)"
proof -
  have timer: "dispatcher_process ex_disp (timer_event ex_id 0) mw \<noteq> None" for mw
    by (cases mw) (auto simp: dispatcher_process_def timer_event_def event_pred_defs find_session_def
        dispatcher_create_session_def split: option.splits simp del: not_None_eq)
  have "dispatch_all ex_disp [timer_event ex_id 0] mw \<noteq> None" for mw
    using timer [of mw] by (auto split: option.splits outcome.splits simp del: not_None_eq)
  moreover have "dispatcher_process ex_disp (ex_event (ex_msg ex_route (ex_create 30 8 sme_first))) (empty_manager, ex_world) \<noteq> None"
    by (auto simp: dispatcher_process_def find_session_def dispatcher_create_session_def event_pred_defs ex_event_def ex_facts
        split: option.splits simp del: not_None_eq)
  ultimately have "dispatch_all ex_disp [ex_event (ex_msg ex_route (ex_create 30 8 sme_first)), timer_event ex_id 0]
      (empty_manager, ex_world) \<noteq> None"
    by (auto simp del: dispatch_all.simps(2) not_None_eq simp add: dispatch_all.simps(2) [of _ "ex_event _"]
        split: outcome.splits option.splits)
  then obtain r mgr' w' where
    "dispatch_all ex_disp [ex_event (ex_msg ex_route (ex_create 30 8 sme_first)), timer_event ex_id 0] (empty_manager, ex_world) =
       Some (r, mgr', w')"
    by (auto elim!: prod_cases3 simp del: dispatch_all.simps)
  with dispatch_all_keeps_table [OF this] show ?thesis by auto
qed

theorem invalid_message_answered_witness:
  "\<exists>w' m' r. dispatcher_process ex_disp \<lparr>ev_sid = Some ex_id, ev_data = Msg_event ((ex_msg ex_route (ex_refresh 30 8))\<lparr>msg := None\<rparr>) True\<rparr>
      (ex_manager, ex_world) = Some (Ok (), ex_manager, w') \<and> trace w' = [Send_message m'] \<and> msg m' = Some r \<and>
      find_information_code r = Some (3, 0, 0)"
  using invalid_message_answered [of "\<lparr>ev_sid = Some ex_id, ev_data = Msg_event ((ex_msg ex_route (ex_refresh 30 8))\<lparr>msg := None\<rparr>) True\<rparr>"
      "(ex_msg ex_route (ex_refresh 30 8))\<lparr>msg := None\<rparr>" ex_disp ex_manager ex_world]
  by (auto simp: event_pred_defs ex_world_def)

theorem unknown_session_dropped_witness:
  "dispatcher_process ex_disp (ex_event (ex_msg ex_route (ex_refresh 30 8))) (empty_manager, ex_world) =
     Some (Ok (), empty_manager, ex_world)"
  by (rule unknown_session_dropped [where i = ex_id])
    (simp_all add: ex_event_def empty_manager_def event_pred_defs ex_facts)

theorem dispatcher_faults_witness:
  "\<exists>f mgr' w'. dispatch_all ex_disp [(ex_event (ex_msg ex_route (ex_refresh 30 8)))\<lparr>ev_sid := None\<rparr>] (ex_manager, ex_world) =
     Some (Crash f, mgr', w') \<and> f \<in> {Assert_failed, Null_deref, Iterator_past_begin}"
proof -
  have "dispatch_all ex_disp [(ex_event (ex_msg ex_route (ex_refresh 30 8)))\<lparr>ev_sid := None\<rparr>] (ex_manager, ex_world) =
      Some (Crash Assert_failed, ex_manager, ex_world)"
    by (simp add: dispatcher_process_def ex_event_def event_pred_defs)
  with dispatcher_faults [OF ex_manager_ok this] show ?thesis by auto
qed

end
