(* ===== verification/Send_Path.thy ===== *)
theory Send_Path
  imports Gistka_Properties
begin

text \<open>
  The way out of a node: \<open>dispatcher::send_message\<close> and \<open>dispatcher::send_receive_answer\<close>
  (\<open>src/src/dispatcher.cpp\<close>) down to the queue of GIST.

  The session code goes on after these calls without a result, so that its definitions record
  the calls in the world (\<open>Send_message\<close>, \<open>Receive_answer\<close>) and the definitions here carry them
  out. The calls can only return or stop the process: \<open>create_api_msg\<close> serialises the message and asserts
  that there was no error, and the dispatcher asserts that GIST's queue took it. Nothing happens after the
  first call that stops the process, so that carrying out the recorded calls of a step
  in their order (\<open>with_mapper\<close>) gives the outcome of the code. Whether the queue takes a message
  (\<open>APIMsg::send_to\<close>) is the argument \<open>send_to\<close>.
\<close>

datatype gist_call = Sendmessage send_msg | Recvmessageanswer sessionid mri

definition dispatcher_send_message :: "('b, 'm) wire \<Rightarrow> (gist_call \<Rightarrow> bool) \<Rightarrow> 'm ntlp_msg \<Rightarrow> (exn, unit) outcome" where
  "dispatcher_send_message L send_to m = (case create_api_msg L m of
       Crash f \<Rightarrow> Crash f
     | Throw e \<Rightarrow> Crash Unexpected_exception
     | Ok apimsg \<Rightarrow> if send_to (Sendmessage apimsg) then Ok () else Crash Assert_failed)"

definition dispatcher_receive_answer :: "(gist_call \<Rightarrow> bool) \<Rightarrow> session_id \<Rightarrow> mri \<Rightarrow> (exn, unit) outcome" where
  "dispatcher_receive_answer send_to i m =
     (if send_to (Recvmessageanswer (create_ntlp_session_id i) m) then Ok () else Crash Assert_failed)"

definition carry_out :: "('b, 'm) wire \<Rightarrow> (gist_call \<Rightarrow> bool) \<Rightarrow> 'm action \<Rightarrow> (exn, unit) outcome" where
  "carry_out L send_to a = (case a of
       Send_message m \<Rightarrow> dispatcher_send_message L send_to m
     | Receive_answer i m \<Rightarrow> dispatcher_receive_answer send_to i m
     | _ \<Rightarrow> Ok ())"

text \<open>The recorded calls in their order, up to the first that stops the process.\<close>

primrec hand_over :: "('b, 'm) wire \<Rightarrow> (gist_call \<Rightarrow> bool) \<Rightarrow> 'm action list \<Rightarrow> (exn, unit) outcome" where
  "hand_over L send_to [] = Ok ()"
| "hand_over L send_to (a # as) = (case carry_out L send_to a of
       Ok _ \<Rightarrow> hand_over L send_to as
     | Throw e \<Rightarrow> Throw e
     | Crash f \<Rightarrow> Crash f)"

definition new_actions :: "'m world \<Rightarrow> 'm world \<Rightarrow> 'm action list" where
  "new_actions w w' = drop (length (trace w)) (trace w')"

text \<open>A step that began in the world \<open>w\<close>, with its calls carried out.\<close>

definition with_mapper :: "('b, 'm) wire \<Rightarrow> (gist_call \<Rightarrow> bool) \<Rightarrow> 'm world \<Rightarrow> (exn, 'a) outcome \<times> 's \<times> 'm world
    \<Rightarrow> (exn, 'a) outcome \<times> 's \<times> 'm world" where
  "with_mapper L send_to w = (\<lambda>(r, s, w').
     case hand_over L send_to (new_actions w w') of
       Ok _ \<Rightarrow> (r, s, w')
     | Throw e \<Rightarrow> (Throw e, s, w')
     | Crash f \<Rightarrow> (Crash f, s, w'))"

section \<open>What carrying out the calls changes\<close>

lemma hand_over_not_throw: "hand_over L send_to as \<noteq> Throw e"
proof (induction as)
  case (Cons a as)
  have "carry_out L send_to a \<noteq> Throw e"
    by (cases a) (auto simp: carry_out_def dispatcher_send_message_def dispatcher_receive_answer_def split: outcome.split)
  then show ?case using Cons by (auto split: outcome.split)
qed simp

lemma hand_over_append:
  "hand_over L send_to (as @ bs) = (case hand_over L send_to as of
     Ok _ \<Rightarrow> hand_over L send_to bs | Throw e \<Rightarrow> Throw e | Crash f \<Rightarrow> Crash f)"
  by (induction as) (simp_all split: outcome.split)

lemma with_mapper_cases:
  assumes "with_mapper L send_to w (r, s, w') = (r', s', wl)"
  obtains (same) "r' = r" "s' = s" "wl = w'"
    | (stopped) f where "hand_over L send_to (new_actions w w') = Crash f" "r' = Crash f" "s' = s" "wl = w'"
  using assms hand_over_not_throw [of L send_to "new_actions w w'"]
  by (cases "hand_over L send_to (new_actions w w')") (auto simp: with_mapper_def)

lemma with_mapper_crashed:
  "crashed (fst (with_mapper L send_to w x)) \<longleftrightarrow>
     crashed (fst x) \<or> hand_over L send_to (new_actions w (snd (snd x))) \<noteq> Ok ()"
  using hand_over_not_throw [of L send_to "new_actions w (snd (snd x))"]
  by (cases "hand_over L send_to (new_actions w (snd (snd x)))") (auto simp: with_mapper_def split_beta crashed_def)

lemma with_mapper_ok:
  "hand_over L send_to (new_actions w (snd (snd x))) = Ok () \<Longrightarrow> with_mapper L send_to w x = x"
  by (simp add: with_mapper_def split_beta)

text \<open>Every call recorded after the trace \<open>tr\<close> up to \<open>tr'\<close> is carried out.\<close>

definition flows :: "('b, 'm) wire \<Rightarrow> (gist_call \<Rightarrow> bool) \<Rightarrow> 'm action list \<Rightarrow> 'm action list \<Rightarrow> bool" where
  "flows L send_to tr tr' = (\<exists>as. tr' = tr @ as \<and> hand_over L send_to as = Ok ())"

lemma flows_simps [simp]:
  "flows L send_to tr tr"
  "flows L send_to tr tr' \<Longrightarrow> hand_over L send_to as = Ok () \<Longrightarrow> flows L send_to tr (tr' @ as)"
  "flows L send_to tr [] \<longleftrightarrow> tr = []"
  by (auto simp: flows_def hand_over_append split: outcome.splits)

lemma flows_new_actions:
  "flows L send_to (trace w) (trace w') \<Longrightarrow> hand_over L send_to (new_actions w w') = Ok ()"
  by (auto simp: flows_def new_actions_def)

lemma carry_out_simps [simp]:
  "carry_out L send_to (Send_message m) = dispatcher_send_message L send_to m"
  "carry_out L send_to (Receive_answer i r) = dispatcher_receive_answer send_to i r"
  "carry_out L send_to (Start_timer i n sec) = Ok ()" "carry_out L send_to (Report_async_event t) = Ok ()"
  "carry_out L send_to (Return_event e) = Ok ()" "carry_out L send_to (Return_message i) = Ok ()"
  by (simp_all add: carry_out_def)

section \<open>The messages of the initiator on their way out\<close>

text \<open>What GIST accepts of the session code: its queue takes everything.\<close>

definition writable :: "('b, 'm) wire \<Rightarrow> 'm anslp_msg \<Rightarrow> bool" where
  "writable L b = (complete L b \<and> msg_serialized_size L b < 2 ^ 32)"

lemma writable_sent:
  assumes "netmsg_laws L R" "ie_laws L" "\<forall>a. send_to a" "msg m = Some b" "writable L b"
  shows "dispatcher_send_message L send_to m = Ok ()"
  using complete_sent [OF assms(1,2,4)] assms(3,5) by (auto simp: dispatcher_send_message_def writable_def)

definition outgoing :: "('b, 'm) wire \<Rightarrow> 'm ntlp_msg \<Rightarrow> bool" where
  "outgoing L m = (\<exists>b. msg m = Some b \<and> writable L b)"

lemma outgoing_new [simp]: "outgoing L (new_ntlp_msg i b r h) \<longleftrightarrow> writable L b"
  by (simp add: outgoing_def new_ntlp_msg_def)

lemma outgoing_sent:
  assumes "netmsg_laws L R" "ie_laws L" "\<forall>a. send_to a" "outgoing L m"
  shows "dispatcher_send_message L send_to m = Ok ()"
  using writable_sent [OF assms(1-3)] assms(4) by (auto simp: outgoing_def)

text \<open>The objects of a request that can be sent in one message.\<close>

definition sendable_list :: "('b, 'm) wire \<Rightarrow> 'm object_list \<Rightarrow> bool" where
  "sendable_list L l = (list_all (\<lambda>(k, obj). sendable L obj \<and> is_mspec obj) l \<and> length l < 2 ^ 17)"

lemma sendable_listD:
  assumes "sendable_list L l"
  shows "\<forall>obj \<in> set (map snd l). sendable L obj \<and> is_mspec obj" "map object_copy (map snd l) = map snd l"
    "map (object_copy \<circ> snd) l = map snd l" "length (map snd l) < 2 ^ 17"
proof -
  show objs: "\<forall>obj \<in> set (map snd l). sendable L obj \<and> is_mspec obj" "length (map snd l) < 2 ^ 17"
    using assms by (auto simp: sendable_list_def list_all_iff)
  then have "\<forall>obj \<in> set (map snd l). object_copy obj = obj" by (auto simp: sendable_def wf_copy)
  then show copies: "map object_copy (map snd l) = map snd l" by (simp add: map_idI)
  show "map (object_copy \<circ> snd) l = map snd l" using copies by simp
qed

lemma refresh_writable:
  fixes L :: "('b, 'm) wire"
  shows "writable L (set_msg_sequence_number n (set_session_lifetime lt new_anslp_refresh))"
proof -
  let ?m = "set_msg_sequence_number n (set_session_lifetime lt new_anslp_refresh) :: 'm anslp_msg"
  have objs: "objects ?m = [(unique_key OT_msg_sequence_number, new_msg_sequence_number n Tr_mandatory True),
      (unique_key OT_session_lifetime, new_session_lifetime lt Tr_mandatory True)]"
    by (simp add: setter_defs set_object_def new_anslp_refresh_def ie_store_set_def ie_object_key_lt_def unique_key_def)
  have new: "mspec_count (new_anslp_refresh :: 'm anslp_msg) = 0"
    by (simp add: mspec_count_def getMaxSequence_def new_anslp_refresh_def)
  have "good L ?m" by (intro good_setters) (simp_all add: new)
  then have "complete L ?m"
    by (rule good_complete) (simp_all add: new msg_check_def refresh_check_def get_num_objects_def ie_store_size_def objs
        get_object_def ie_store_get_def msg_new_instance_def wire_types_def mspec_limit_def unique_key_def ie_object_key_lt_def OT_defs)
  then show ?thesis
    by (simp add: writable_def msg_serialized_size_def objs object_serialized_size_def HEADER_LENGTH_def)
qed

text \<open>A bid needs an object: the check of the message fails without one.\<close>

lemma bidding_writable:
  fixes L :: "('b, 'm) wire"
  assumes "\<forall>obj \<in> set l. sendable L obj \<and> is_mspec obj" "length l < 2 ^ 17" "l \<noteq> []"
    and "b = set_mspec_list l (set_msg_sequence_number n new_anslp_bidding)"
  shows "writable L b"
proof -
  let ?base = "set_msg_sequence_number n new_anslp_bidding :: 'm anslp_msg"
  have base: "good L ?base" "mspec_count ?base = 0" by (intro good_setters; simp add: mspec_limit_def)+ simp
  have room: "mspec_count ?base + length l \<le> mspec_limit" using base(2) assms(2) by (simp add: mspec_limit_def)
  note g = good_set_mspec_list [OF base(1) assms(1) room, folded assms(4)]
  note wf = goodD(1) [OF conjunct1 [OF g]]
  have objs: "objects ?base = [(unique_key OT_msg_sequence_number, new_msg_sequence_number n Tr_mandatory True)]"
    by (simp add: setter_defs set_object_def new_anslp_bidding_def ie_store_set_def unique_key_def)
  have "length (objects b) \<le> 1 + length l" using length_objects(2) [of l ?base] assms(4) by (simp add: objs)
  then have size: "msg_serialized_size L b < 2 ^ 32" using good_size [OF conjunct1 [OF g]] assms(2) by simp
  have types: "get_object (unique_key t) b \<noteq> None \<longleftrightarrow> t \<in> set (wire_types Anslp_bidding)"
    if "t \<in> {OT_information_code, OT_selection_auctioning_entities, OT_message_hop_count, OT_msg_sequence_number, OT_session_lifetime}" for t
  proof -
    have "get_object (unique_key t) b = get_object (unique_key t) ?base"
      unfolding assms(4) by (rule unique_set_mspec_list [OF base(1) assms(1) room]) (use that in \<open>auto simp: unique_types_def\<close>)
    then show ?thesis using that
      by (auto simp: objs get_object_def ie_store_get_def wire_types_def unique_key_def ie_object_key_lt_def)
  qed
  have msn: "has_type OT_msg_sequence_number b"
    using types [of OT_msg_sequence_number] get_object_has_type [OF wf] by (auto simp: wire_types_def unique_types_def)
  have "1 \<le> mspec_count b" using g base(2) assms(3) by (cases l) simp_all
  then obtain obj where obj: "get_object (mspec_key 1) b = Some obj" using goodD(2) [OF conjunct1 [OF g], of 1] by auto
  have "registered_key (mspec_key 1)" using mspec_key_registered_nat [of 1] by (simp add: mspec_limit_def)
  then have "(mspec_key 1, obj) \<in> set (objects b)"
    using wf obj ie_store_get_Some by (auto simp: get_object_def wf_msg_def wf_store_def)
  then have "has_type OT_ipap_message b" by (force simp: has_type_iff)
  then have check: "msg_check b" using msn assms(4) by (simp add: msg_check_def bidding_check_def)
  have cls: "msg_class b = Anslp_bidding" "msg_type b = msg_type (msg_new_instance b)"
    using assms(4) by (simp_all add: msg_new_instance_def)
  have "complete L b"
    by (rule good_complete [OF conjunct1 [OF g] check]) (use g base(2) assms(2) cls types in \<open>simp_all add: mspec_limit_def\<close>)
  then show ?thesis using size by (simp add: writable_def)
qed

lemma empty_bidding_stops:
  fixes L :: "('b, 'm) wire"
  assumes "msg m = Some (set_msg_sequence_number n new_anslp_bidding)"
  shows "dispatcher_send_message L send_to m = Crash Assert_failed"
proof -
  have "objects (set_msg_sequence_number n new_anslp_bidding :: 'm anslp_msg) =
      [(unique_key OT_msg_sequence_number, new_msg_sequence_number n Tr_mandatory True)]"
    by (simp add: setter_defs set_object_def new_anslp_bidding_def ie_store_set_def unique_key_def)
  then have "\<not> bidding_check (set_msg_sequence_number n new_anslp_bidding :: 'm anslp_msg)"
    by (simp add: bidding_check_def has_type_def unique_key_def OT_defs)
  then show ?thesis using assms
    by (simp add: dispatcher_send_message_def create_api_msg_def msg_serialize_def bidding_serialize_def)
qed

end
