(* ===== verification/Ni_Stops.thy ===== *)
theory Ni_Stops
  imports Send_Path Ni_Session
begin

text \<open>
  When an initiator session stops the process, with the way of its messages through the mapper included: the
  faults of its handlers (\<open>ni_faulty\<close> in \<open>Ni_Session\<close>) and the one message that it builds and the mapper
  refuses, a bid without objects.
\<close>

text \<open>The messages that a session keeps for being sent again can be sent.\<close>

definition ni_kept_ok :: "('b, 'm) wire \<Rightarrow> 'm ni_session \<Rightarrow> bool" where
  "ni_kept_ok L s = ((\<forall>m. ni_last_create_msg s = Some m \<longrightarrow> outgoing L m) \<and> (\<forall>m. ni_last_refresh_msg s = Some m \<longrightarrow> outgoing L m))"

text \<open>The objects that the application hands over fit into a message.\<close>

definition ni_request_ok :: "('b, 'm) wire \<Rightarrow> 'm event \<Rightarrow> bool" where
  "ni_request_ok L evt = ((\<forall>e. api_create_of evt = Some e \<longrightarrow> sendable_list L (ac_mspec_objects e)) \<and>
     (\<forall>l rq. api_bidding_of evt = Some (l, rq) \<longrightarrow> sendable_list L l))"

definition ni_empty_bid :: "'m event \<Rightarrow> 'm ni_session \<Rightarrow> bool" where
  "ni_empty_bid evt s = ((ni_state s = Ni_auctioning \<or> ni_state s = Ni_pending_teardown) \<and>
     (case api_bidding_of evt of Some (l, rq) \<Rightarrow> l = [] | None \<Rightarrow> False))"

definition ni_stops :: "'m event \<Rightarrow> 'm ni_session \<Rightarrow> bool" where
  "ni_stops evt s = (ni_faulty evt s \<or> ni_empty_bid evt s)"

lemma writable_built:
  "writable L (ni_refresh_of lt n)"
  "sendable_list L (ac_mspec_objects e) \<Longrightarrow> writable L (ni_create_of e (map (object_copy \<circ> snd) (ac_mspec_objects e)) lt n h)"
  "sendable_list L l \<Longrightarrow> l \<noteq> [] \<Longrightarrow> writable L (bidding_of l n)"
proof -
  show "writable L (ni_refresh_of lt n)" unfolding ni_refresh_of_def by (rule refresh_writable)
  show "writable L (ni_create_of e (map (object_copy \<circ> snd) (ac_mspec_objects e)) lt n h)" if "sendable_list L (ac_mspec_objects e)"
    unfolding ni_create_of_def sendable_listD(3) [OF that] sendable_listD(2) [OF that] writable_def
    by (rule create_complete [OF sendable_listD(1,4) [OF that] refl])
  show "writable L (bidding_of l n)" if "sendable_list L l" "l \<noteq> []"
    unfolding bidding_of_def sendable_listD(3) [OF that(1)]
    by (rule bidding_writable [OF sendable_listD(1,4) [OF that(1)] _ refl]) (use that(2) in simp)
qed

section \<open>Everything else reaches GIST\<close>

definition ni_flow :: "('b, 'm) wire \<Rightarrow> (gist_call \<Rightarrow> bool) \<Rightarrow> 'm world \<Rightarrow> 'm ni_session \<times> 'm world \<Rightarrow> bool" where
  "ni_flow L send_to w sw = (flows L send_to (trace w) (trace (snd sw)) \<and> ni_kept_ok L (fst sw))"

abbreviation ni_flowing :: "('b, 'm) wire \<Rightarrow> (gist_call \<Rightarrow> bool) \<Rightarrow> 'm world \<Rightarrow> ('m, 'a) ni_step \<Rightarrow> bool" where
  "ni_flowing L send_to w \<equiv> post (\<lambda>_. ni_flow L send_to w) (\<lambda>_. ni_flow L send_to w) (\<lambda>_ _. True)"

lemmas ni_flow_defs = ni_flow_def ni_kept_ok_def same_actions_def

lemma started_trace [simp]: "trace (started d i n w) = trace w @ [Start_timer i (timer_msg_id (plat d) (timers_made w)) (sint n)]"
  by (simp add: started_def)

lemma install_rule_of_trace [simp]: "trace (snd (install_rule_of d objs w)) = trace w"
  using install_rule_of_same by (auto simp: same_actions_def)

lemma ni_flow_keeps:
  assumes "netmsg_laws L R" "ie_laws L" "\<forall>a. send_to a" "ni_kept_ok L s" "ni_request_ok L evt" "\<not> ni_empty_bid evt s"
  shows "ni_flowing L send_to w (ni_handle d evt (s, w))"
proof -
  have [simp]: "outgoing L m \<Longrightarrow> dispatcher_send_message L send_to m = Ok ()" for m
    using outgoing_sent [OF assms(1-3)] .
  note [simp] = writable_built
  have kept: "outgoing L m" if "ni_last_create_msg s = Some m \<or> ni_last_refresh_msg s = Some m" for m
    using assms(4) that by (auto simp: ni_kept_ok_def)
  have teardown: "ni_flowing L send_to w (ni_begin_teardown d (s', w'))" if "ni_flow L send_to w (s', w')" for s' w'
    using that by (auto simp: ni_begin_teardown_def wp Let_def ni_flow_defs intro!: wp_intro)
  have close: "ni_flowing L send_to w (ni_send_teardown (s', w'))" if "ni_flow L send_to w (s', w')" for s' w'
    using that by (auto simp: ni_send_teardown_def wp ni_flow_defs)
  show ?thesis
  proof (cases "ni_state s")
    case Ni_close
    then show ?thesis using assms(4,5)
      by (cases "api_create_of evt")
        (simp_all add: ni_handle_def ni_handle_state_close_def ni_setup_session_def wp Let_def ni_flow_defs ni_request_ok_def)
  next
    case Ni_pending
    then show ?thesis using assms(4) kept
      unfolding ni_handle_def ni_handle_state_pending_def ni_response_timeout_pending_def ni_response_pending_def
      by (simp add: wp Let_def) (intro conjI impI allI wp_intro close; simp add: ni_flow_defs)
  next
    case Ni_pending_installing
    then show ?thesis using assms(4) kept
      unfolding ni_handle_def ni_handle_state_pending_installing_def ni_response_timeout_installing_def
        ni_remove_install_rule_def ni_api_install_def
      by (simp add: wp Let_def) (intro conjI impI allI wp_intro close; simp add: wp ni_flow_defs set_reponse_objects_world)
  next
    case Ni_auctioning
    then show ?thesis using assms(4-6) kept
      unfolding ni_handle_def ni_handle_state_auctioning_def ni_refresh_timeout_def ni_response_timeout_auctioning_def
        ni_api_teardown_auctioning_def ni_api_bidding_def ni_response_auctioning_def
      by (simp add: wp Let_def) (intro conjI impI allI wp_intro teardown; auto simp: ni_flow_defs ni_request_ok_def ni_empty_bid_def)
  next
    case Ni_pending_teardown
    then show ?thesis using assms(4-6)
      unfolding ni_handle_def ni_handle_state_pending_teardown_def ni_response_timeout_teardown_def ni_api_bidding_def
      by (simp add: wp Let_def) (intro conjI impI allI wp_intro; auto simp: ni_flow_defs ni_request_ok_def ni_empty_bid_def)
  qed
qed

lemma ni_flow_process:
  assumes "netmsg_laws L R" "ie_laws L" "\<forall>a. send_to a" "ni_kept_ok L s" "ni_request_ok L evt" "\<not> ni_empty_bid evt s"
  shows "ni_flowing L send_to w (ni_process_event d evt (s, w))"
  unfolding ni_process_event_def post_call
  by (rule post_mono [OF ni_flow_keeps [OF assms]]) (auto simp: ni_flow_def ni_kept_ok_def)

text \<open>The bid without objects is sent without a complaint by the handler, and stops the mapper.\<close>

lemma ni_empty_bid_stops:
  assumes "ni_inv s" "ni_empty_bid evt s"
  shows "hand_over L send_to (new_actions w (snd (snd (ni_process_event d evt (s, w))))) \<noteq> Ok ()"
proof -
  obtain rq where bid: "api_bidding_of evt = Some ([], rq)" using assms(2) by (auto simp: ni_empty_bid_def split: option.splits)
  obtain r where mri: "ni_mri s = Some r" using assms by (auto simp: ni_inv_def ni_empty_bid_def)
  let ?m = "new_ntlp_msg (sess_id s) (bidding_of [] (msn s + 1)) r 0"
  have kind: "\<not> is_api_install evt" "\<not> is_timer_of evt t" "\<not> is_api_teardown evt" "\<not> is_anslp_refresh evt" for t
    using bid by (auto simp: event_pred_defs split: event_data.splits)
  have "post (\<lambda>_ sw. trace (snd sw) = trace w @ [Send_message ?m]) (\<lambda>_ _. False) (\<lambda>_ _. False) (ni_process_event d evt (s, w))"
    using assms(2) bid mri kind
    by (auto simp: ni_process_event_def ni_handle_def ni_handle_state_auctioning_def ni_handle_state_pending_teardown_def
        ni_api_bidding_def ni_empty_bid_def wp Let_def)
  then have "new_actions w (snd (snd (ni_process_event d evt (s, w)))) = [Send_message ?m]"
    by (cases "ni_process_event d evt (s, w)" rule: call_cases) (auto simp: new_actions_def)
  moreover have body: "msg ?m = Some (set_msg_sequence_number (msn s + 1) new_anslp_bidding)"
    by (simp add: new_ntlp_msg_def bidding_of_def)
  ultimately show ?thesis using empty_bidding_stops [OF body, of L send_to] by simp
qed

lemma ni_stops_exactly:
  assumes "netmsg_laws L R" "ie_laws L" "\<forall>a. send_to a" "ni_inv s" "ni_kept_ok L s" "ni_request_ok L evt"
  shows "crashed (fst (with_mapper L send_to w (ni_process_event d evt (s, w)))) \<longleftrightarrow> ni_stops evt s"
proof (cases "ni_empty_bid evt s")
  case True
  then show ?thesis using ni_empty_bid_stops [OF assms(4) True, of L send_to w d] by (simp add: with_mapper_crashed ni_stops_def)
next
  case False
  let ?x = "ni_process_event d evt (s, w)"
  have "hand_over L send_to (new_actions w (snd (snd ?x))) = Ok () \<or> crashed (fst ?x)"
    using ni_flow_process [OF assms(1-3,5,6) False, of w d]
    by (cases ?x rule: call_cases) (auto simp: ni_flow_def flows_new_actions)
  then show ?thesis using False ni_handler_crash [OF assms(4), of d evt w] by (auto simp: with_mapper_crashed ni_stops_def)
qed

text \<open>
  C6: an initiator session stops the process while it handles an event exactly in the cases that \<open>ni_stops\<close> lists, the
  mapper included that serialises what it sends: those of \<open>ni_faulty\<close>, and a bid of the application that has no objects,
  which fails an assertion in \<open>create_api_msg\<close>. This is so whatever the configuration, the installer and the event, as long as
  the objects of requests can be serialised and GIST's queue takes messages; that the session can send again the
  messages it keeps holds at the start and after every event that is processed.
\<close>

theorem ni_crash_exactly:
  assumes "netmsg_laws L R" "ie_laws L" "\<forall>a. send_to a" "ni_inv s" "ni_kept_ok L s" "ni_request_ok L evt"
  shows "(crashed (fst (with_mapper L send_to w (ni_process_event d evt (s, w)))) \<longleftrightarrow> ni_stops evt s) \<and>
    (\<forall>s' w'. with_mapper L send_to w (ni_process_event d evt (s, w)) = (Ok (), s', w') \<longrightarrow> ni_kept_ok L s') \<and>
    ni_kept_ok L (new_ni_session i c random garbage)"
proof (intro conjI allI impI)
  let ?x = "ni_process_event d evt (s, w)"
  show "crashed (fst (with_mapper L send_to w ?x)) \<longleftrightarrow> ni_stops evt s" by (rule ni_stops_exactly [OF assms])
  show "ni_kept_ok L s'" if ok: "with_mapper L send_to w ?x = (Ok (), s', w')" for s' w'
  proof -
    have "\<not> ni_empty_bid evt s" "?x = (Ok (), s', w')"
      using ok ni_empty_bid_stops [OF assms(4), of evt L send_to w d] by (auto simp: with_mapper_def split: prod.splits outcome.splits)
    then show ?thesis using ni_flow_process [OF assms(1-3,5,6), of w d] by (auto simp: ni_flow_def)
  qed
  show "ni_kept_ok L (new_ni_session i c random garbage)" by (simp add: ni_kept_ok_def new_ni_session_def)
qed

end
