(* ===== verification/Daemon.thy ===== *)
theory Daemon
  imports Faults Ni_Stops
begin

text \<open>
  The daemon (\<open>src/src/anslp_daemon.cpp\<close>): which rule installer it starts with, the loop of a worker thread
  over the messages of the input queue, and what the end of the program does with the rules. Starting
  the threads of GIST and collecting its addresses are not modelled.
\<close>

text \<open>The choice of the installer in \<open>startup\<close>; its \<open>setup\<close> does nothing for either kind.\<close>

definition startup_installer :: "bool \<Rightarrow> config \<Rightarrow> installer_kind" where
  "startup_installer has_queue c =
     (if has_queue
      then if is_auctioneer c = True \<or> install_auction_rules_flag c = True then Netauct_rule_installer
           else Nop_auction_rule_installer
      else Nop_auction_rule_installer)"

text \<open>\<open>shutdown\<close> catches the errors of the installer.\<close>

definition shutdown_rules :: "'m dispatcher \<Rightarrow> 'm world \<Rightarrow> (exn, unit) outcome \<times> 'm world" where
  "shutdown_rules d w =
     (case (case rule_installer d of
              Netauct_rule_installer \<Rightarrow> netauct_remove_all d w
            | Nop_auction_rule_installer \<Rightarrow> nop_remove_all w) of
        (Ok _, w) \<Rightarrow> (Ok (), w)
      | (Throw e, w) \<Rightarrow> (Ok (), w)
      | (Crash f, w) \<Rightarrow> (Crash f, w))"

text \<open>
  One message of the queue: mapped to an event, which the dispatcher processes; what it sends goes through the mapper to
  the queue of GIST (\<open>send_to\<close>). An exception of the mapper is \<open>Inl\<close>, one of the dispatcher \<open>Inr\<close>; neither is
  caught.
\<close>

definition handle_message :: "('b, 'm) wire \<Rightarrow> (gist_call \<Rightarrow> bool) \<Rightarrow> 'm dispatcher \<Rightarrow> 'm message \<Rightarrow> 'm session_manager \<times> 'm world
    \<Rightarrow> ((wire_exn + exn, unit) outcome \<times> 'm session_manager \<times> 'm world) option" where
  "handle_message L send_to d m mw = (case map_to_event L (Some m) of
       None \<Rightarrow> None
     | Some (Crash f) \<Rightarrow> Some (Crash f, mw)
     | Some (Throw e) \<Rightarrow> Some (Throw (Inl e), mw)
     | Some (Ok None) \<Rightarrow> Some (Ok (), mw)
     | Some (Ok (Some evt)) \<Rightarrow>
         map_option (\<lambda>res. case with_mapper L send_to (snd mw) res of
             (r, mw) \<Rightarrow> (case r of Ok _ \<Rightarrow> Ok () | Throw e \<Rightarrow> Throw (Inr e) | Crash f \<Rightarrow> Crash f, mw))
           (dispatcher_process d evt mw))"

text \<open>
  The loop: the list has what \<open>dequeue_timedwait\<close> returns while the thread is to run, \<open>None\<close> after a
  timeout.
\<close>

fun main_loop :: "('b, 'm) wire \<Rightarrow> (gist_call \<Rightarrow> bool) \<Rightarrow> 'm dispatcher \<Rightarrow> 'm message option list \<Rightarrow> 'm session_manager \<times> 'm world
    \<Rightarrow> ((wire_exn + exn, unit) outcome \<times> 'm session_manager \<times> 'm world) option" where
  "main_loop L send_to d [] mw = Some (Ok (), mw)"
| "main_loop L send_to d (None # ms) mw = main_loop L send_to d ms mw"
| "main_loop L send_to d (Some m # ms) mw = (case handle_message L send_to d m mw of
       None \<Rightarrow> None
     | Some (Ok _, mw) \<Rightarrow> main_loop L send_to d ms mw
     | Some (Throw e, mw) \<Rightarrow> Some (Throw e, mw)
     | Some (Crash f, mw) \<Rightarrow> Some (Crash f, mw))"

section \<open>Mapping always returns\<close>

definition payload_of :: "'m message \<Rightarrow> u8 list" where
  "payload_of m = (case m of Api_msg a \<Rightarrow> (case am_data a of Some bs \<Rightarrow> bs | None \<Rightarrow> []) | _ \<Rightarrow> [])"

lemma receive_payload_returns:
  assumes "netmsg_laws L R" "ie_laws L" "length bs < 2 ^ 32"
  shows "\<exists>r. receive_payload L bs = Some r"
  using deserialize_total [OF assms, of Cat_anslp_msg Protocol_v1 False "[]"] by (auto simp: receive_payload_def)

lemma map_to_event_returns:
  assumes "netmsg_laws L R" "ie_laws L" "length (payload_of m) < 2 ^ 32"
  shows "\<exists>r. map_to_event L (Some m) = Some r"
proof (cases m)
  case (Api_msg a)
  have "\<exists>r. map_api_receive_message L a = Some r"
    using receive_payload_returns [OF assms(1,2), of "payload_of m"] assms(3) Api_msg
    by (cases "am_data a") (auto simp: map_api_receive_message_def payload_of_def split: option.splits)
  then show ?thesis using Api_msg by (cases "am_subtype a") (simp_all add: map_to_event_def map_api_message_def)
qed (simp_all add: map_to_event_def)

lemma handle_message_event:
  assumes "map_to_event L (Some m) = Some (Ok (Some evt))" "handle_message L send_to d m (mgr, w) = Some (r, mgr', w')"
  obtains r0 r1 where "dispatcher_process d evt (mgr, w) = Some (r0, mgr', w')"
    "with_mapper L send_to w (r0, mgr', w') = (r1, mgr', w')"
    "r = (case r1 of Ok _ \<Rightarrow> Ok () | Throw e \<Rightarrow> Throw (Inr e) | Crash f \<Rightarrow> Crash f)"
proof -
  obtain r0 mgr0 w0 where disp: "dispatcher_process d evt (mgr, w) = Some (r0, mgr0, w0)"
    using assms by (auto simp: handle_message_def)
  obtain r1 where "with_mapper L send_to w (r0, mgr0, w0) = (r1, mgr0, w0)"
    by (cases "with_mapper L send_to w (r0, mgr0, w0)") (auto elim: with_mapper_cases)
  with that assms disp show thesis by (auto simp: handle_message_def)
qed

lemma handle_message_effect:
  assumes "manager_ok mgr" "handle_message L send_to d m (mgr, w) = Some (r, mgr', w')"
  shows "(\<forall>e. r \<noteq> Throw (Inr e)) \<and> (r = Ok () \<longrightarrow> manager_ok mgr')"
proof (cases "\<exists>evt. map_to_event L (Some m) = Some (Ok (Some evt))")
  case True
  then obtain evt where evt: "map_to_event L (Some m) = Some (Ok (Some evt))" by blast
  obtain r0 r1 where step: "dispatcher_process d evt (mgr, w) = Some (r0, mgr', w')"
    "with_mapper L send_to w (r0, mgr', w') = (r1, mgr', w')"
    and r: "r = (case r1 of Ok _ \<Rightarrow> Ok () | Throw e \<Rightarrow> Throw (Inr e) | Crash f \<Rightarrow> Crash f)"
    by (rule handle_message_event [OF evt assms(2)])
  from dispatcher_process_effect [OF assms(1) step(1)] step(2) r show ?thesis
    by (cases rule: with_mapper_cases [OF step(2)]; cases r1) auto
next
  case False
  then have "mgr' = mgr \<and> (\<forall>e. r \<noteq> Throw (Inr e))"
    using assms(2) unfolding handle_message_def by (auto split: option.split_asm outcome.split_asm)
  then show ?thesis using assms(1) by simp
qed

lemma main_loop_effect:
  assumes "manager_ok mgr" "main_loop L send_to d ms (mgr, w) = Some (r, mgr', w')"
  shows "(\<forall>e. r \<noteq> Throw (Inr e)) \<and> (r = Ok () \<longrightarrow> manager_ok mgr')"
  using assms
proof (induction ms arbitrary: mgr w)
  case (Cons x ms)
  show ?case
  proof (cases x)
    case None
    then show ?thesis using Cons.IH [OF Cons.prems(1)] Cons.prems(2) by auto
  next
    case (Some m)
    then obtain r1 mgr1 wl where step: "handle_message L send_to d m (mgr, w) = Some (r1, mgr1, wl)"
      using Cons.prems(2) by (auto split: option.splits)
    from handle_message_effect [OF Cons.prems(1) this] Cons.IH [of mgr1 wl] Cons.prems(2) step Some
    show ?thesis by (cases r1) auto
  qed
qed auto

lemma find_session_returns:
  assumes "\<exists>k \<ge> randoms_made w. session_table mgr (random_id (plat d) k) = None"
  shows "find_session d evt (mgr, w) \<noteq> None"
proof -
  obtain k where "randoms_made w \<le> k" "session_table mgr (random_id (plat d) k) = None" using assms by blast
  then have "create_ni_session d (mgr, w) \<noteq> None"
    using create_unique_id_fresh [of "session_table mgr" "plat d" k "randoms_made w"] by (auto simp: create_ni_session_def Let_def)
  then have "dispatcher_create_session d evt (mgr, w) \<noteq> None"
    unfolding dispatcher_create_session_def by (auto simp del: not_None_eq split: option.splits)
  then show ?thesis by (simp add: find_session_def del: not_None_eq split: option.split)
qed

lemma dispatcher_process_returns:
  assumes "\<exists>k \<ge> randoms_made w. session_table mgr (random_id (plat d) k) = None"
  shows "dispatcher_process d evt (mgr, w) \<noteq> None"
  using find_session_returns [OF assms, of evt]
  by (simp add: dispatcher_process_def del: not_None_eq split: option.split)

section \<open>A message for an initiator\<close>

text \<open>The event reaches the initiator session \<open>s\<close>, from the table or just created.\<close>

definition for_initiator :: "'m dispatcher \<Rightarrow> 'm event \<Rightarrow> 'm session_manager \<times> 'm world \<Rightarrow> 'm ni_session \<Rightarrow> bool" where
  "for_initiator d evt mw s = (routing_state_check_of evt = None \<and> \<not> is_invalid_anslp_msg evt \<and>
     (\<exists>mgr' w'. find_session d evt mw = Some (Ok (Some (Ni s)), mgr', w')))"

lemma run_session_result:
  assumes "process d evt (x, w) = (pr, x', w')"
  shows "\<exists>mgr'. run_session d evt x (mgr, w) = (case pr of Crash f \<Rightarrow> Crash f | _ \<Rightarrow> Ok (), mgr', w')"
  using assms by (cases pr) (auto simp: run_session_def remove_session_def add_session_def Let_def)

lemma initiator_result:
  assumes "manager_ok mgr" "for_initiator d evt (mgr, w) s"
  shows "ni_inv s \<and> (\<exists>w1 r mgr' w'. trace w1 = trace w \<and> dispatcher_process d evt (mgr, w) = Some (r, mgr', w') \<and>
    w' = snd (snd (ni_process_event d evt (s, w1))) \<and>
    r = (case fst (ni_process_event d evt (s, w1)) of Crash f \<Rightarrow> Crash f | _ \<Rightarrow> Ok ()))"
proof -
  obtain mgr1 w1 where found: "find_session d evt (mgr, w) = Some (Ok (Some (Ni s)), mgr1, w1)"
    using assms(2) by (auto simp: for_initiator_def)
  then have inv: "any_inv (Ni s)" "trace w1 = trace w" using find_session_effect [OF assms(1) found] by auto
  have "msg_of evt \<noteq> None \<Longrightarrow> ev_sid evt \<noteq> None"
    using found by (auto simp: find_session_def dispatcher_create_session_def event_pred_defs
        split: option.splits if_splits event_data.splits)
  then have disp: "dispatcher_process d evt (mgr, w) = Some (run_session d evt (Ni s) (mgr1, w1))"
    using assms(2) found by (auto simp: dispatcher_process_def for_initiator_def process_found_def)
  obtain pr s' w' where step: "ni_process_event d evt (s, w1) = (pr, s', w')" by (cases "ni_process_event d evt (s, w1)") auto
  then have "process d evt (Ni s, w1) = (pr, Ni s', w')" by (simp add: process_def)
  from run_session_result [OF this, of mgr1] disp step inv show ?thesis by (auto simp: any_inv_def)
qed

lemma initiator_outcome:
  assumes "netmsg_laws L R" "ie_laws L" "\<forall>a. send_to a" "manager_ok mgr" "for_initiator d evt (mgr, w) s"
    and "ni_kept_ok L s" "ni_request_ok L evt" "dispatcher_process d evt (mgr, w) = Some (r, mgr', w')"
  shows "crashed (fst (with_mapper L send_to w (r, mgr', w'))) \<longleftrightarrow> ni_stops evt s"
proof -
  obtain w1 where inv: "ni_inv s" and run: "trace w1 = trace w" "w' = snd (snd (ni_process_event d evt (s, w1)))"
    "r = (case fst (ni_process_event d evt (s, w1)) of Crash f \<Rightarrow> Crash f | _ \<Rightarrow> Ok ())"
    using initiator_result [OF assms(4,5)] assms(8) by auto
  have "new_actions w w' = new_actions w1 w'" using run(1) by (simp add: new_actions_def)
  moreover have "crashed r = crashed (fst (ni_process_event d evt (s, w1)))"
    using run(3) by (cases "fst (ni_process_event d evt (s, w1))") auto
  ultimately show ?thesis
    using ni_stops_exactly [OF assms(1-3) inv assms(6,7), of w1 d] run(2) by (simp add: with_mapper_crashed)
qed


text \<open>
  C20: whatever messages arrive, and in whatever order, a worker thread that starts with an empty table keeps it valid
  after every message it finishes, and no exception of a session or of the dispatcher leaves its loop.
\<close>

theorem main_loop_keeps_table:
  assumes "main_loop L send_to d ms (empty_manager, w) = Some (r, mgr', w')"
  shows "(\<forall>e. r \<noteq> Throw (Inr e)) \<and> (r = Ok () \<longrightarrow> manager_ok mgr')"
  using main_loop_effect [OF manager_ok_empty assms] .

text \<open>
  Ending the program runs off the end of \<open>remove_all\<close> exactly for an auctioneer that has a queue to its
  application and does not install rules; in every other configuration it ends normally and changes nothing.
\<close>

theorem shutdown_rules_behaviour:
  assumes "rule_installer d = startup_installer has_queue (conf d)"
  shows "shutdown_rules d w =
    (if has_queue \<and> is_auctioneer (conf d) \<and> \<not> install_auction_rules_flag (conf d) then Crash Missing_return else Ok (), w)"
  using assms by (auto simp: shutdown_rules_def startup_installer_def netauct_remove_all_def nop_remove_all_def)

end
