(* ===== verification/Wire_Types.thy ===== *)
theory Wire_Types
  imports Gistka_Properties
begin

text \<open>
  What the readers give, whatever the bytes are: objects and messages whose class, type and keys agree. The
  sessions may rely on it for every message that comes from the network.
\<close>

section \<open>Objects\<close>

text \<open>The registry gives an object of the type that it is asked for.\<close>

lemma registry_object_wf:
  assumes "ie_laws L" "iem_new_instance L (ie_new_instance L) (lookup_ie L) Cat_anslp_object t = Some (Ie_object obj)"
  shows "wf_object obj \<and> obj_type obj = t"
proof -
  have find: "find (\<lambda>e. ie_category e = Cat_anslp_object \<and> ie_type e = t) (register_known_ies L) = Some x \<Longrightarrow>
      ie_new_instance L x = Ie_object obj \<Longrightarrow> wf_object obj \<and> obj_type obj = t" for x
    by (auto simp: register_known_ies_def ie_category_def ie_type_def ie_new_instance_def object_new_instance_def wf_object_def
        is_mspec_def new_object_defs OT_defs split: if_splits)
  have none: "find (\<lambda>e. ie_category e = Cat_default_anslp_object \<and> ie_type e = 0) (register_known_ies L) = None"
    by (simp add: register_known_ies_def ie_category_def)
  show ?thesis
    using assms none by (auto simp: ie_laws_def lookup_ie_def split: option.splits dest: find)
qed

lemma deserialize_body_type:
  "deserialize_body L n skip obj eb = (Ok (Some bd), eb') \<Longrightarrow> body_type bd = body_type (body obj) \<and>
     is_mspec (obj\<lparr>body := bd\<rparr>) = is_mspec obj"
  by (auto simp: deserialize_body_def decode_value_def deserialize_ipap_body_def is_mspec_def Let_def
      split: object_body.splits prod.splits option.splits if_splits)

lemma deserialize_header_type:
  assumes "netmsg_laws L R" "R b pre suf" "peek32 L b = Some v" "deserialize_header L obj (err, b) = (Ok (Some (n, obj')), eb)"
  shows "obj' = obj\<lparr>treatment := treatment_of v, obj_type := extract_object_type v\<rparr>"
proof -
  have "4 \<le> length suf" using netmsg_facts(6) [OF assms(1,2)] assms(3) by (cases "length suf < 4") auto
  then have "\<exists>b'. decode32 L b = Some (v, b')" using netmsg_facts(7,8) [OF assms(1,2)] assms(3) by auto
  then show ?thesis using assms(4) by (auto simp: deserialize_header_def Let_def split: if_splits option.splits)
qed

lemma object_deserialize_wf:
  assumes "netmsg_laws L R" "ie_laws L" "R b pre suf" "peek32 L b = Some v" "wf_object obj" "obj_type obj = extract_object_type v"
    and "object_deserialize L skip obj (err, b) = (Ok (Some obj'), eb)"
  shows "wf_object obj'"
proof -
  obtain n obj1 eb1 bd eb2 where read: "deserialize_header L obj (err, b) = (Ok (Some (n, obj1)), eb1)"
    "deserialize_body L n skip obj1 eb1 = (Ok (Some bd), eb2)" "obj' = obj1\<lparr>body := bd\<rparr>"
    using assms(2,7) by (auto simp: object_deserialize_def ie_laws_def supports_coding_def call_def
        split: outcome.splits option.splits prod.splits)
  have "obj1 = obj\<lparr>treatment := treatment_of v, obj_type := extract_object_type v\<rparr>"
    using deserialize_header_type [OF assms(1,3,4) read(1)] .
  then show ?thesis
    using deserialize_body_type [OF read(2)] read(3) assms(5,6) by (auto simp: wf_object_def is_mspec_def)
qed

lemma deserialize_object_wf:
  assumes "netmsg_laws L R" "ie_laws L" "R b pre suf" "deserialize_object L coding skip (err, b) = (Ok (Some (Ie_object obj)), eb)"
  shows "wf_object obj"
proof -
  obtain v where v: "peek32 L b = Some v" using assms(4) by (auto simp: deserialize_object_def split: option.splits)
  obtain e where e: "iem_new_instance L (ie_new_instance L) (lookup_ie L) Cat_anslp_object (extract_object_type v) = Some e"
    using assms(4) v by (auto simp: deserialize_object_def split: option.splits)
  then obtain obj0 where obj0: "e = Ie_object obj0" using registry_kind(1) [OF assms(2) e] by blast
  have "object_deserialize L skip obj0 (err, b) = (Ok (Some obj), eb)"
    using assms(4) v e obj0 by (auto simp: deserialize_object_def call_def split: prod.splits outcome.splits)
  then show ?thesis
    using object_deserialize_wf [OF assms(1-3) v] registry_object_wf [OF assms(2) e [unfolded obj0]] by blast
qed

section \<open>Messages\<close>

text \<open>
  The state of the loop over the objects: the message is well-formed, its mspec objects are numbered without gaps, and
  there is room for what the bytes ahead can hold.
\<close>

definition loop_inv :: "'m anslp_msg \<Rightarrow> nat \<Rightarrow> bool" where
  "loop_inv m k = (wf_msg m \<and> gapless m \<and> mspec_count m + k div 4 \<le> 2 ^ 30)"

lemma loop_inv_set:
  assumes "loop_inv m k" "wf_object obj" "k' + 4 \<le> k"
  shows "loop_inv (set_object obj m) k'"
proof (cases "unique obj")
  case True
  then have "gapless (set_object obj m)" "mspec_count (set_object obj m) = mspec_count m"
    using gapless_set_unique [of m obj] assms by (simp_all add: loop_inv_def mspec_limit_def)
  then show ?thesis using True assms div_le_mono [of k' k 4] by (simp add: loop_inv_def wf_set_object)
next
  case False
  then have mspec: "is_mspec obj" using assms(2) by (simp add: wf_object_def)
  have "k' div 4 + 1 \<le> k div 4" using assms(3) div_le_mono [of "k' + 4" k 4] by simp
  then have room: "mspec_count m < mspec_limit" "Suc (mspec_count m) + k' div 4 \<le> 2 ^ 30"
    using assms(1) by (simp_all add: loop_inv_def mspec_limit_def)
  then show ?thesis
    using gapless_set_mspec [of m obj] mspec_count_set_mspec [of m obj] wf_set_mspec [of m obj] mspec assms(1,2)
    by (simp add: loop_inv_def set_mspec_object_def)
qed

lemma deserialize_objects_wf:
  assumes "netmsg_laws L R" "ie_laws L" "R b pre suf" "loop_inv m (length suf)"
    and "deserialize_objects L coding skip m (err, b) = Some (Ok (Some m'), eb)"
  shows "loop_inv m' 0 \<and> msg_type m' = msg_type m \<and> msg_class m' = msg_class m"
  using assms(3-5)
proof (induction "length suf" arbitrary: b pre suf m err rule: less_induct)
  case less
  note unfold = deserialize_objects.simps [of L coding skip m]
  show ?case
  proof (cases "get_bytes_left L b = 0")
    case True
    then show ?thesis using less.prems by (simp add: unfold loop_inv_def)
  next
    case False
    obtain r err' b' where d: "deserialize_object L coding skip (err, b) = (r, err', b')" by (cases rule: prod_cases3)
    note s = sane_object [OF assms(1,2) less.prems(1), of coding skip err, unfolded d]
    obtain e where e: "r = Ok (Some e)" using less.prems(3) False d by (auto simp: unfold split: outcome.splits option.splits)
    then obtain obj where obj: "r = Ok (Some (Ie_object obj))" using s(2) by blast
    obtain pre' suf' where R: "R b' pre' suf'" "length suf' + 4 \<le> length suf" using s(1) obj by (auto simp: sane_def)
    have "wf_object obj" using deserialize_object_wf [OF assms(1,2) less.prems(1)] d obj by blast
    note inv = loop_inv_set [OF less.prems(2) this R(2)]
    obtain err'' where "deserialize_objects L coding skip (set_object obj m) (err'', b') = Some (Ok (Some m'), eb)"
      using less.prems(3) False d obj by (auto simp: unfold Let_def split: if_splits)
    then show ?thesis using less.hyps [OF _ R(1) inv] R(2) by auto
  qed
qed

text \<open>The registry gives an empty message of the class that belongs to the type.\<close>

lemma registry_msg_new:
  assumes "ie_laws L" "iem_new_instance L (ie_new_instance L) (lookup_ie L) Cat_anslp_msg t = Some (Ie_msg m)"
  shows "m = msg_new_instance m \<and> ucast (msg_type m) = t"
proof -
  have find: "find (\<lambda>e. ie_category e = Cat_anslp_msg \<and> ie_type e = t) (register_known_ies L) = Some x \<Longrightarrow>
      ie_new_instance L x = Ie_msg m \<Longrightarrow> m = msg_new_instance m \<and> ucast (msg_type m) = t" for x
    by (auto simp: register_known_ies_def ie_category_def ie_type_def ie_new_instance_def msg_new_instance_def
        new_anslp_create_def new_anslp_refresh_def new_anslp_response_def new_anslp_notify_def new_anslp_bidding_def split: if_splits)
  have none: "find (\<lambda>e. ie_category e = Cat_default_anslp_msg \<and> ie_type e = 0) (register_known_ies L) = None"
    by (simp add: register_known_ies_def ie_category_def)
  show ?thesis
    using assms none by (auto simp: ie_laws_def lookup_ie_def split: option.splits dest: find)
qed

lemma loop_inv_new:
  assumes "length suf < 2 ^ 32"
  shows "loop_inv ((msg_new_instance m)\<lparr>msg_type := t\<rparr>) (length suf)"
proof -
  have "objects ((msg_new_instance m)\<lparr>msg_type := t\<rparr>) = []"
    by (cases "msg_class m") (simp_all add: msg_new_instance_def new_anslp_create_def new_anslp_refresh_def
        new_anslp_response_def new_anslp_notify_def new_anslp_bidding_def)
  then have "wf_msg ((msg_new_instance m)\<lparr>msg_type := t\<rparr>)" "mspec_count ((msg_new_instance m)\<lparr>msg_type := t\<rparr>) = 0"
    by (simp_all add: wf_msg_def wf_store_def mspec_count_def getMaxSequence_def)
  then show ?thesis using assms by (simp add: loop_inv_def gapless_def)
qed

lemma ucast_up_inj:
  assumes "(ucast a :: u16) = ucast (b :: u8)"
  shows "a = b"
proof -
  have small: "unat (ucast x :: u16) = unat x" for x :: u8
    using unsigned_less [of x, where 'a = nat] by (simp add: unsigned_ucast_eq take_bit_nat_eq_self)
  have "unat (ucast a :: u16) = unat (ucast b :: u16)" by (simp only: assms)
  then show ?thesis unfolding small by (simp only: word_unat_eq_iff)
qed

text \<open>What a message is that the readers give: its parts fit together.\<close>

definition typed_msg :: "'m anslp_msg \<Rightarrow> bool" where
  "typed_msg m = (wf_msg m \<and> gapless m \<and> msg_type m = msg_type (msg_new_instance m) \<and> mspec_count m \<le> 2 ^ 30)"

lemma msg_deserialize_typed:
  assumes "netmsg_laws L R" "ie_laws L" "R b pre suf" "peek32 L b = Some v" "m0 = msg_new_instance m0"
    and "msg_type m0 = extract_msg_type v" "msg_deserialize L coding False m0 (err, b) = Some (Ok (Some m), eb)"
  shows "typed_msg m \<and> get_num_objects m \<noteq> 0"
proof -
  have "4 \<le> length suf" using netmsg_facts(6) [OF assms(1,3)] assms(4) by (cases "length suf < 4") auto
  then obtain b' where b': "decode32 L b = Some (v, b')" "R b' (pre @ take 4 suf) (drop 4 suf)"
    using netmsg_facts(7,8) [OF assms(1,3)] assms(4) by auto
  obtain eb' where read: "deserialize_objects L coding False (m0\<lparr>msg_type := extract_msg_type v\<rparr>) (err, b') = Some (Ok (Some m), eb')"
    "get_num_objects m \<noteq> 0"
    using assms(7) b'(1) by (auto simp: msg_deserialize_def call_def Let_def split: option.splits outcome.splits if_splits)
  have "length (drop 4 suf) < 2 ^ 32" using netmsg_facts(1) [OF assms(1,3)] by simp
  from loop_inv_new [OF this, where m = m0 and t = "extract_msg_type v"]
  have "loop_inv (m0\<lparr>msg_type := extract_msg_type v\<rparr>) (length (drop 4 suf))" using assms(5) by simp
  from deserialize_objects_wf [OF assms(1,2) b'(2) this read(1)]
  have "loop_inv m 0" "msg_type m = msg_type m0" "msg_class m = msg_class m0" using assms(6) by simp_all
  moreover have "msg_new_instance m = msg_new_instance m0" using \<open>msg_class m = msg_class m0\<close> by (simp add: msg_new_instance_def)
  ultimately show ?thesis using read(2) assms(5) by (simp add: typed_msg_def loop_inv_def)
qed

lemma receive_payload_typed:
  assumes "netmsg_laws L R" "ie_laws L" "length bs < 2 ^ 32" "receive_payload L bs = Some (Ok (Some m))"
  shows "typed_msg m \<and> get_num_objects m \<noteq> 0"
proof -
  let ?b = "new_filled L bs"
  have R: "R ?b [] bs" using netmsg_new(1) [OF assms(1,3)] .
  obtain r err b where r: "deserialize_msg L Protocol_v1 False ([], ?b) = Some (r, err, b)"
    using assms(4) by (auto simp: receive_payload_def manager_deserialize_def)
  then have "r = Ok (Some (Ie_msg m))"
    using assms(4) by (cases r) (auto simp: receive_payload_def manager_deserialize_def split: option.splits ie.splits if_splits)
  then obtain eb where d: "deserialize_msg L Protocol_v1 False ([], ?b) = Some (Ok (Some (Ie_msg m)), eb)" using r by simp
  obtain v where v: "peek32 L ?b = Some v" using d by (auto simp: deserialize_msg_def split: option.splits)
  obtain e where e: "iem_new_instance L (ie_new_instance L) (lookup_ie L) Cat_anslp_msg (ucast (extract_msg_type v)) = Some e"
    using d v by (auto simp: deserialize_msg_def split: option.splits)
  obtain m0 where m0: "e = Ie_msg m0" using registry_kind(2) [OF assms(2) e] by blast
  have new: "m0 = msg_new_instance m0" "msg_type m0 = extract_msg_type v"
    using registry_msg_new [OF assms(2) e [unfolded m0]] ucast_up_inj [of "msg_type m0" "extract_msg_type v"] by simp_all
  obtain r eb' where r: "msg_deserialize L Protocol_v1 False m0 ([], ?b) = Some (r, eb')" "r = Ok (Some m)"
  proof -
    obtain r eb' where r: "msg_deserialize L Protocol_v1 False m0 ([], ?b) = Some (r, eb')"
      using d v e m0 by (auto simp: deserialize_msg_def)
    moreover from this have "r = Ok (Some m)" using d v e m0 by (cases r; cases eb') (auto simp: deserialize_msg_def)
    ultimately show ?thesis using that by blast
  qed
  show ?thesis using msg_deserialize_typed [OF assms(1,2) R v new r(1) [unfolded r(2)]] .
qed

section \<open>Events\<close>

text \<open>
  C5: whatever bytes GIST hands over, a message event that the mapper makes of them carries a typed message: its
  class is that of the type in its header, each object has the class and the type of the key under which it is stored,
  the keys are in order and none is used twice, the mspec objects are numbered from 1 without a gap, and there is at
  least one object. This is the well-formedness that the properties of the sessions ask of a received message.
\<close>

theorem received_message_typed:
  assumes "netmsg_laws L R" "ie_laws L" "\<forall>bs. am_data a = Some bs \<longrightarrow> length bs < 2 ^ 32"
    and "map_to_event L (Some (Api_msg a)) = Some (Ok (Some evt))" "msg_of evt = Some m" "msg m = Some c"
  shows "typed_msg c \<and> wf_msg c \<and> gapless c \<and> get_num_objects c \<noteq> 0"
proof -
  obtain bs where bs: "am_data a = Some bs" "receive_payload L bs = Some (Ok (Some c))"
  proof (cases "am_data a")
    case (Some bs)
    then show ?thesis
      using that [OF Some] assms(4-6)
      by (cases "receive_payload L bs"; cases "am_subtype a")
        (auto simp: map_to_event_def map_api_message_def map_api_receive_message_def map_api_network_notification_def
          map_api_message_status_def msg_of_def split: outcome.splits option.splits if_splits error_t.splits)
  qed (use assms(4-6) in \<open>cases "am_subtype a"; auto simp: map_to_event_def map_api_message_def map_api_receive_message_def
      map_api_network_notification_def map_api_message_status_def msg_of_def split: option.splits if_splits error_t.splits\<close>)
  then show ?thesis using receive_payload_typed [OF assms(1,2) _ bs(2)] assms(3) by (auto simp: typed_msg_def)
qed

end
