(* ===== verification/Wire_Examples.thy ===== *)
theory Wire_Examples
  imports Examples Daemon Wire_Types
begin

text \<open>
  A concrete wire: a buffer of bytes with a position as \<open>NetMsg\<close>, the framework as it is documented, and mspec
  messages that are numbers below 256, written as the byte 1 and the number. It satisfies the laws that the
  properties of the wire format ask for.
\<close>

type_synonym buffer = "u8 list \<times> nat"

definition put :: "u8 list \<Rightarrow> buffer \<Rightarrow> buffer option" where
  "put bs = (\<lambda>(buf, p). if p + length bs \<le> length buf then Some (take p buf @ bs @ drop (p + length bs) buf, p + length bs) else None)"

definition ex_import :: "u8 list \<Rightarrow> nat \<Rightarrow> (nat \<times> nat) option" where
  "ex_import bs m = (case bs of a # b # _ \<Rightarrow> if a = 1 then Some (2, unat b) else None | _ \<Rightarrow> None)"

definition ex_wire :: "(buffer, nat) wire" where
  "ex_wire = \<lparr>new_sized = (\<lambda>n. (replicate n 0, 0)), new_filled = (\<lambda>bs. (bs, 0)), get_buffer = fst,
     get_pos = (\<lambda>(buf, p). of_nat p),
     set_pos = (\<lambda>n (buf, p). if unat n \<le> length buf then Some (buf, unat n) else None),
     get_bytes_left = (\<lambda>(buf, p). of_nat (length buf - p)),
     decode32 = (\<lambda>(buf, p). if p + 4 \<le> length buf then Some (of_be32 (take 4 (drop p buf)), buf, p + 4) else None),
     peek32 = (\<lambda>(buf, p). if p + 4 \<le> length buf then Some (of_be32 (take 4 (drop p buf))) else None),
     encode8 = (\<lambda>v. put [v]), encode16 = (\<lambda>v. put (be16 v)), encode32 = (\<lambda>v. put (be32 v)),
     copy_to = (\<lambda>start n (buf, p). if unat start + unat n \<le> length buf then Some (take (unat n) (drop (unat start) buf)) else None),
     copy_from = (\<lambda>bs start (buf, p). if unat start + length bs \<le> length buf
        then Some (take (unat start) buf @ bs @ drop (unat start + length bs) buf, p) else None),
     check_ser_args = (\<lambda>coding ok. if coding \<and> ok then None else Some (Protlib_error 0)),
     check_deser_args = (\<lambda>coding err. if coding then (True, err) else (False, err @ [Protlib_error 1])),
     iem_lookup = (\<lambda>regs c t. find (\<lambda>e. ie_category e = c \<and> ie_type e = t) regs),
     iem_new_instance = (\<lambda>f lookup c t. map_option f (lookup c t)),
     ipap_default = 0, ipap_get_message = (\<lambda>m. Some [1, of_nat m]), ipap_get_require_output = (\<lambda>m. False),
     ipap_get_offset = (\<lambda>m. 2), ipap_import = ex_import\<rparr>"

definition ex_at :: "buffer \<Rightarrow> u8 list \<Rightarrow> u8 list \<Rightarrow> bool" where
  "ex_at b pre suf = (b = (pre @ suf, length pre) \<and> length pre + length suf < 2 ^ 32)"

lemma ex_laws: "netmsg_laws ex_wire ex_at" "ie_laws ex_wire"
proof -
  have "netmsg_step ex_wire ex_at b pre suf" if "ex_at b pre suf" for b pre suf
  proof -
    have small: "unat (of_nat n :: u32) = n" if "n \<le> length pre + length suf" for n
      using that \<open>ex_at b pre suf\<close> by (simp add: ex_at_def unat_of_nat take_bit_nat_eq_self)
    have "pre @ suf = take n pre @ take (n - length pre) suf @ drop n pre @ drop (n - length pre) suf" for n
      by (cases "n \<le> length pre") simp_all
    then show ?thesis using \<open>ex_at b pre suf\<close> small small [of "length pre"]
      by (auto simp: netmsg_step_def ex_wire_def ex_at_def put_def)
  qed
  then show "netmsg_laws ex_wire ex_at"
    by (simp add: netmsg_laws_def) (simp add: ex_at_def ex_wire_def)
  show "ie_laws ex_wire" by (simp add: ie_laws_def ex_wire_def)
qed

lemma ex_exportable: "m < 256 \<Longrightarrow> exportable ex_wire m"
  by (simp add: exportable_def ex_wire_def ex_import_def unat_of_nat take_bit_nat_eq_self)

section \<open>The wire format at work\<close>

definition ex_refresh_msg :: "nat anslp_msg" where
  "ex_refresh_msg = ex_refresh 30 9"

lemma ex_refresh_complete: "complete ex_wire ex_refresh_msg" "msg_serialized_size ex_wire ex_refresh_msg < 2 ^ 32"
proof -
  have objs: "objects ex_refresh_msg =
      [(unique_key OT_msg_sequence_number, new_msg_sequence_number 9 Tr_mandatory True),
       (unique_key OT_session_lifetime, new_session_lifetime 30 Tr_mandatory True)]"
    by (simp add: ex_refresh_msg_def ex_refresh_def setter_defs set_object_def new_anslp_refresh_def ie_store_set_def
        ie_object_key_lt_def unique_key_def)
  have new: "mspec_count (new_anslp_refresh :: nat anslp_msg) = 0"
    by (simp add: mspec_count_def getMaxSequence_def new_anslp_refresh_def)
  have "good ex_wire ex_refresh_msg"
    unfolding ex_refresh_msg_def ex_refresh_def by (intro good_setters) (simp_all add: new)
  moreover have "mspec_count ex_refresh_msg = 0" "msg_class ex_refresh_msg = Anslp_refresh"
    "msg_type ex_refresh_msg = msg_type (new_anslp_refresh :: nat anslp_msg)"
    unfolding ex_refresh_msg_def ex_refresh_def by (simp_all add: new)
  ultimately show "complete ex_wire ex_refresh_msg"
    by (intro good_complete) (simp_all add: msg_check_def refresh_check_def get_num_objects_def ie_store_size_def objs
        get_object_def ie_store_get_def msg_new_instance_def wire_types_def mspec_limit_def OT_defs)
  show "msg_serialized_size ex_wire ex_refresh_msg < 2 ^ 32"
    by (simp add: msg_serialized_size_def objs object_serialized_size_def HEADER_LENGTH_def)
qed

theorem object_roundtrip_witness:
  "\<exists>bs. length bs = 8 \<and> writes ex_at (object_serialize ex_wire Protocol_v1 (new_anslp_ipap_message 5)) bs \<and>
     reads ex_at (deserialize_object ex_wire Protocol_v1 False) bs (Some (Ie_object (new_anslp_ipap_message 5)))"
proof -
  have "sendable ex_wire (new_anslp_ipap_message 5)" using ex_exportable [of 5] sendable_new by simp
  from object_roundtrip [OF ex_laws this, of False] show ?thesis
    by (simp add: object_serialized_size_def HEADER_LENGTH_def ex_wire_def)
qed

theorem msg_roundtrip_witness:
  "\<exists>b. msg_serialize ex_wire Protocol_v1 ex_refresh_msg (new_sized ex_wire (msg_serialized_size ex_wire ex_refresh_msg)) = (Ok (), b) \<and>
     (\<exists>b'. manager_deserialize ex_wire Cat_anslp_msg Protocol_v1 True ([], new_filled ex_wire (get_buffer ex_wire b)) =
        Some (Ok (Some (Ie_msg ex_refresh_msg)), [], b'))"
  using msg_roundtrip [OF ex_laws ex_refresh_complete, of True "[]"] by blast

theorem deserialize_returns_witness:
  "\<exists>r. manager_deserialize ex_wire Cat_anslp_msg Protocol_v1 True ([], new_filled ex_wire [1, 2, 3, 4, 5]) = Some r \<and> (\<forall>f. fst r \<noteq> Crash f)"
  by (rule deserialize_returns [OF ex_laws]) simp

theorem message_delivered_witness:
  "\<exists>s. create_api_msg ex_wire (ex_msg ex_route ex_refresh_msg) = Ok s \<and>
     map_to_event ex_wire (Some (Api_msg (delivered s (Mri_other 3) 77 True))) =
       Some (Ok (Some \<lparr>ev_sid = Some ex_id,
         ev_data = Msg_event ((ex_msg ex_route ex_refresh_msg)\<lparr>routing_info := Mri_other 3, sii_handle := 77\<rparr>) True\<rparr>))"
  using message_delivered [OF ex_laws _ ex_refresh_complete, of "ex_msg ex_route ex_refresh_msg" "Mri_other 3" 77 True] by simp

theorem received_message_typed_witness:
  "\<exists>a evt m. map_to_event ex_wire (Some (Api_msg a)) = Some (Ok (Some evt)) \<and> msg_of evt = Some m \<and> msg m = Some ex_refresh_msg \<and>
     typed_msg ex_refresh_msg \<and> wf_msg ex_refresh_msg \<and> gapless ex_refresh_msg \<and> get_num_objects ex_refresh_msg \<noteq> 0"
proof -
  let ?m = "ex_msg ex_route ex_refresh_msg"
  let ?evt = "\<lparr>ev_sid = Some ex_id, ev_data = Msg_event (?m\<lparr>routing_info := Mri_other 3, sii_handle := 77\<rparr>) True\<rparr>"
  obtain s where s: "create_api_msg ex_wire ?m = Ok s" "sm_data s = msg_bytes ex_wire ex_refresh_msg"
    using complete_sent [OF ex_laws _ ex_refresh_complete, of ?m] by auto
  have evt: "map_to_event ex_wire (Some (Api_msg (delivered s (Mri_other 3) 77 True))) = Some (Ok (Some ?evt))"
    using complete_delivered [OF ex_laws _ ex_refresh_complete, of ?m] s(1) by auto
  have "\<forall>bs. am_data (delivered s (Mri_other 3) 77 True) = Some bs \<longrightarrow> length bs < 2 ^ 32"
    using s(2) msg_bytes_length [OF ex_refresh_complete(1)] ex_refresh_complete(2) by (simp add: delivered_def)
  from received_message_typed [OF ex_laws this evt] show ?thesis using evt
    by (intro exI [of _ "delivered s (Mri_other 3) 77 True"] exI [of _ ?evt]
        exI [of _ "?m\<lparr>routing_info := Mri_other 3, sii_handle := 77\<rparr>"]) (simp add: msg_of_def)
qed

theorem error_response_not_sent_witness:
  "create_api_msg ex_wire (create_response ex_plat 5 9 (ex_msg ex_route (ex_create 30 8 sme_first))) = Crash Missing_return"
  by (rule error_response_not_sent [OF ex_laws]) simp

theorem padding_stops_node_witness:
  "receive_payload ex_wire (mspec_payload ex_wire new_anslp_create [1, 5, 0, 9]) = Some (Crash Assert_failed)"
  by (rule padding_stops_node [OF ex_laws, where k = 2 and y = 5])
    (simp_all add: msg_new_instance_def ex_wire_def ex_import_def)

theorem short_object_escapes_witness:
  "receive_payload ex_wire (be32 (msg_header (new_anslp_create :: nat anslp_msg)) @
      be32 (object_header (new_session_lifetime 3 Tr_mandatory True :: nat anslp_object) 0)) =
     Some (Throw Net_msg_error)"
  by (rule short_object_escapes [OF ex_laws]) (simp_all add: msg_new_instance_def)

section \<open>The daemon at work\<close>

definition ex_bid :: "nat object_list \<Rightarrow> nat event" where
  "ex_bid l = \<lparr>ev_sid = Some ex_id, ev_data = Api_bidding_event l True\<rparr>"

lemma ex_sendable_list: "sendable_list ex_wire []" "sendable_list ex_wire [([], new_anslp_ipap_message 5)]"
  using ex_exportable [of 5] sendable_new(6) [of ex_wire 5] by (simp_all add: sendable_list_def is_mspec_def)

lemma ex_kept: "ni_kept_ok ex_wire (ex_ni st)"
proof -
  let ?l = "[new_anslp_ipap_message 5]"
  have "\<forall>obj \<in> set ?l. sendable ex_wire obj \<and> is_mspec obj" using ex_exportable [of 5] sendable_new(6) [of ex_wire 5] by (simp add: is_mspec_def)
  from create_complete [OF this _ refl, of 20 sme_first 8 30]
  have "writable ex_wire (ex_create 30 8 sme_first)" by (simp add: writable_def ex_create_def)
  then show ?thesis by (simp add: ni_kept_ok_def ex_ni_def new_ni_session_def ex_msg_def)
qed

theorem ni_crash_exactly_witness:
  "crashed (fst (with_mapper ex_wire (\<lambda>_. True) ex_world (ni_process_event ex_disp (ex_bid []) (ex_ni Ni_auctioning, ex_world)))) \<and>
   \<not> crashed (fst (with_mapper ex_wire (\<lambda>_. True) ex_world (ni_process_event ex_disp (ex_bid [([], new_anslp_ipap_message 5)])
      (ex_ni Ni_auctioning, ex_world)))) \<and>
   crashed (fst (with_mapper ex_wire (\<lambda>_. True) ex_world (ni_process_event ex_disp (ex_api_create 0) (ex_ni Ni_close, ex_world))))"
proof -
  have req: "ni_request_ok ex_wire (ex_bid [])" "ni_request_ok ex_wire (ex_bid [([], new_anslp_ipap_message 5)])"
    "ni_request_ok ex_wire (ex_api_create 0)"
    using ex_sendable_list by (simp_all add: ni_request_ok_def ex_bid_def ex_api_create_def ex_request_def api_create_of_def api_bidding_of_def)
  have "ni_stops (ex_bid []) (ex_ni Ni_auctioning)" "\<not> ni_stops (ex_bid [([], new_anslp_ipap_message 5)]) (ex_ni Ni_auctioning)"
    "ni_stops (ex_api_create 0) (ex_ni Ni_close)"
    by (simp_all add: ni_stops_def ni_empty_bid_def ni_faulty_def ex_ni_def new_ni_session_def ex_bid_def ex_api_create_def ex_request_def
        event_pred_defs unreadable_def refresh_seconds_def default_config_def)
  then show ?thesis
    using ni_crash_exactly [OF ex_laws _ ex_ni_inv ex_kept req(1), of "\<lambda>_. True" ex_world ex_disp Ni_auctioning]
      ni_crash_exactly [OF ex_laws _ ex_ni_inv ex_kept req(2), of "\<lambda>_. True" ex_world ex_disp Ni_auctioning]
      ni_crash_exactly [OF ex_laws _ ex_ni_inv ex_kept req(3), of "\<lambda>_. True" ex_world ex_disp Ni_close]
    by simp
qed

lemma ex_initiator_found: "\<exists>s. for_initiator ex_disp (ex_api_create 30) (empty_manager, ex_world) s \<and> ni_kept_ok ex_wire s \<and>
    \<not> ni_stops (ex_api_create 30) s"
proof -
  define s where "s = (new_ni_session (random_id ex_plat 0) default_config (random_u32 ex_plat (Suc 0)) (uninitialised ex_plat) :: nat ni_session)"
  have id: "create_unique_id ex_plat (session_table empty_manager) 0 = Some (random_id ex_plat 0, Suc 0)"
    by (subst create_unique_id.simps) (simp add: empty_manager_def)
  have kind: "ev_sid (ex_api_create 30) = None" "is_api_create (ex_api_create 30)" "msg_of (ex_api_create 30) = None"
    "routing_state_check_of (ex_api_create 30) = None"
    by (simp_all add: ex_api_create_def event_pred_defs)
  have start: "randoms_made ex_world = 0" by (simp add: ex_world_def)
  have "\<exists>mgr' w'. find_session ex_disp (ex_api_create 30) (empty_manager, ex_world) = Some (Ok (Some (Ni s)), mgr', w')"
    by (simp add: find_session_def dispatcher_create_session_def create_ni_session_def kind start id s_def Let_def)
  moreover have "\<not> ni_stops (ex_api_create 30) s"
    by (simp add: s_def ni_stops_def ni_empty_bid_def ni_faulty_def new_ni_session_def ex_api_create_def ex_request_def api_create_of_def
        refresh_seconds_def default_config_def)
  moreover have "ni_kept_ok ex_wire s" by (simp add: s_def ni_kept_ok_def new_ni_session_def)
  ultimately show ?thesis by (auto simp: for_initiator_def is_invalid_anslp_msg_def kind)
qed


text \<open>A thread that starts with an empty table and gets a request of the application, after a timeout.\<close>

lemma ex_create_handled:
  "\<exists>mgr' w'. main_loop ex_wire (\<lambda>_. True) ex_disp [None, Some (Anslp_event_msg (Some (ex_api_create 30))), Some Other_message]
     (empty_manager, ex_world) = Some (Ok (), mgr', w')"
proof -
  obtain s where s: "for_initiator ex_disp (ex_api_create 30) (empty_manager, ex_world) s" "ni_kept_ok ex_wire s"
    "\<not> ni_stops (ex_api_create 30) s" using ex_initiator_found by blast
  have req: "ni_request_ok ex_wire (ex_api_create 30)"
    using ex_sendable_list by (simp add: ni_request_ok_def ex_api_create_def ex_request_def api_create_of_def api_bidding_of_def)
  obtain r mgr' w' where run: "dispatcher_process ex_disp (ex_api_create 30) (empty_manager, ex_world) = Some (r, mgr', w')"
    using initiator_result [OF manager_ok_empty s(1)] by blast
  obtain r' where mapped: "with_mapper ex_wire (\<lambda>_. True) ex_world (r, mgr', w') = (r', mgr', w')"
    by (cases "with_mapper ex_wire (\<lambda>_. True) ex_world (r, mgr', w')") (auto elim: with_mapper_cases)
  have "\<not> crashed r'"
    using initiator_outcome [OF ex_laws _ manager_ok_empty s(1,2) req run, of "\<lambda>_. True"] s(3) mapped by simp
  moreover have "r' \<noteq> Throw e" for e
    using dispatcher_process_effect [OF manager_ok_empty run] by (cases rule: with_mapper_cases [OF mapped]) auto
  ultimately show ?thesis using run mapped
    by (cases r') (auto simp: handle_message_def map_to_event_def)
qed

theorem main_loop_keeps_table_witness:
  "\<exists>mgr' w'. main_loop ex_wire (\<lambda>_. True) ex_disp [None, Some (Anslp_event_msg (Some (ex_api_create 30))), Some Other_message]
     (empty_manager, ex_world) = Some (Ok (), mgr', w') \<and> manager_ok mgr'"
  using ex_create_handled main_loop_keeps_table by blast

theorem shutdown_rules_behaviour_witness:
  "shutdown_rules (ex_disp\<lparr>conf := default_config\<lparr>is_auctioneer := True, install_auction_rules_flag := False\<rparr>\<rparr>) ex_world =
     (Crash Missing_return, ex_world)"
  by (subst shutdown_rules_behaviour [where has_queue = True]) (simp_all add: startup_installer_def)

end
