(* ===== verification/Workers.thy ===== *)
theory Workers
  imports Dispatcher
begin

text \<open>
  Several worker threads that run \<open>dispatcher::process\<close> at the same time: the per-session lock
  (\<open>src/src/thread_mutex_lockable.cpp\<close>, \<open>src/include/lock.h\<close>), the pointers that the session manager hands
  out, and the steps of a thread between two of its calls. Everything between two lock operations of a thread
  is one step; the steps of different threads interleave in any order. Sessions live in a heap, because
  a thread goes on using the pointer it got from \<open>get_session\<close> after other threads have changed the table.
\<close>

section \<open>The state of the node\<close>

type_synonym ptr = nat
type_synonym thread = nat

text \<open>Where a thread is in \<open>dispatcher::process\<close>.\<close>

datatype 'm position =
    Idle
  | Lookup "'m event"
  | Creating "'m event"
  | Locking "'m event" ptr
  | Running "'m event" ptr
  | Releasing ptr
  | Finishing ptr
  | Removing session_id

record 'm node =
  ptr_table :: "session_id \<rightharpoonup> ptr"
  heap :: "ptr \<rightharpoonup> 'm any_session"
  next_ptr :: ptr
  lock_holder :: "ptr \<rightharpoonup> thread"
  done_ptrs :: "ptr list"
  node_world :: "'m world"
  position :: "thread \<Rightarrow> 'm position"
  stopped :: "fault option"

definition goto :: "thread \<Rightarrow> 'm position \<Rightarrow> 'm node \<Rightarrow> 'm node" where
  "goto t q n = n\<lparr>position := (position n)(t := q)\<rparr>"

definition stop :: "fault \<Rightarrow> 'm node \<Rightarrow> 'm node" where
  "stop f n = n\<lparr>stopped := Some f\<rparr>"

text \<open>The session manager that the sequential model of the dispatcher works on.\<close>

definition abs_manager :: "'m node \<Rightarrow> 'm session_manager" where
  "abs_manager n =
     \<lparr>session_table = (\<lambda>i. case ptr_table n i of None \<Rightarrow> None | Some p \<Rightarrow> heap n p),
      sessionDone = map (\<lambda>p. the (heap n p)) (done_ptrs n)\<rparr>"

section \<open>Locks\<close>

text \<open>
  \<open>acquire\<close> returns \<open>None\<close> when the thread has to wait, which for the normal kind of mutex
  includes a thread that holds the lock already.
\<close>

definition lock_acquire :: "thread \<Rightarrow> ptr \<Rightarrow> 'm node \<Rightarrow> 'm node option" where
  "lock_acquire t p n =
     (if lock_holder n p = None then Some (n\<lparr>lock_holder := (lock_holder n)(p \<mapsto> t)\<rparr>) else None)"

definition lock_release :: "ptr \<Rightarrow> 'm node \<Rightarrow> 'm node" where
  "lock_release p n = n\<lparr>lock_holder := (lock_holder n)(p := None)\<rparr>"

section \<open>The session manager on pointers\<close>

definition new_session :: "'m any_session \<Rightarrow> 'm node \<Rightarrow> 'm node" where
  "new_session s n = n\<lparr>heap := (heap n)(next_ptr n \<mapsto> s),
     ptr_table := (ptr_table n)(get_id s \<mapsto> next_ptr n), next_ptr := next_ptr n + 1\<rparr>"

text \<open>The list of finished sessions deletes its first object when it grows too long.\<close>

definition store_done_ptr :: "ptr \<Rightarrow> 'm node \<Rightarrow> 'm node" where
  "store_done_ptr p n =
     (let done = done_ptrs n @ [p]
      in if length done > DONE_SESSION_LIST_SIZE
         then n\<lparr>done_ptrs := tl done, heap := (heap n)(hd done := None)\<rparr>
         else n\<lparr>done_ptrs := done\<rparr>)"

definition remove_ptr :: "thread \<Rightarrow> session_id \<Rightarrow> 'm node \<Rightarrow> 'm node" where
  "remove_ptr t i n = (case ptr_table n i of
       None \<Rightarrow> stop Null_deref n
     | Some p \<Rightarrow>
         if heap n p = None then stop Use_after_free n
         else goto t Idle (store_done_ptr p (n\<lparr>ptr_table := (ptr_table n)(i := None)\<rparr>)))"

section \<open>The steps of a thread\<close>

definition with_object :: "ptr \<Rightarrow> 'm node \<Rightarrow> ('m any_session \<Rightarrow> 'm node option) \<Rightarrow> 'm node option" where
  "with_object p n k = (case heap n p of None \<Rightarrow> Some (stop Use_after_free n) | Some s \<Rightarrow> k s)"

definition step_lookup :: "thread \<Rightarrow> 'm event \<Rightarrow> 'm node \<Rightarrow> 'm node option" where
  "step_lookup t evt n =
     (case (case ev_sid evt of None \<Rightarrow> None | Some i \<Rightarrow> ptr_table n i) of
        Some p \<Rightarrow> Some (goto t (Locking evt p) n)
      | None \<Rightarrow> Some (goto t (Creating evt) n))"

definition step_create :: "'m dispatcher \<Rightarrow> thread \<Rightarrow> 'm event \<Rightarrow> 'm node \<Rightarrow> 'm node option" where
  "step_create d t evt n =
     (case dispatcher_create_session d evt (abs_manager n, node_world n) of
        None \<Rightarrow> None
      | Some (Ok (Some s), _, w) \<Rightarrow>
          Some (goto t (Locking evt (next_ptr n)) (new_session s (n\<lparr>node_world := w\<rparr>)))
      | Some (Ok None, _, w) \<Rightarrow> Some (goto t Idle (n\<lparr>node_world := w\<rparr>))
      | Some (Throw e, _, w) \<Rightarrow> Some (stop Unexpected_exception n)
      | Some (Crash f, _, w) \<Rightarrow> Some (stop f n))"

definition step_lock :: "thread \<Rightarrow> 'm event \<Rightarrow> ptr \<Rightarrow> 'm node \<Rightarrow> 'm node option" where
  "step_lock t evt p n = with_object p n (\<lambda>s. map_option (goto t (Running evt p)) (lock_acquire t p n))"

text \<open>\<open>catch (...)\<close> goes on with the removal; the lock is released on the other path only.\<close>

definition step_run :: "'m dispatcher \<Rightarrow> thread \<Rightarrow> 'm event \<Rightarrow> ptr \<Rightarrow> 'm node \<Rightarrow> 'm node option" where
  "step_run d t evt p n = with_object p n (\<lambda>s. case process d evt (s, node_world n) of
       (Ok _, s, w) \<Rightarrow> Some (goto t (Releasing p) (n\<lparr>heap := (heap n)(p \<mapsto> s), node_world := w\<rparr>))
     | (Throw e, s, w) \<Rightarrow>
         Some (goto t (Removing (get_id s)) (n\<lparr>heap := (heap n)(p \<mapsto> s), node_world := w\<rparr>))
     | (Crash f, s, w) \<Rightarrow> Some (stop f (n\<lparr>heap := (heap n)(p \<mapsto> s), node_world := w\<rparr>)))"

definition step_release :: "thread \<Rightarrow> ptr \<Rightarrow> 'm node \<Rightarrow> 'm node option" where
  "step_release t p n = with_object p n (\<lambda>s. Some (goto t (Finishing p) (lock_release p n)))"

definition step_finish :: "thread \<Rightarrow> ptr \<Rightarrow> 'm node \<Rightarrow> 'm node option" where
  "step_finish t p n = with_object p n (\<lambda>s. Some (goto t (if is_final s then Removing (get_id s) else Idle) n))"

definition thread_step :: "'m dispatcher \<Rightarrow> thread \<Rightarrow> 'm node \<Rightarrow> 'm node option" where
  "thread_step d t n = (case position n t of
       Idle \<Rightarrow> None
     | Lookup evt \<Rightarrow> step_lookup t evt n
     | Creating evt \<Rightarrow> step_create d t evt n
     | Locking evt p \<Rightarrow> step_lock t evt p n
     | Running evt p \<Rightarrow> step_run d t evt p n
     | Releasing p \<Rightarrow> step_release t p n
     | Finishing p \<Rightarrow> step_finish t p n
     | Removing i \<Rightarrow> Some (remove_ptr t i n))"

text \<open>
  An event for a session, in contrast to the ones that \<open>dispatcher::process\<close> answers or refuses before it looks
  at the table; those do not change the sessions.
\<close>

definition for_session :: "'m event \<Rightarrow> bool" where
  "for_session evt = (\<not> (msg_of evt \<noteq> None \<and> ev_sid evt = None) \<and> routing_state_check_of evt = None \<and>
     \<not> is_invalid_anslp_msg evt)"

definition answer :: "'m dispatcher \<Rightarrow> 'm event \<Rightarrow> 'm node \<Rightarrow> 'm node option" where
  "answer d evt n = (case dispatcher_process d evt (abs_manager n, node_world n) of
       Some (Ok _, _, w) \<Rightarrow> Some (n\<lparr>node_world := w\<rparr>)
     | Some (Crash f, _, _) \<Rightarrow> Some (stop f n)
     | _ \<Rightarrow> None)"

text \<open>The steps of the node, and any number of them.\<close>

inductive node_step :: "'m dispatcher \<Rightarrow> 'm node \<Rightarrow> 'm node \<Rightarrow> bool" for d where
  take_event: "\<lbrakk>stopped n = None; position n t = Idle; for_session evt\<rbrakk> \<Longrightarrow> node_step d n (goto t (Lookup evt) n)"
| answer_event: "\<lbrakk>stopped n = None; position n t = Idle; \<not> for_session evt; answer d evt n = Some n'\<rbrakk> \<Longrightarrow> node_step d n n'"
| run_thread: "\<lbrakk>stopped n = None; thread_step d t n = Some n'\<rbrakk> \<Longrightarrow> node_step d n n'"

inductive node_steps :: "'m dispatcher \<Rightarrow> 'm node \<Rightarrow> 'm node \<Rightarrow> bool" for d where
  steps_refl: "node_steps d n n"
| steps_step: "\<lbrakk>node_steps d n n'; node_step d n' n''\<rbrakk> \<Longrightarrow> node_steps d n n''"

definition start_node :: "'m world \<Rightarrow> 'm node" where
  "start_node w = \<lparr>ptr_table = Map.empty, heap = Map.empty, next_ptr = 0, lock_holder = Map.empty, done_ptrs = [],
     node_world = w, position = (\<lambda>_. Idle), stopped = None\<rparr>"

inductive_cases node_stepE: "node_step d n n'"

end
