(* ===== verification/Worker_Properties.thy ===== *)
theory Worker_Properties
  imports Workers
begin

text \<open>
  What the per-session locks give and what they do not: mutual exclusion and the integrity of the
  table and of the heap in every interleaving, agreement with the sequential dispatcher when the events
  come one after the other, the lock that an exception leaves behind, and two races that stop the process.
\<close>

section \<open>The invariant of the node\<close>

fun pointer_of :: "'m position \<Rightarrow> ptr option" where
  "pointer_of (Locking evt p) = Some p"
| "pointer_of (Running evt p) = Some p"
| "pointer_of (Releasing p) = Some p"
| "pointer_of (Finishing p) = Some p"
| "pointer_of _ = None"

fun holds_lock :: "'m position \<Rightarrow> ptr option" where
  "holds_lock (Running evt p) = Some p"
| "holds_lock (Releasing p) = Some p"
| "holds_lock _ = None"

text \<open>A lock is orphaned when its holder has left the critical section without releasing it.\<close>

definition orphaned :: "'m node \<Rightarrow> ptr \<Rightarrow> bool" where
  "orphaned n p = (case lock_holder n p of None \<Rightarrow> False | Some t \<Rightarrow> holds_lock (position n t) \<noteq> Some p)"

definition table_part :: "'m node \<Rightarrow> bool" where
  "table_part n = (\<forall>i p. ptr_table n i = Some p \<longrightarrow>
     p \<notin> set (done_ptrs n) \<and> (\<exists>s. heap n p = Some s \<and> get_id s = i))"

definition heap_part :: "'m node \<Rightarrow> bool" where
  "heap_part n = (\<forall>p s. heap n p = Some s \<longrightarrow> p < next_ptr n \<and> (any_inv s \<or> orphaned n p))"

definition done_part :: "'m node \<Rightarrow> bool" where
  "done_part n = (distinct (done_ptrs n) \<and> (\<forall>p \<in> set (done_ptrs n). heap n p \<noteq> None) \<and>
     length (done_ptrs n) \<le> DONE_SESSION_LIST_SIZE)"

definition lock_part :: "'m node \<Rightarrow> bool" where
  "lock_part n = ((\<forall>t p. pointer_of (position n t) = Some p \<longrightarrow> p < next_ptr n) \<and>
     (\<forall>t p. holds_lock (position n t) = Some p \<longrightarrow> lock_holder n p = Some t) \<and>
     (\<forall>p t. lock_holder n p = Some t \<longrightarrow> p < next_ptr n))"

definition node_ok :: "'m node \<Rightarrow> bool" where
  "node_ok n = (table_part n \<and> heap_part n \<and> done_part n \<and> lock_part n)"

lemmas node_parts = table_part_def heap_part_def done_part_def lock_part_def

lemma node_simps [simp]:
  "ptr_table (goto t q n) = ptr_table n" "heap (goto t q n) = heap n" "next_ptr (goto t q n) = next_ptr n"
  "lock_holder (goto t q n) = lock_holder n" "done_ptrs (goto t q n) = done_ptrs n"
  "node_world (goto t q n) = node_world n" "stopped (goto t q n) = stopped n"
  "position (goto t q n) = (position n)(t := q)"
  "ptr_table (stop f n) = ptr_table n" "heap (stop f n) = heap n" "next_ptr (stop f n) = next_ptr n"
  "lock_holder (stop f n) = lock_holder n" "done_ptrs (stop f n) = done_ptrs n"
  "node_world (stop f n) = node_world n" "stopped (stop f n) = Some f" "position (stop f n) = position n"
  by (simp_all add: goto_def stop_def)

lemma new_session_sel [simp]:
  "ptr_table (new_session s n) = (ptr_table n)(get_id s \<mapsto> next_ptr n)"
  "heap (new_session s n) = (heap n)(next_ptr n \<mapsto> s)" "next_ptr (new_session s n) = next_ptr n + 1"
  "lock_holder (new_session s n) = lock_holder n" "done_ptrs (new_session s n) = done_ptrs n"
  "node_world (new_session s n) = node_world n" "position (new_session s n) = position n"
  "stopped (new_session s n) = stopped n"
  by (simp_all add: new_session_def)

lemma orphaned_iff: "orphaned n p \<longleftrightarrow> (\<exists>t. lock_holder n p = Some t \<and> holds_lock (position n t) \<noteq> Some p)"
  by (simp add: orphaned_def split: option.splits)

text \<open>Only the thread itself moves, so an orphaned lock stays one unless that thread takes it again.\<close>

lemma orphaned_goto:
  "holds_lock q \<noteq> Some p \<Longrightarrow> orphaned n p \<Longrightarrow> orphaned (goto t q n) p"
  by (auto simp: orphaned_iff)

lemma created_session_valid:
  "dispatcher_create_session d evt (mgr, w) = Some (Ok (Some s), mgr', w') \<Longrightarrow> any_inv s"
  by (auto simp: dispatcher_create_session_def create_ni_session_def create_nf_session_def create_nr_session_def
      new_sessions_ok Let_def deref_def split: if_splits option.splits prod.splits)

text \<open>The parts depend on few fields each.\<close>

lemma part_frames [simp]:
  "table_part (goto t q n) = table_part n" "done_part (goto t q n) = done_part n"
  "table_part (n\<lparr>lock_holder := h\<rparr>) = table_part n" "done_part (n\<lparr>lock_holder := h\<rparr>) = done_part n"
  "table_part (n\<lparr>node_world := w\<rparr>) = table_part n" "done_part (n\<lparr>node_world := w\<rparr>) = done_part n"
  "heap_part (n\<lparr>node_world := w\<rparr>) = heap_part n" "lock_part (n\<lparr>node_world := w\<rparr>) = lock_part n"
  by (simp_all add: node_parts orphaned_iff)

lemma heap_part_mono:
  assumes "heap_part n" "heap n' = heap n" "next_ptr n' = next_ptr n" "\<And>p. orphaned n p \<Longrightarrow> orphaned n' p"
  shows "heap_part n'"
  unfolding heap_part_def assms(2,3) using assms(1,4) unfolding heap_part_def by blast

lemma heap_partD:
  "heap_part n \<Longrightarrow> heap n p = Some s \<Longrightarrow> lock_holder n p = None \<Longrightarrow> any_inv s"
  using option.distinct(1) unfolding heap_part_def orphaned_iff by metis

lemma world_ok: "node_ok n \<Longrightarrow> node_ok (n\<lparr>node_world := w\<rparr>)"
  by (simp add: node_ok_def)

lemma lock_partD:
  assumes "lock_part n"
  shows "pointer_of (position n t) = Some p \<Longrightarrow> p < next_ptr n" "holds_lock (position n t) = Some p \<Longrightarrow> lock_holder n p = Some t"
    "lock_holder n p = Some t \<Longrightarrow> p < next_ptr n"
  using assms by (simp_all add: lock_part_def)

lemma lock_part_goto:
  assumes "lock_part n" "holds_lock q = None" "\<And>p. pointer_of q = Some p \<Longrightarrow> p < next_ptr n"
  shows "lock_part (goto t q n)"
  using assms by (simp add: lock_part_def)

lemma goto_ok:
  assumes "node_ok n" "holds_lock q = None" "\<And>p. pointer_of q = Some p \<Longrightarrow> p < next_ptr n"
  shows "node_ok (goto t q n)"
  unfolding node_ok_def
proof (intro conjI)
  show "lock_part (goto t q n)" using assms by (simp add: node_ok_def lock_part_goto)
  show "heap_part (goto t q n)"
    by (rule heap_part_mono [of n]) (use assms in \<open>simp_all add: node_ok_def orphaned_goto\<close>)
qed (use assms in \<open>simp_all add: node_ok_def\<close>)

lemma goto_new:
  "goto t q (new_session s ((goto t q' n)\<lparr>node_world := w\<rparr>)) = goto t q (new_session s (n\<lparr>node_world := w\<rparr>))"
  by (simp add: goto_def new_session_def)

lemma new_session_ok:
  assumes ok: "node_ok n" and s: "any_inv s"
  shows "node_ok (new_session s n)"
proof -
  let ?n = "new_session s n"
  have orph: "orphaned ?n p \<longleftrightarrow> orphaned n p" for p by (simp add: orphaned_iff new_session_def)
  have fresh: "heap n (next_ptr n) = None"
    using ok by (cases "heap n (next_ptr n)") (auto simp: node_ok_def heap_part_def)
  from fresh have "next_ptr n \<notin> set (done_ptrs n)" using ok by (auto simp: node_ok_def done_part_def)
  moreover from this have "table_part ?n" using ok fresh unfolding node_ok_def table_part_def new_session_def by auto (metis option.distinct(1))+
  moreover have "heap_part ?n"
    using ok s unfolding node_ok_def heap_part_def orph by (auto simp: new_session_def less_Suc_eq)
  moreover have "done_part ?n" using ok by (auto simp: node_ok_def done_part_def new_session_def)
  moreover have "lock_part ?n" using ok by (auto simp: node_ok_def lock_part_def new_session_def less_Suc_eq)
  ultimately show ?thesis by (simp add: node_ok_def)
qed

lemma lock_ok:
  assumes ok: "node_ok n" and p: "heap n p \<noteq> None" "lock_holder n p = None" "holds_lock (position n t) = None"
  shows "node_ok (goto t (Running evt p) (n\<lparr>lock_holder := (lock_holder n)(p \<mapsto> t)\<rparr>))" (is "node_ok ?n")
proof -
  have lt: "p < next_ptr n" using ok p by (auto simp: node_ok_def heap_part_def)
  have other: "holds_lock (position n u) \<noteq> Some p" for u
    using ok p(2) by (auto simp: node_ok_def dest: lock_partD(2))
  have "lock_part ?n" using ok lt other by (simp add: node_ok_def lock_part_def)
  moreover have "orphaned ?n q" if "orphaned n q" for q using that p by (auto simp: orphaned_iff)
  then have "heap_part ?n" using ok by (intro heap_part_mono [of n ?n]) (simp_all add: node_ok_def)
  ultimately show ?thesis using ok by (simp add: node_ok_def)
qed

lemma release_ok:
  assumes ok: "node_ok n" and t: "position n t = Releasing p"
  shows "node_ok (goto t (Finishing p) (lock_release p n))" (is "node_ok ?n")
proof -
  have holder: "lock_holder n p = Some t" and lt: "p < next_ptr n"
    using ok lock_partD(1,2) [of n t p] t by (simp_all add: node_ok_def)
  have other: "holds_lock (position n u) \<noteq> Some p" if "u \<noteq> t" for u
    using ok holder that lock_partD(2) [of n u p] by (auto simp: node_ok_def)
  have "lock_part ?n" using ok lt other by (simp add: node_ok_def lock_part_def lock_release_def)
  moreover have "orphaned ?n q" if "orphaned n q" for q
    using that holder t by (auto simp: orphaned_iff lock_release_def)
  then have "heap_part ?n"
    using ok by (intro heap_part_mono [of n ?n]) (simp_all add: node_ok_def lock_release_def)
  ultimately show ?thesis using ok by (simp add: node_ok_def lock_release_def)
qed

lemma table_partD:
  assumes "table_part n" "ptr_table n i = Some p"
  shows "p \<notin> set (done_ptrs n)" "heap n p = Some s \<Longrightarrow> get_id s = i" "\<exists>s. heap n p = Some s \<and> get_id s = i"
  using assms unfolding table_part_def by (metis option.inject)+

lemma heap_update_ok:
  assumes ok: "node_ok n" and old: "heap n p = Some s" and new: "get_id s' = get_id s"
    and pos: "position n t = Running evt p" and q: "q = Releasing p \<and> any_inv s' \<or> q = Removing i"
  shows "node_ok (goto t q (n\<lparr>heap := (heap n)(p \<mapsto> s'), node_world := w\<rparr>))" (is "node_ok ?n")
proof -
  have holder: "lock_holder n p = Some t" and lt: "p < next_ptr n"
    using ok lock_partD(1,2) [of n t p] pos by (simp_all add: node_ok_def)
  have tab: "table_part n" using ok by (simp add: node_ok_def)
  have "table_part ?n"
    unfolding table_part_def
  proof (intro allI impI)
    fix j r assume "ptr_table ?n j = Some r"
    then have j: "ptr_table n j = Some r" by simp
    then show "r \<notin> set (done_ptrs ?n) \<and> (\<exists>s. heap ?n r = Some s \<and> get_id s = j)"
      using table_partD [OF tab j] old new by auto
  qed
  moreover have "heap_part ?n"
    unfolding heap_part_def
  proof (intro allI impI)
    fix r x assume r: "heap ?n r = Some x"
    have orph: "orphaned ?n r" if "orphaned n r" using that holder pos q by (auto simp: orphaned_iff)
    show "r < next_ptr ?n \<and> (any_inv x \<or> orphaned ?n r)"
    proof (cases "r = p")
      case True
      then show ?thesis using r q lt holder by (auto simp: orphaned_iff)
    next
      case False
      then have "heap n r = Some x" using r by simp
      then have "r < next_ptr n \<and> (any_inv x \<or> orphaned n r)" using ok by (simp add: node_ok_def heap_part_def)
      then show ?thesis using orph by auto
    qed
  qed
  moreover have "done_part ?n" using ok by (simp add: node_ok_def done_part_def)
  moreover have "lock_part ?n" using ok holder lt q by (auto simp: node_ok_def lock_part_def)
  ultimately show ?thesis by (simp add: node_ok_def)
qed

lemma store_done_ok:
  assumes ok: "node_ok n" and p: "ptr_table n i = Some p"
  shows "node_ok (store_done_ptr p (n\<lparr>ptr_table := (ptr_table n)(i := None)\<rparr>))" (is "node_ok ?n")
proof -
  let ?d = "done_ptrs n @ [p]"
  obtain s where live: "heap n p = Some s" "get_id s = i" and new: "p \<notin> set (done_ptrs n)"
    using ok p by (auto simp: node_ok_def table_part_def)
  have rest: "ptr_table n j = Some q \<Longrightarrow> j \<noteq> i \<Longrightarrow> q \<noteq> p" for j q
    using ok live table_partD(2) [of n j p s] by (auto simp: node_ok_def)
  have d: "distinct ?d" "\<forall>q \<in> set ?d. heap n q \<noteq> None" "length ?d \<le> Suc DONE_SESSION_LIST_SIZE"
    using ok new live by (auto simp: node_ok_def done_part_def)
  have sub: "\<forall>q \<in> set (tl ?d). q \<in> set ?d \<and> q \<noteq> hd ?d" using d(1) by (cases ?d) auto
  have tail: "q \<in> set (tl ?d) \<Longrightarrow> q \<in> set ?d" for q using sub by blast
  have hd: "hd ?d \<in> set ?d" by (rule hd_in_set) simp
  have "table_part ?n"
    unfolding table_part_def
  proof (intro allI impI)
    fix j q assume "ptr_table ?n j = Some q"
    then have j: "ptr_table n j = Some q" "j \<noteq> i" by (auto simp: store_done_ptr_def Let_def split: if_splits)
    then have q: "q \<notin> set ?d" using ok rest by (auto simp: node_ok_def table_part_def)
    then have "q \<noteq> hd ?d" using hd by metis
    moreover have "q \<notin> set (tl ?d)" using q tail by blast
    moreover obtain x where "heap n q = Some x" "get_id x = j" using ok j by (auto simp: node_ok_def table_part_def)
    ultimately show "q \<notin> set (done_ptrs ?n) \<and> (\<exists>s. heap ?n q = Some s \<and> get_id s = j)"
      using q by (simp add: store_done_ptr_def Let_def)
  qed
  moreover have "heap_part ?n"
    using ok unfolding node_ok_def heap_part_def by (auto simp: store_done_ptr_def Let_def orphaned_iff split: if_splits)
  moreover have "done_part ?n"
    using d sub by (auto simp: done_part_def store_done_ptr_def Let_def distinct_tl simp del: tl_append2 distinct_append set_append)
  moreover have "lock_part ?n" using ok by (auto simp: node_ok_def lock_part_def store_done_ptr_def Let_def)
  ultimately show ?thesis by (simp add: node_ok_def)
qed

lemma start_ok: "node_ok (start_node w)"
  by (simp add: node_ok_def node_parts start_node_def)

text \<open>Every step of a node that goes on keeps the invariant.\<close>

lemma running_session_valid:
  assumes "node_ok n" "position n t = Running evt p" "heap n p = Some s"
  shows "any_inv s"
proof -
  have "lock_holder n p = Some t" using assms lock_partD(2) [of n t p] by (simp add: node_ok_def)
  then have "\<not> orphaned n p" using assms(2) by (simp add: orphaned_iff)
  then show ?thesis using assms by (auto simp: node_ok_def heap_part_def)
qed

lemma thread_step_ok:
  assumes ok: "node_ok n" and step: "thread_step d t n = Some n'" and on: "stopped n' = None" "stopped n = None"
  shows "node_ok n'"
proof (cases "position n t")
  case Idle
  then show ?thesis using step by (simp add: thread_step_def)
next
  case (Lookup evt)
  have tab: "ptr_table n i = Some p \<Longrightarrow> p < next_ptr n" for i p
    using ok by (auto simp: node_ok_def heap_part_def dest: table_partD(3))
  show ?thesis using step Lookup ok tab
    by (auto simp: thread_step_def step_lookup_def intro!: goto_ok split: option.splits)
next
  case (Creating evt)
  obtain r where r: "dispatcher_create_session d evt (abs_manager n, node_world n) = Some r"
    using step Creating by (cases "dispatcher_create_session d evt (abs_manager n, node_world n)")
      (auto simp: thread_step_def step_create_def)
  obtain a mgr w where ra: "r = (a, mgr, w)" by (cases r) auto
  show ?thesis
  proof (cases a)
    case (Ok x)
    show ?thesis
    proof (cases x)
      case None
      then show ?thesis using step Creating r ra Ok ok
        by (auto simp: thread_step_def step_create_def intro!: goto_ok world_ok)
    next
      case (Some s)
      then have "node_ok (new_session s (n\<lparr>node_world := w\<rparr>))"
        using r ra Ok created_session_valid new_session_ok world_ok ok by metis
      moreover have "next_ptr n < next_ptr (new_session s (n\<lparr>node_world := w\<rparr>))" by (simp add: new_session_def)
      moreover have "n' = goto t (Locking evt (next_ptr n)) (new_session s (n\<lparr>node_world := w\<rparr>))"
        using step Creating r ra Ok Some by (auto simp: thread_step_def step_create_def)
      ultimately show ?thesis by (auto intro: goto_ok)
    qed
  qed (use step Creating r ra on in \<open>auto simp: thread_step_def step_create_def\<close>)
next
  case (Locking evt p)
  then have "lock_holder n p = None \<and> heap n p \<noteq> None \<and>
      n' = goto t (Running evt p) (n\<lparr>lock_holder := (lock_holder n)(p \<mapsto> t)\<rparr>)"
    using step on by (auto simp: thread_step_def step_lock_def with_object_def lock_acquire_def split: option.splits if_splits)
  then show ?thesis using lock_ok [OF ok] Locking by simp
next
  case (Running evt p)
  then obtain s where s: "heap n p = Some s"
    using step on by (auto simp: thread_step_def step_run_def with_object_def split: option.splits)
  have inv: "any_inv s" using running_session_valid ok Running s by blast
  obtain r s' w where proc: "process d evt (s, node_world n) = (r, s', w)"
    by (cases "process d evt (s, node_world n)") auto
  have same: "get_id s' = get_id s" using any_machine.proc_ident [OF inv proc] by simp
  have n': "n' = goto t (case r of Ok _ \<Rightarrow> Releasing p | _ \<Rightarrow> Removing (get_id s'))
      (n\<lparr>heap := (heap n)(p \<mapsto> s'), node_world := w\<rparr>)" "\<forall>f. r \<noteq> Crash f"
    using step Running s proc on by (auto simp: thread_step_def step_run_def with_object_def split: outcome.splits)
  have "any_inv s'" if "r = Ok u" for u using any_machine.proc_inv [OF inv] proc that by simp
  then show ?thesis unfolding n'(1)
    by (intro heap_update_ok [OF ok s same Running]) (use n'(2) in \<open>auto split: outcome.splits\<close>)
next
  case (Releasing p)
  then show ?thesis using step on release_ok [OF ok Releasing]
    by (auto simp: thread_step_def step_release_def with_object_def split: option.splits)
next
  case (Finishing p)
  then show ?thesis using step on ok
    by (auto simp: thread_step_def step_finish_def with_object_def intro!: goto_ok split: option.splits if_splits)
next
  case (Removing i)
  then show ?thesis using step on store_done_ok [OF ok]
    by (auto simp: thread_step_def remove_ptr_def intro!: goto_ok split: option.splits if_splits)
qed

lemma node_step_ok:
  assumes "node_step d n n'" "node_ok n" "stopped n' = None"
  shows "node_ok n'"
  using assms(1)
proof cases
  case (answer_event t evt)
  then show ?thesis using assms(2,3)
    by (auto simp: answer_def intro: world_ok split: option.splits outcome.splits prod.splits)
next
  case (run_thread t)
  then show ?thesis using thread_step_ok assms(2,3) by blast
qed (use assms in \<open>auto intro: goto_ok\<close>)

lemma node_step_running: "node_step d n n' \<Longrightarrow> stopped n = None"
  by (auto elim: node_stepE)

lemma node_steps_ok:
  assumes "node_steps d n n'" "node_ok n" "stopped n' = None"
  shows "node_ok n'"
  using assms
proof (induction rule: node_steps.induct)
  case (steps_step n n' n'')
  then show ?case by (metis node_step_ok node_step_running)
qed simp

section \<open>Schedules\<close>

text \<open>A schedule names the thread of each step; it ends when the node stops.\<close>

fun schedule :: "'m dispatcher \<Rightarrow> thread list \<Rightarrow> 'm node \<Rightarrow> 'm node option" where
  "schedule d [] n = Some n"
| "schedule d (t # ts) n =
     (if stopped n \<noteq> None then None else case thread_step d t n of None \<Rightarrow> None | Some n' \<Rightarrow> schedule d ts n')"

lemma node_steps_trans: "node_steps d n1 n2 \<Longrightarrow> node_steps d n n1 \<Longrightarrow> node_steps d n n2"
  by (induction rule: node_steps.induct) (auto intro: node_steps.intros)

lemma node_step_steps: "node_step d n n' \<Longrightarrow> node_steps d n n'"
  by (blast intro: node_steps.intros)

lemma schedule_steps: "schedule d ts n = Some n' \<Longrightarrow> node_steps d n n'"
proof (induction ts arbitrary: n)
  case (Cons t ts)
  then obtain m where m: "stopped n = None" "thread_step d t n = Some m" "schedule d ts m = Some n'"
    by (auto split: if_splits option.splits)
  then have "node_step d n m" by (auto intro: node_step.run_thread)
  then show ?case using Cons.IH [OF m(3)] node_steps_trans node_step_steps by metis
qed (simp add: steps_refl)

lemma take_then:
  assumes "stopped n = None" "position n t = Idle" "for_session evt" "node_steps d (goto t (Lookup evt) n) n'"
  shows "node_steps d n n'"
  using node_steps_trans [OF assms(4) node_step_steps [OF node_step.take_event [OF assms(1-3)]]] .

lemmas step_defs = thread_step_def step_lookup_def step_create_def step_lock_def step_run_def step_release_def
  step_finish_def with_object_def lock_acquire_def lock_release_def remove_ptr_def

section \<open>Agreement with the sequential dispatcher\<close>

lemma abs_frames [simp]:
  "abs_manager (goto t q n) = abs_manager n" "abs_manager (n\<lparr>lock_holder := h\<rparr>) = abs_manager n"
  "abs_manager (n\<lparr>node_world := w\<rparr>) = abs_manager n"
  by (simp_all add: abs_manager_def cong: option.case_cong)

lemma abs_new_session:
  assumes "node_ok n"
  shows "abs_manager (new_session s n) = add_session s (abs_manager n)"
proof -
  have live: "p < next_ptr n" if "heap n p \<noteq> None" for p using assms that by (auto simp: node_ok_def heap_part_def)
  have "\<forall>p \<in> set (done_ptrs n). p \<noteq> next_ptr n"
    using assms live less_irrefl unfolding node_ok_def done_part_def by metis
  moreover have "p \<noteq> next_ptr n" if "ptr_table n i = Some p" for i p
    using table_partD(3) [of n i p] that live assms by (auto simp: node_ok_def)
  ultimately show ?thesis
    by (auto simp: abs_manager_def add_session_def new_session_def fun_eq_iff split: option.splits)
qed

lemma abs_update:
  assumes "node_ok n" "ptr_table n i = Some p" "heap n p = Some s" "get_id s' = i"
  shows "abs_manager (n\<lparr>heap := (heap n)(p \<mapsto> s'), node_world := w\<rparr>) = add_session s' (abs_manager n)"
proof -
  have tab: "table_part n" using assms(1) by (simp add: node_ok_def)
  have "q \<noteq> p" if "ptr_table n j = Some q" "j \<noteq> i" for j q
    using table_partD(2) [OF tab that(1), of s] table_partD(2) [OF tab assms(2) assms(3)] assms(3) that(2) by auto
  moreover have "\<forall>q \<in> set (done_ptrs n). q \<noteq> p" using table_partD(1) [OF tab assms(2)] by auto
  ultimately show ?thesis using assms(2,4)
    by (auto simp: abs_manager_def add_session_def fun_eq_iff split: option.splits)
qed

lemma abs_remove:
  assumes "node_ok n" "ptr_table n i = Some p"
  shows "remove_session i (abs_manager n, w) =
    (Ok (), abs_manager (store_done_ptr p (n\<lparr>ptr_table := (ptr_table n)(i := None)\<rparr>)), w)"
proof -
  have tab: "table_part n" using assms(1) by (simp add: node_ok_def)
  obtain s where s: "heap n p = Some s" "get_id s = i" using table_partD(3) [OF tab assms(2)] by blast
  let ?d = "done_ptrs n @ [p]"
  have dis: "distinct ?d" using assms(1) table_partD(1) [OF tab assms(2)] by (simp add: node_ok_def done_part_def)
  have hd: "hd ?d \<in> set ?d" by (rule hd_in_set) simp
  have out: "q \<noteq> hd ?d" if "ptr_table n j = Some q" "j \<noteq> i" for j q
  proof -
    have "q \<noteq> p" using table_partD(2) [OF tab that(1), of s] s that(2) by auto
    then have "q \<notin> set ?d" using table_partD(1) [OF tab that(1)] by simp
    then show ?thesis using hd by metis
  qed
  have "map (\<lambda>q. the (((heap n)(hd ?d := None)) q)) (tl ?d) = map (\<lambda>q. the (heap n q)) (tl ?d)"
    using dis by (cases ?d) auto
  moreover have "tl (map (\<lambda>q. the (heap n q)) ?d) = map (\<lambda>q. the (heap n q)) (tl ?d)" by (rule map_tl [symmetric])
  ultimately show ?thesis using assms(2) s out
    by (auto simp: remove_session_def abs_manager_def store_session_asdone_def store_done_ptr_def Let_def fun_eq_iff
        split: option.splits)
qed

lemma run_refines:
  assumes ok: "node_ok n" and on: "stopped n = None" and t: "position n t = Locking evt p"
    and idle: "\<forall>u. u \<noteq> t \<longrightarrow> position n u = Idle" and p: "ptr_table n i = Some p" "heap n p = Some s"
    and free: "\<forall>j q. ptr_table n j = Some q \<longrightarrow> lock_holder n q = None"
    and run: "run_session d evt s (abs_manager n, node_world n) = (r, mgr', w')"
  obtains n' where "node_steps d n n'" "node_world n' = w'" "\<forall>e. r \<noteq> Throw e" "\<And>f. r = Crash f \<Longrightarrow> stopped n' = Some f"
    "r = Ok () \<Longrightarrow> stopped n' = None \<and> (\<forall>u. position n' u = Idle) \<and> abs_manager n' = mgr' \<and>
       (\<forall>j q. ptr_table n' j = Some q \<longrightarrow> lock_holder n' q = None)"
proof -
  have tab: "table_part n" using ok by (simp add: node_ok_def)
  have id: "get_id s = i" using table_partD(2) [OF tab p] .
  have lock: "lock_holder n p = None" using free p by blast
  then have inv: "any_inv s" using heap_partD ok p(2) by (auto simp: node_ok_def)
  obtain pr s' w1 where proc: "process d evt (s, node_world n) = (pr, s', w1)"
    by (cases "process d evt (s, node_world n)") auto
  have id': "get_id s' = i" using any_machine.proc_ident [OF inv proc] id by simp
  define n1 where "n1 = goto t (Running evt p) (n\<lparr>lock_holder := (lock_holder n)(p \<mapsto> t)\<rparr>)"
  have s1: "thread_step d t n = Some n1" using t p lock by (simp add: step_defs n1_def)
  have on1: "stopped n1 = None" and ok1: "node_ok n1"
    using thread_step_ok [OF ok s1] on by (simp_all add: n1_def)
  define n2 where "n2 q = goto t q (n1\<lparr>heap := (heap n1)(p \<mapsto> s'), node_world := w1\<rparr>)" for q
  have abs2: "abs_manager (n2 q) = add_session s' (abs_manager n)" for q
    unfolding n2_def abs_frames(1) by (subst abs_update [OF ok1, of i p s]) (use p id' in \<open>simp_all add: n1_def\<close>)
  have run1: "thread_step d t n1 = (case pr of Ok _ \<Rightarrow> Some (n2 (Releasing p)) | Throw e \<Rightarrow> Some (n2 (Removing i))
      | Crash f \<Rightarrow> Some (stop f (n1\<lparr>heap := (heap n1)(p \<mapsto> s'), node_world := w1\<rparr>)))"
    using p proc id' by (simp add: step_defs n1_def n2_def split: outcome.splits)
  have tab2: "ptr_table (n2 q) = ptr_table n" "heap (n2 q) = (heap n)(p \<mapsto> s')" "stopped (n2 q) = None"
    "node_world (n2 q) = w1" "lock_holder (n2 q) = (lock_holder n)(p \<mapsto> t)" "position (n2 q) u = (if u = t then q else position n u)" for q u
    using on by (simp_all add: n2_def n1_def)
  have other: "ptr_table n j = Some q \<Longrightarrow> j \<noteq> i \<Longrightarrow> q \<noteq> p" for j q
    using table_partD(2) [OF tab, of j q s] p id by auto
  show ?thesis
  proof (cases pr)
    case (Crash f)
    have two: "schedule d [t, t] n = Some (stop f (n1\<lparr>heap := (heap n1)(p \<mapsto> s'), node_world := w1\<rparr>))"
      using s1 run1 on on1 Crash by simp
    moreover have "r = Crash f" "w' = w1" using run proc Crash by (simp_all add: run_session_def)
    ultimately show ?thesis by (intro that [OF schedule_steps [OF two]]) simp_all
  next
    case (Throw e)
    define n3 where "n3 = goto t Idle (store_done_ptr p ((n2 (Removing i))\<lparr>ptr_table := (ptr_table n)(i := None)\<rparr>))"
    have three: "schedule d [t, t, t] n = Some n3"
      using s1 run1 on on1 Throw tab2 p(1) by (simp add: thread_step_def remove_ptr_def n3_def)
    have "node_ok (n2 (Removing i))"
      using thread_step_ok [OF ok1, of d t] run1 Throw on1 tab2 by simp
    then have "remove_session i (add_session s' (abs_manager n), w1) = (Ok (), abs_manager n3, w1)"
      using abs_remove [of "n2 (Removing i)" i p w1] p(1) tab2 abs2 by (simp add: n3_def)
    then have "r = Ok ()" "mgr' = abs_manager n3" "w' = w1" using run proc Throw id' by (simp_all add: run_session_def)
    moreover have "stopped n3 = None" "node_world n3 = w1" "\<And>u. position n3 u = Idle"
      "\<And>j q. ptr_table n3 j = Some q \<Longrightarrow> lock_holder n3 q = None"
      using tab2 idle other free by (auto simp: n3_def store_done_ptr_def Let_def split: if_splits)
    ultimately show ?thesis by (intro that [OF schedule_steps [OF three]]) auto
  next
    case (Ok u)
    define n3 where "n3 q = goto t q (lock_release p (n2 (Releasing p)))" for q
    have abs3: "abs_manager (n3 q) = add_session s' (abs_manager n)" for q
      by (simp add: n3_def lock_release_def abs2)
    have tab3: "ptr_table (n3 q) = ptr_table n" "heap (n3 q) = (heap n)(p \<mapsto> s')" "stopped (n3 q) = None"
      "node_world (n3 q) = w1" "lock_holder (n3 q) = lock_holder n" "position (n3 q) u = (if u = t then q else position n u)" for q u
      using tab2 lock by (auto simp: n3_def lock_release_def)
    have to3: "thread_step d t (n2 (Releasing p)) = Some (n3 (Finishing p))"
      using tab2 by (simp add: thread_step_def step_release_def with_object_def n3_def)
    have to4: "thread_step d t (n3 (Finishing p)) = Some (n3 (if is_final s' then Removing i else Idle))"
      using tab3 id' by (simp add: thread_step_def step_finish_def with_object_def) (simp add: n3_def goto_def)
    have four: "schedule d [t, t, t, t] n = Some (n3 (if is_final s' then Removing i else Idle))"
      using s1 run1 on on1 Ok to3 to4 tab2 tab3 by simp
    show ?thesis
    proof (cases "is_final s'")
      case False
      have "r = Ok ()" "mgr' = abs_manager (n3 Idle)" "w' = w1" using run proc Ok False abs3 by (simp_all add: run_session_def)
      then show ?thesis using False tab3 idle free by (intro that [OF schedule_steps [OF four]]) auto
    next
      case True
      define n4 where "n4 = goto t Idle (store_done_ptr p ((n3 (Removing i))\<lparr>ptr_table := (ptr_table n)(i := None)\<rparr>))"
      have five: "schedule d [t, t, t, t, t] n = Some n4"
        using s1 run1 on on1 Ok to3 to4 tab2 tab3 True p(1) by (simp add: thread_step_def remove_ptr_def n4_def)
      have "node_ok (n3 (Removing i))"
        using node_steps_ok [OF schedule_steps [OF four] ok] tab3 True by simp
      then have "remove_session i (add_session s' (abs_manager n), w1) = (Ok (), abs_manager n4, w1)"
        using abs_remove [of "n3 (Removing i)" i p w1] p(1) tab3 abs3 by (simp add: n4_def)
      then have "r = Ok ()" "mgr' = abs_manager n4" "w' = w1" using run proc Ok True id' by (simp_all add: run_session_def)
      moreover have "stopped n4 = None" "node_world n4 = w1" "\<And>u. position n4 u = Idle"
        "\<And>j q. ptr_table n4 j = Some q \<Longrightarrow> lock_holder n4 q = None"
        using tab3 idle free by (auto simp: n4_def store_done_ptr_def Let_def split: if_splits)
      ultimately show ?thesis by (intro that [OF schedule_steps [OF five]]) auto
    qed
  qed
qed

definition quiet :: "'m node \<Rightarrow> bool" where
  "quiet n = (node_ok n \<and> stopped n = None \<and> (\<forall>t. position n t = Idle) \<and>
     (\<forall>i p. ptr_table n i = Some p \<longrightarrow> lock_holder n p = None))"

text \<open>Where a run of one thread may end for an outcome of the sequential dispatcher.\<close>

definition agrees :: "'m node \<Rightarrow> (exn, unit) outcome \<times> 'm session_manager \<times> 'm world \<Rightarrow> bool" where
  "agrees n = (\<lambda>(r, mgr, w). node_world n = w \<and> (case r of
       Ok _ \<Rightarrow> quiet n \<and> abs_manager n = mgr
     | Throw e \<Rightarrow> False
     | Crash f \<Rightarrow> stopped n = Some f))"

lemma found_session_refines:
  assumes "node_ok n" "stopped n = None" "position n t = Locking evt p" "\<forall>u. u \<noteq> t \<longrightarrow> position n u = Idle"
    "ptr_table n i = Some p" "heap n p = Some s" "\<forall>j q. ptr_table n j = Some q \<longrightarrow> lock_holder n q = None"
  shows "\<exists>n'. node_steps d n n' \<and> agrees n' (run_session d evt s (abs_manager n, node_world n))"
proof -
  obtain r mgr' w' where run: "run_session d evt s (abs_manager n, node_world n) = (r, mgr', w')"
    by (cases "run_session d evt s (abs_manager n, node_world n)") auto
  obtain n' where n': "node_steps d n n'" "node_world n' = w'" "\<forall>e. r \<noteq> Throw e" "\<And>f. r = Crash f \<Longrightarrow> stopped n' = Some f"
    "r = Ok () \<Longrightarrow> stopped n' = None \<and> (\<forall>u. position n' u = Idle) \<and> abs_manager n' = mgr' \<and>
       (\<forall>j q. ptr_table n' j = Some q \<longrightarrow> lock_holder n' q = None)"
    using run_refines [OF assms run] by blast
  then have "agrees n' (r, mgr', w')"
    using node_steps_ok [OF n'(1) assms(1)] by (auto simp: agrees_def quiet_def split: outcome.splits)
  then show ?thesis using n'(1) run by auto
qed

text \<open>The session that a creating step makes is the one of the sequential dispatcher.\<close>

lemma create_agrees:
  assumes "dispatcher_create_session d evt (mgr, w) = Some (Ok (Some s), mgr', w')"
  shows "mgr' = add_session s mgr"
  using assms by (auto simp: dispatcher_create_session_def create_ni_session_def create_nf_session_def
      create_nr_session_def Let_def deref_def split: if_splits option.splits prod.splits)

lemma create_none_agrees:
  assumes "dispatcher_create_session d evt (mgr, w) = Some (r, mgr', w')" "r = Ok None \<or> r = Crash f"
  shows "mgr' = mgr \<and> w' = w"
  using assms by (auto simp: dispatcher_create_session_def create_ni_session_def create_nf_session_def
      create_nr_session_def Let_def deref_def split: if_splits option.splits prod.splits)

lemma create_never_throws:
  "dispatcher_create_session d evt (mgr, w) \<noteq> Some (Throw e, mgr', w')"
  by (auto simp: dispatcher_create_session_def create_ni_session_def create_nf_session_def
      create_nr_session_def Let_def deref_def split: if_splits option.splits prod.splits)

lemma event_refines:
  assumes q: "quiet n" and run: "dispatcher_process d evt (abs_manager n, node_world n) = Some r"
  shows "\<exists>n'. node_steps d n n' \<and> agrees n' r"
proof (cases "for_session evt")
  case False
  obtain a mgr w where r: "r = (a, mgr, w)" by (cases r) auto
  have mgr: "mgr = abs_manager n" "\<forall>e. a \<noteq> Throw e" "\<And>f. a = Crash f \<Longrightarrow> w = node_world n"
    using run False r by (auto simp: dispatcher_process_def for_session_def send_receive_answer_def
        split: if_splits option.splits deref_splits)
  define n' where "n' = (case a of Ok _ \<Rightarrow> n\<lparr>node_world := w\<rparr> | Throw e \<Rightarrow> n | Crash f \<Rightarrow> stop f n)"
  have "answer d evt n = Some n'" using run r mgr(2) by (simp add: answer_def n'_def split: outcome.splits)
  then have "node_step d n n'" using q False by (auto simp: quiet_def intro: node_step.answer_event)
  moreover have "agrees n' r"
    using q mgr r by (auto simp: agrees_def quiet_def n'_def world_ok split: outcome.splits)
  ultimately show ?thesis using node_step_steps by blast
next
  case True
  have found: "\<exists>f. find_session d evt (abs_manager n, node_world n) = Some f \<and> r = call f (process_found d evt)"
    using run True by (auto simp: dispatcher_process_def for_session_def split: option.splits)
  let ?t = "0 :: nat"
  let ?n = "goto ?t (Lookup evt) n"
  have parts: "node_ok n" "stopped n = None" "position n u = Idle" for u using q by (simp_all add: quiet_def)
  have free: "ptr_table n j = Some p \<Longrightarrow> lock_holder n p = None" for j p using q by (simp add: quiet_def)
  have start: "node_steps d ?n n' \<Longrightarrow> node_steps d n n'" for n' by (rule take_then) (simp_all add: parts True)
  have ok0: "node_ok (goto ?t x n)" if "holds_lock x = None" "\<And>p. pointer_of x = Some p \<Longrightarrow> p < next_ptr n" for x
    using goto_ok [OF parts(1)] that .
  have moved: "goto ?t x (goto ?t y m) = goto ?t x m" for x y and m :: "'a node" by (simp add: goto_def)
  have moved_world: "goto ?t x ((goto ?t y m)\<lparr>node_world := node_world m\<rparr>) = goto ?t x m" for x y and m :: "'a node"
    by (simp add: goto_def)
  show ?thesis
  proof (cases "case ev_sid evt of None \<Rightarrow> None | Some i \<Rightarrow> ptr_table n i")
    case (Some p)
    then obtain i where i: "ev_sid evt = Some i" "ptr_table n i = Some p" by (auto split: option.splits)
    then obtain s where s: "heap n p = Some s" using table_partD(3) parts(1) by (fastforce simp: node_ok_def)
    let ?l = "goto ?t (Locking evt p) n"
    have "schedule d [?t] ?n = Some ?l" using i parts by (simp add: thread_step_def step_lookup_def moved)
    moreover have "r = run_session d evt s (abs_manager n, node_world n)"
      using found i s by (auto simp: find_session_def get_session_def abs_manager_def process_found_def)
    moreover have "node_ok ?l" using s parts(1) by (intro ok0) (auto simp: node_ok_def heap_part_def)
    then obtain n' where "node_steps d ?l n'" "agrees n' (run_session d evt s (abs_manager n, node_world n))"
      using found_session_refines [of ?l ?t evt p i s d] parts i s free by auto
    ultimately show ?thesis using start node_steps_trans schedule_steps by metis
  next
    case None
    let ?c = "goto ?t (Creating evt) n"
    have look: "schedule d [?t] ?n = Some ?c"
      using None parts by (cases "ev_sid evt") (simp_all add: thread_step_def step_lookup_def moved)
    have to_c: "node_steps d ?c n' \<Longrightarrow> node_steps d n n'" for n'
      using start node_steps_trans schedule_steps [OF look] by blast
    have "(case ev_sid evt of None \<Rightarrow> None | Some i \<Rightarrow> get_session i (abs_manager n)) = None"
      using None by (auto simp: get_session_def abs_manager_def split: option.splits)
    then obtain a mgr w where cr: "dispatcher_create_session d evt (abs_manager n, node_world n) = Some (a, mgr, w)"
      "r = call (a, mgr, w) (process_found d evt)"
      using found by (auto simp: find_session_def)
    show ?thesis
    proof (cases a)
      case (Ok x)
      show ?thesis
      proof (cases x)
        case None
        have "schedule d [?t] ?c = Some (goto ?t Idle n)"
          using cr Ok None parts create_none_agrees [OF cr(1), of undefined]
          by (simp add: thread_step_def step_create_def moved_world)
        moreover have "goto ?t Idle n = n" using parts(3) by (simp add: goto_def fun_upd_idem)
        ultimately have "node_steps d ?c n" using schedule_steps by metis
        moreover have "agrees n r"
          using cr Ok None create_none_agrees [OF cr(1), of undefined] q by (simp add: process_found_def agrees_def)
        ultimately show ?thesis using to_c by blast
      next
        case (Some s)
        let ?m = "new_session s (n\<lparr>node_world := w\<rparr>)"
        let ?l = "goto ?t (Locking evt (next_ptr n)) ?m"
        have okm: "node_ok ?m" using new_session_ok created_session_valid cr(1) Ok Some world_ok parts(1) by metis
        have "schedule d [?t] ?c = Some ?l"
          using cr Ok Some parts by (simp add: thread_step_def step_create_def goto_new)
        moreover have "r = run_session d evt s (abs_manager ?m, w)"
          using cr Ok Some create_agrees abs_new_session [OF world_ok [OF parts(1)]] by (fastforce simp: process_found_def)
        moreover have "node_ok ?l" by (rule goto_ok [OF okm]) simp_all
        moreover have "lock_holder n (next_ptr n) = None"
          using parts(1) lock_partD(3) [of n "next_ptr n"] by (cases "lock_holder n (next_ptr n)") (auto simp: node_ok_def)
        then have "ptr_table ?l j = Some q \<Longrightarrow> lock_holder ?l q = None" for j q
          using free by (auto split: if_splits)
        then obtain n' where "node_steps d ?l n'" "agrees n' (run_session d evt s (abs_manager ?m, w))"
          using found_session_refines [of ?l ?t evt "next_ptr n" "get_id s" s d] parts \<open>node_ok ?l\<close>
          by auto
        ultimately show ?thesis using to_c node_steps_trans schedule_steps by metis
      qed
    next
      case (Throw e)
      then show ?thesis using cr create_never_throws by metis
    next
      case (Crash f)
      have "schedule d [?t] ?c = Some (stop f ?c)" using cr Crash parts by (simp add: thread_step_def step_create_def)
      moreover have "agrees (stop f ?c) r" using cr Crash create_none_agrees [OF cr(1), of f] by (simp add: agrees_def)
      ultimately show ?thesis using to_c schedule_steps by metis
    qed
  qed
qed

lemma events_refine:
  assumes "quiet n" "dispatch_all d evts (abs_manager n, node_world n) = Some r"
  shows "\<exists>n'. node_steps d n n' \<and> agrees n' r"
  using assms
proof (induction evts arbitrary: n)
  case Nil
  then show ?case using steps_refl by (fastforce simp: agrees_def)
next
  case (Cons evt evts)
  then obtain a mgr w where step: "dispatcher_process d evt (abs_manager n, node_world n) = Some (a, mgr, w)"
    by (auto split: option.splits)
  then obtain n1 where n1: "node_steps d n n1" "agrees n1 (a, mgr, w)" using event_refines [OF Cons.prems(1)] by blast
  show ?case
  proof (cases a)
    case (Ok u)
    then have "quiet n1" "dispatch_all d evts (abs_manager n1, node_world n1) = Some r"
      using n1 Cons.prems(2) step by (auto simp: agrees_def)
    then show ?thesis using Cons.IH n1(1) node_steps_trans by metis
  qed (use n1 Cons.prems(2) step in auto)
qed

lemma start_quiet: "quiet (start_node w)" "abs_manager (start_node w) = empty_manager" "node_world (start_node w) = w"
  by (simp_all add: quiet_def start_ok) (simp_all add: start_node_def abs_manager_def empty_manager_def)

text \<open>
  C14: the node with its pointers, locks and steps implements the sequential model of the dispatcher: any sequence of
  events that the sequential dispatcher processes from the empty table is a run of the node that ends
  with the same output and, seen through the pointers, the same sessions, or stops for the same reason.
\<close>

theorem node_implements_dispatcher:
  assumes "dispatch_all d evts (empty_manager, w) = Some (r, mgr, w')"
  shows "\<exists>n. node_steps d (start_node w) n \<and> node_world n = w' \<and>
    (case r of Ok _ \<Rightarrow> stopped n = None \<and> (\<forall>t. position n t = Idle) \<and> abs_manager n = mgr
     | Throw e \<Rightarrow> False
     | Crash f \<Rightarrow> stopped n = Some f)"
proof -
  obtain n where "node_steps d (start_node w) n" "agrees n (r, mgr, w')"
    using events_refine [OF start_quiet(1), of d evts w "(r, mgr, w')"] assms by (auto simp: start_quiet)
  then show ?thesis by (auto simp: agrees_def quiet_def split: outcome.splits)
qed

section \<open>What holds in every interleaving\<close>

text \<open>
  C13: in every interleaving of any number of threads no two of them process the same session, a session that
  processes an event is in a valid state, the table holds live sessions under their own ids, and the
  list of finished sessions is bounded, without duplicates and without a session that is still in the table.
\<close>

theorem interleavings_keep_node:
  assumes "node_steps d (start_node w) n" "stopped n = None"
  shows "(\<forall>t u p. holds_lock (position n t) = Some p \<and> holds_lock (position n u) = Some p \<longrightarrow> t = u) \<and>
    (\<forall>t evt p s. position n t = Running evt p \<and> heap n p = Some s \<longrightarrow> any_inv s) \<and>
    (\<forall>i p. ptr_table n i = Some p \<longrightarrow> (\<exists>s. heap n p = Some s \<and> get_id s = i) \<and> p \<notin> set (done_ptrs n)) \<and>
    distinct (done_ptrs n) \<and> length (done_ptrs n) \<le> DONE_SESSION_LIST_SIZE"
proof -
  have ok: "node_ok n" using node_steps_ok [OF assms(1) start_ok assms(2)] .
  then have parts: "table_part n" "lock_part n" "done_part n" by (simp_all add: node_ok_def)
  have "t = u" if "holds_lock (position n t) = Some p" "holds_lock (position n u) = Some p" for t u p
    using lock_partD(2) [OF parts(2)] that by (metis option.inject)
  moreover have "any_inv s" if "position n t = Running evt p" "heap n p = Some s" for t evt p s
    using running_session_valid [OF ok that] .
  moreover have "(\<exists>s. heap n p = Some s \<and> get_id s = i) \<and> p \<notin> set (done_ptrs n)" if "ptr_table n i = Some p" for i p
    using table_partD(1,3) [OF parts(1) that] by blast
  ultimately show ?thesis using parts(3) unfolding done_part_def by blast
qed

section \<open>The lock after an exception\<close>

lemma thread_step_position:
  assumes "thread_step d t n = Some n'" "u \<noteq> t"
  shows "position n' u = position n u"
  using assms by (auto simp: step_defs store_done_ptr_def Let_def new_session_def
      split: position.splits option.splits prod.splits outcome.splits if_splits)

lemma orphan_kept:
  assumes "node_step d n n'" "node_ok n" "orphaned n p"
  shows "orphaned n' p \<and> (\<forall>u evt. position n u = Locking evt p \<longrightarrow> position n' u = Locking evt p)"
  using assms(1)
proof cases
  case (take_event t evt)
  then show ?thesis using assms(3) by (auto simp: orphaned_goto)
next
  case (answer_event t evt)
  then show ?thesis using assms(3)
    by (auto simp: answer_def orphaned_iff split: option.splits outcome.splits prod.splits)
next
  case (run_thread t)
  obtain h where h: "lock_holder n p = Some h" "holds_lock (position n h) \<noteq> Some p" using assms(3) by (auto simp: orphaned_iff)
  have mine: "holds_lock (position n u) \<noteq> Some p" for u
    using h lock_partD(2) [of n u p] assms(2) by (auto simp: node_ok_def)
  have "lock_holder n' p = Some h \<and> holds_lock (position n' t) \<noteq> Some p \<and>
      (\<forall>evt. position n t = Locking evt p \<longrightarrow> position n' t = Locking evt p)"
    using run_thread(2) h(1) mine [of t]
    by (auto simp: step_defs store_done_ptr_def Let_def new_session_def
        split: position.splits option.splits prod.splits outcome.splits if_splits)
  then show ?thesis using h thread_step_position [OF run_thread(2)] mine by (metis orphaned_iff)
qed

lemma orphan_forever:
  assumes "node_steps d n n'" "node_ok n" "orphaned n p"
  shows "orphaned n' p \<and> (stopped n' = None \<longrightarrow> node_ok n') \<and>
    (\<forall>u evt. position n u = Locking evt p \<longrightarrow> position n' u = Locking evt p)"
  using assms
proof (induction rule: node_steps.induct)
  case (steps_step n n' n'')
  then have "node_ok n'" "orphaned n' p" using node_step_running [OF steps_step(2)] by auto
  then show ?case using orphan_kept [OF steps_step(2)] node_step_ok [OF steps_step(2)] steps_step by blast
qed simp

text \<open>
  C23: when a session throws, its lock is never released: from then on no thread processes an event of this session,
  and a thread that waits for the lock, because it had looked the session up before, waits for ever.
\<close>

theorem exception_keeps_lock:
  assumes "node_steps d (start_node w) n" "stopped n = None" "position n t = Running evt p" "heap n p = Some s"
    and "process d evt (s, node_world n) = (Throw e, s', w')"
  shows "\<exists>n1. thread_step d t n = Some n1 \<and> position n1 t = Removing (get_id s') \<and>
    (\<forall>n2. node_steps d n1 n2 \<and> stopped n2 = None \<longrightarrow>
       (\<forall>u. holds_lock (position n2 u) \<noteq> Some p) \<and>
       (\<forall>u x. position n1 u = Locking x p \<longrightarrow> position n2 u = Locking x p \<and> thread_step d u n2 \<in> {None, Some (stop Use_after_free n2)}))"
proof -
  let ?n = "goto t (Removing (get_id s')) (n\<lparr>heap := (heap n)(p \<mapsto> s'), node_world := w'\<rparr>)"
  have ok: "node_ok n" using node_steps_ok [OF assms(1) start_ok assms(2)] .
  have step: "thread_step d t n = Some ?n" using assms(3-5) by (simp add: thread_step_def step_run_def with_object_def)
  then have ok1: "node_ok ?n" using thread_step_ok [OF ok] assms(2) by simp
  have orph: "orphaned ?n p" using lock_partD(2) [of n t p] ok assms(3) by (simp add: node_ok_def orphaned_iff)
  have "(\<forall>u. holds_lock (position n2 u) \<noteq> Some p) \<and>
      (\<forall>u x. position ?n u = Locking x p \<longrightarrow> position n2 u = Locking x p \<and> thread_step d u n2 \<in> {None, Some (stop Use_after_free n2)})"
    if "node_steps d ?n n2" "stopped n2 = None" for n2
  proof -
    have kept: "orphaned n2 p" "node_ok n2" "\<And>u x. position ?n u = Locking x p \<Longrightarrow> position n2 u = Locking x p"
      using orphan_forever [OF that(1) ok1 orph] that(2) by blast+
    then obtain h where h: "lock_holder n2 p = Some h" "holds_lock (position n2 h) \<noteq> Some p" by (auto simp: orphaned_iff)
    have "holds_lock (position n2 u) \<noteq> Some p" for u
      using h lock_partD(2) [of n2 u p] kept(2) by (auto simp: node_ok_def)
    moreover have "thread_step d u n2 \<in> {None, Some (stop Use_after_free n2)}" if "position n2 u = Locking x p" for u x
      using that h(1) by (simp add: step_defs split: option.splits)
    ultimately show ?thesis using kept(3) by blast
  qed
  then show ?thesis using step by auto
qed

section \<open>Two races\<close>

text \<open>
  C24: a race that only the interleaving shows: while one thread has created a forwarder session for a CREATE but
  not locked it yet, another one looks the session up for a message of another kind, locks it first, and runs off
  the end of the handler of the closed state. (Processed one after the other, no events do that: \<open>dispatcher_faults\<close>.)
\<close>

theorem creation_race_stops_node:
  fixes d :: "'m dispatcher" and evt late :: "'m event"
  assumes "node_steps d (start_node w) n" "stopped n = None" "t \<noteq> u" "position n t = Idle" "position n u = Idle"
    and "for_session evt" "is_anslp_create evt" "\<not> nf_for_this_node evt" "\<not> nf_is_edge (conf d)" "ev_sid evt = Some i"
    and "for_session late" "ev_sid late = Some i" "msg_with Anslp_create late = None" "ptr_table n i = None"
  shows "\<exists>n'. node_steps d n n' \<and> stopped n' = Some Missing_return"
proof -
  have ok: "node_ok n" using node_steps_ok [OF assms(1) start_ok assms(2)] .
  have lock: "lock_holder n (next_ptr n) = None"
    using ok lock_partD(3) [of n "next_ptr n"] by (cases "lock_holder n (next_ptr n)") (auto simp: node_ok_def)
  have no_api: "\<not> is_api_create evt" using assms(7) by (auto simp: event_pred_defs is_anslp_create_def split: event_data.splits)
  obtain s wl where made: "dispatcher_create_session d evt (abs_manager n, node_world n) =
      Some (Ok (Some (Nf s)), add_session (Nf s) (abs_manager n), wl)" "nf_state s = Nf_close" "sess_id s = i"
    using assms(7-10) no_api
    by (auto simp: dispatcher_create_session_def create_nf_session_def new_nf_session_def Let_def)
  define n1 where "n1 = goto t (Locking evt (next_ptr n)) (new_session (Nf s) (n\<lparr>node_world := wl\<rparr>))"
  have one: "schedule d [t, t] (goto t (Lookup evt) n) = Some n1"
    using assms(2,10,14) made by (simp add: step_defs n1_def goto_new)
  have stops: "process d late (Nf s, node_world n1) = (Crash Missing_return, Nf s, node_world n1)"
    using assms(13) made(2) by (simp add: process_def nf_process_event_def nf_handle_def nf_handle_state_close_def)
  have "\<exists>n'. schedule d [u, u, u] (goto u (Lookup late) n1) = Some n' \<and> stopped n' = Some Missing_return"
    using assms(2,3,12) made(3) lock stops by (simp add: step_defs n1_def get_id_def)
  then obtain n' where two: "schedule d [u, u, u] (goto u (Lookup late) n1) = Some n'" "stopped n' = Some Missing_return" by blast
  have "node_steps d n1 n'"
    by (rule take_then [OF _ _ assms(11) schedule_steps [OF two(1)]]) (use assms(2,3,5) in \<open>simp_all add: n1_def\<close>)
  moreover have "node_steps d n n1" by (rule take_then [OF assms(2,4,6) schedule_steps [OF one]])
  ultimately show ?thesis using two(2) node_steps_trans by blast
qed

text \<open>
  C25: when two threads have looked up the same session, both their events are processed and the session is
  final after each of them, both threads remove it: the second removal finds no session and goes through
  a null pointer while it holds the lock of the table.
\<close>

theorem double_removal_stops_node:
  assumes "node_steps d (start_node w) n" "stopped n = None" "t \<noteq> u" "position n t = Idle" "position n u = Idle"
    and "for_session evt" "ev_sid evt = Some i" "for_session late" "ev_sid late = Some i"
    and "ptr_table n i = Some p" "heap n p = Some s" "lock_holder n p = None"
    and "process d evt (s, node_world n) = (Ok a, sa, wa)" "process d late (sa, wa) = (Ok b, sb, wb)" "is_final sb"
  shows "\<exists>n'. node_steps d n n' \<and> stopped n' = Some Null_deref"
proof -
  have ok: "node_ok n" using node_steps_ok [OF assms(1) start_ok assms(2)] .
  have id: "get_id s = i" using table_partD(2) [of n i p s] ok assms(10,11) by (simp add: node_ok_def)
  have inv: "any_inv s" using ok assms(11,12) heap_partD [of n p s] by (simp add: node_ok_def)
  have id1: "get_id sa = i" using any_machine.proc_ident [OF inv assms(13)] id by simp
  have id2: "get_id sb = i"
    using any_machine.proc_ident [OF any_machine.proc_inv [OF inv assms(13)] assms(14)] id1 by simp
  let ?n0 = "goto u (Lookup late) (goto t (Lookup evt) n)"
  have "\<exists>n'. schedule d [t, u, t, t, t, u, u, u] ?n0 = Some n' \<and> heap n' p = Some sb \<and> position n' t = Finishing p \<and>
      position n' u = Finishing p \<and> stopped n' = None \<and> ptr_table n' i = Some p"
    using assms by (simp add: step_defs)
  then obtain n1 where n1: "schedule d [t, u, t, t, t, u, u, u] ?n0 = Some n1" "heap n1 p = Some sb"
    "position n1 t = Finishing p" "position n1 u = Finishing p" "stopped n1 = None" "ptr_table n1 i = Some p" by blast
  have "\<exists>n'. schedule d [t, u, t, u] n1 = Some n' \<and> stopped n' = Some Null_deref"
    using n1 assms(3,15) id2 by (simp add: step_defs store_done_ptr_def Let_def)
  then obtain n' where n': "schedule d [t, u, t, u] n1 = Some n'" "stopped n' = Some Null_deref" by blast
  have "node_steps d ?n0 n'" using node_steps_trans [OF schedule_steps [OF n'(1)] schedule_steps [OF n1(1)]] .
  then have "node_steps d (goto t (Lookup evt) n) n'"
    by (rule take_then [OF _ _ assms(8), rotated 2]) (use assms(2,3,5) in simp_all)
  then have "node_steps d n n'" by (rule take_then [OF assms(2,4,6)])
  then show ?thesis using n'(2) by blast
qed

end
