(* ===== verification/Worker_Examples.thy ===== *)
theory Worker_Examples
  imports Worker_Properties Examples
begin

text \<open>
  The properties of concurrent threads at concrete inputs: a node whose thread 2 has just created a receiver session
  for a CREATE and not locked it yet.
\<close>

definition ex_nr_event :: "mri \<Rightarrow> nat event" where
  "ex_nr_event r = ex_event (ex_msg r (ex_create 30 8 sme_first))"

definition ex_fresh_nr :: "nat any_session" where
  "ex_fresh_nr = Nr (new_nr_session ex_id default_config 0 7)"

definition ex_created :: "mri \<Rightarrow> nat node" where
  "ex_created r = goto 2 (Locking (ex_nr_event r) 0)
     (new_session ex_fresh_nr ((start_node ex_world)\<lparr>node_world := ex_world\<lparr>randoms_made := 1\<rparr>\<rparr>))"

lemma ex_nr_event_facts:
  "for_session (ex_nr_event r)" "ev_sid (ex_nr_event r) = Some ex_id" "is_anslp_create (ex_nr_event r)"
  "\<not> is_api_create (ex_nr_event r)" "nf_for_this_node (ex_nr_event r)"
  "msg_with Anslp_create (ex_nr_event r) = Some (ex_msg r (ex_create 30 8 sme_first), ex_create 30 8 sme_first)"
  by (simp_all add: ex_nr_event_def for_session_def event_pred_defs ex_event_def nf_for_this_node_def ex_facts)

lemma ex_start: "stopped (start_node w) = None" "position (start_node w) t = Idle" "ptr_table (start_node w) i = None"
  "next_ptr (start_node w) = 0" "lock_holder (start_node w) p = None" "node_world (start_node w) = w"
  by (simp_all add: start_node_def)

lemma ex_created_steps: "node_steps ex_disp (start_node ex_world) (ex_created r)"
proof (rule take_then [OF _ _ ex_nr_event_facts(1) [of r], of _ 2])
  have "schedule ex_disp [2, 2] (goto 2 (Lookup (ex_nr_event r)) (start_node ex_world)) = Some (ex_created r)"
    by (simp add: step_defs ex_start ex_nr_event_facts ex_created_def dispatcher_create_session_def create_nr_session_def
        ex_fresh_nr_def goto_new Let_def ex_plat_def) (simp add: ex_world_def)
  then show "node_steps ex_disp (goto 2 (Lookup (ex_nr_event r)) (start_node ex_world)) (ex_created r)"
    by (rule schedule_steps)
qed (simp_all add: ex_start)

lemma ex_created_sel:
  "stopped (ex_created r) = None" "ptr_table (ex_created r) = [ex_id \<mapsto> 0]" "heap (ex_created r) = [0 \<mapsto> ex_fresh_nr]"
  "lock_holder (ex_created r) = Map.empty" "node_world (ex_created r) = ex_world\<lparr>randoms_made := 1\<rparr>"
  "position (ex_created r) t = (if t = 2 then Locking (ex_nr_event r) 0 else Idle)"
  by (simp_all add: ex_created_def ex_fresh_nr_def start_node_def)

text \<open>A REFRESH reaches the closed receiver session and is ignored; the session is final.\<close>

definition ex_late :: "nat event" where
  "ex_late = ex_event (ex_msg ex_route (ex_refresh 30 8))"

lemma ex_late_facts: "for_session ex_late" "ev_sid ex_late = Some ex_id" "msg_with Anslp_create ex_late = None"
  by (simp_all add: ex_late_def for_session_def event_pred_defs ex_event_def ex_facts)

lemma ex_fresh_ignores: "process d ex_late (ex_fresh_nr, w) = (Ok (), ex_fresh_nr, w)" "is_final ex_fresh_nr"
  by (simp_all add: process_def ex_fresh_nr_def nr_process_event_def nr_handle_def nr_handle_state_close_def
      ex_late_facts is_final_def nr_is_final_def new_nr_session_def)

theorem double_removal_stops_node_witness:
  "\<exists>n'. node_steps ex_disp (ex_created ex_route) n' \<and> stopped n' = Some Null_deref"
  by (rule double_removal_stops_node [OF ex_created_steps, where t = 0 and u = 1 and evt = ex_late and late = ex_late
        and i = ex_id and p = 0 and s = ex_fresh_nr and sa = ex_fresh_nr and sb = ex_fresh_nr])
    (simp_all add: ex_created_sel ex_late_facts ex_fresh_ignores)

theorem creation_race_stops_node_witness:
  "\<exists>n'. node_steps ex_disp (start_node ex_world) n' \<and> stopped n' = Some Missing_return"
  by (rule creation_race_stops_node [OF steps_refl _ _ _ _ _ _ _ _ _ ex_late_facts, where t = 0 and u = 1
        and evt = "\<lparr>ev_sid = Some ex_id, ev_data = Msg_event (ex_msg ex_route (ex_create 30 8 sme_first)) False\<rparr>"])
    (simp_all add: ex_start for_session_def event_pred_defs nf_for_this_node_def ex_facts)

theorem exception_keeps_lock_witness:
  "\<exists>n n1. node_steps ex_disp (start_node ex_world) n \<and> position n 2 = Running (ex_nr_event (Mri_other 0)) 0 \<and>
     thread_step ex_disp 2 n = Some n1 \<and> (\<forall>n2. node_steps ex_disp n1 n2 \<and> stopped n2 = None \<longrightarrow>
       (\<forall>u. holds_lock (position n2 u) \<noteq> Some 0))"
proof -
  let ?n = "goto 2 (Running (ex_nr_event (Mri_other 0)) 0)
    ((ex_created (Mri_other 0))\<lparr>lock_holder := [0 \<mapsto> 2]\<rparr>)"
  have "schedule ex_disp [2] (ex_created (Mri_other 0)) = Some ?n"
    by (simp add: step_defs ex_created_sel)
  then have reach: "node_steps ex_disp (start_node ex_world) ?n"
    by (rule node_steps_trans [OF schedule_steps ex_created_steps])
  have escapes: "post (\<lambda>_ _. False) (\<lambda>_ _. True) (\<lambda>_ _. False)
      (nr_process_event ex_disp (ex_nr_event (Mri_other 0)) (new_nr_session ex_id default_config 0 7, w))" for w
    by (simp add: nr_process_event_def nr_handle_def nr_handle_state_close_def Let_def post_nr_try_setup
        nr_setup_session_def wp word_neq_0_conv new_nr_session_def ex_nr_event_facts as_pathcoupled_def ex_facts)
  have thrown: "\<exists>e s' w'. nr_process_event ex_disp (ex_nr_event (Mri_other 0)) (new_nr_session ex_id default_config 0 7, w) =
      (Throw e, s', w')" for w
    using escapes [of w]
    by (cases "nr_process_event ex_disp (ex_nr_event (Mri_other 0)) (new_nr_session ex_id default_config 0 7, w)" rule: call_cases) auto
  have "\<exists>e s' w'. process ex_disp (ex_nr_event (Mri_other 0)) (ex_fresh_nr, w) = (Throw e, s', w')" for w
    using thrown [of w] by (auto simp: process_def ex_fresh_nr_def)
  then obtain e s' w' where out: "process ex_disp (ex_nr_event (Mri_other 0)) (ex_fresh_nr, node_world ?n) = (Throw e, s', w')" by blast
  have on: "stopped ?n = None" and obj: "heap ?n 0 = Some ex_fresh_nr" by (simp_all add: ex_created_sel)
  have run: "position ?n 2 = Running (ex_nr_event (Mri_other 0)) 0" by simp
  obtain n1 where "thread_step ex_disp 2 ?n = Some n1"
    "\<forall>n2. node_steps ex_disp n1 n2 \<and> stopped n2 = None \<longrightarrow> (\<forall>u. holds_lock (position n2 u) \<noteq> Some 0)"
    using exception_keeps_lock [OF reach on run obj out] by blast
  with reach run show ?thesis by blast
qed

text \<open>Thread 2 runs the session, nobody else does.\<close>

theorem interleavings_keep_node_witness:
  "\<exists>n. node_steps ex_disp (start_node ex_world) n \<and> position n 2 = Running (ex_nr_event ex_route) 0 \<and>
     (\<forall>u. holds_lock (position n u) = Some 0 \<longrightarrow> u = 2)"
proof -
  let ?n = "goto 2 (Running (ex_nr_event ex_route) 0) ((ex_created ex_route)\<lparr>lock_holder := [0 \<mapsto> 2]\<rparr>)"
  have "schedule ex_disp [2] (ex_created ex_route) = Some ?n" by (simp add: step_defs ex_created_sel)
  then have reach: "node_steps ex_disp (start_node ex_world) ?n"
    by (rule node_steps_trans [OF schedule_steps ex_created_steps])
  have on: "stopped ?n = None" by (simp add: ex_created_sel)
  have run: "position ?n 2 = Running (ex_nr_event ex_route) 0" by simp
  then have "holds_lock (position ?n 2) = Some 0" by simp
  then have "\<forall>u. holds_lock (position ?n u) = Some 0 \<longrightarrow> u = 2"
    using interleavings_keep_node [OF reach on, THEN conjunct1] by blast
  with reach run show ?thesis by blast
qed

theorem node_implements_dispatcher_witness:
  "\<exists>n. node_steps ex_disp (start_node ex_world) n \<and> node_world n = ex_world \<and> stopped n = Some Assert_failed"
proof -
  have "dispatch_all ex_disp [ex_late, ex_late\<lparr>ev_sid := None\<rparr>] (empty_manager, ex_world) =
      Some (Crash Assert_failed, empty_manager, ex_world)"
    by (simp add: dispatcher_process_def ex_late_def ex_event_def event_pred_defs find_session_def get_session_def
        empty_manager_def dispatcher_create_session_def ex_facts process_found_def)
  from node_implements_dispatcher [OF this] show ?thesis by simp
qed

end
