(* ===== verification/C_Numbers.thy ===== *)
theory C_Numbers
  imports Platform
begin

text \<open>
  The functions of the C library with which the source turns text into numbers, and the printed numbers that
  they read back. \<open>strtoul\<close> is used with base 0: it skips white space, takes a sign, recognises the prefixes of
  octal and hexadecimal numbers, reads digits as long as there are any and gives the value as an
  \<open>unsigned long\<close> (64 bits here, as on the platforms of the daemon) together with the text it has not used.
  \<open>strtol\<close> and \<open>atoi\<close> read decimal numbers. \<open>c_str\<close> cuts a string at its first zero character.
\<close>

section \<open>Reading a number\<close>

definition is_space :: "char \<Rightarrow> bool" where
  "is_space c = (let n = of_char c :: nat in n = 32 \<or> 9 \<le> n \<and> n \<le> 13)"

definition digit_value :: "char \<Rightarrow> nat option" where
  "digit_value c = (let n = of_char c :: nat in
     if 48 \<le> n \<and> n \<le> 57 then Some (n - 48)
     else if 97 \<le> n \<and> n \<le> 122 then Some (n - 87)
     else if 65 \<le> n \<and> n \<le> 90 then Some (n - 55)
     else None)"

definition is_digit :: "nat \<Rightarrow> char \<Rightarrow> bool" where
  "is_digit b c = (case digit_value c of None \<Rightarrow> False | Some v \<Rightarrow> v < b)"

fun read_digits :: "nat \<Rightarrow> nat \<Rightarrow> string \<Rightarrow> nat \<times> string" where
  "read_digits b n [] = (n, [])"
| "read_digits b n (c # cs) =
     (if is_digit b c then read_digits b (n * b + the (digit_value c)) cs else (n, c # cs))"

definition number_sign :: "string \<Rightarrow> bool \<times> string" where
  "number_sign s = (case s of
       c # cs \<Rightarrow> if c = CHR ''-'' then (True, cs) else if c = CHR ''+'' then (False, cs) else (False, s)
     | [] \<Rightarrow> (False, s))"

definition number_base :: "string \<Rightarrow> nat \<times> string" where
  "number_base s =
     (if length s \<ge> 3 \<and> s ! 0 = CHR ''0'' \<and> (s ! 1 = CHR ''x'' \<or> s ! 1 = CHR ''X'') \<and> is_digit 16 (s ! 2)
      then (16, drop 2 s)
      else if s \<noteq> [] \<and> hd s = CHR ''0'' then (8, s)
      else (10, s))"

definition strtoul :: "string \<Rightarrow> 64 word \<times> string" where
  "strtoul s =
     (case number_sign (dropWhile is_space s) of (neg, s1) \<Rightarrow>
        case number_base s1 of (b, s2) \<Rightarrow>
          if s2 = [] \<or> \<not> is_digit b (hd s2) then (0, s)
          else (case read_digits b 0 s2 of (n, rest) \<Rightarrow>
                  (if n \<ge> 2 ^ 64 then - 1 else if neg then - of_nat n else of_nat n, rest)))"

definition c_str :: "string \<Rightarrow> string" where
  "c_str s = takeWhile (\<lambda>c. of_char c \<noteq> (0::nat)) s"

text \<open>
  \<open>strtoimax\<close> with base 10: the value, whether it was in range, and the unused text, which is the whole text when
  there is no digit. \<open>atoi\<close> converts the value to an \<open>int\<close>, a word here.
\<close>

definition clamp64 :: "int \<Rightarrow> int" where
  "clamp64 v = max (- (2 ^ 63)) (min (2 ^ 63 - 1) v)"

definition strtol :: "string \<Rightarrow> int \<times> bool \<times> string" where
  "strtol s =
     (case number_sign (dropWhile is_space s) of (neg, s1) \<Rightarrow>
        if s1 = [] \<or> \<not> is_digit 10 (hd s1) then (0, True, s)
        else (case read_digits 10 0 s1 of (n, rest) \<Rightarrow>
                let v = (if neg then - int n else int n) in (clamp64 v, clamp64 v = v, rest)))"

definition atoi :: "string \<Rightarrow> u32" where
  "atoi s = word_of_int (fst (strtol (c_str s)))"

text \<open>\<open>sprintf\<close> with \<open>%d\<close> of an \<open>int\<close>.\<close>

definition int_decimal :: "int \<Rightarrow> string" where
  "int_decimal i = (if i < 0 then CHR ''-'' # decimal (nat (- i)) else decimal (nat i))"

section \<open>Decimal numbers\<close>

definition decimal_digit :: "char \<Rightarrow> bool" where
  "decimal_digit c = (48 \<le> (of_char c :: nat) \<and> of_char c \<le> (57 :: nat))"

lemma of_char_digit: "d < 10 \<Longrightarrow> of_char (digit_char d) = (48 + d :: nat)"
  by (simp add: digit_char_def)

lemma digit_char_facts:
  assumes "d < 10"
  shows "decimal_digit (digit_char d)" "digit_value (digit_char d) = Some d"
    "digit_char d = CHR ''0'' \<longleftrightarrow> d = 0"
proof -
  show "decimal_digit (digit_char d)" "digit_value (digit_char d) = Some d"
    using assms by (simp_all add: decimal_digit_def digit_value_def of_char_digit)
  have "digit_char d = CHR ''0'' \<longleftrightarrow> of_char (digit_char d) = (of_char (CHR ''0'') :: nat)"
    by (metis of_char_eq_iff)
  then show "digit_char d = CHR ''0'' \<longleftrightarrow> d = 0" using assms by (simp only: of_char_digit) simp
qed

lemma decimal_digit_not:
  assumes "decimal_digit c"
  shows "\<not> is_space c" "c \<noteq> CHR ''.''" "c \<noteq> CHR ''-''" "c \<noteq> CHR ''+''" "c \<noteq> CHR ''x''" "c \<noteq> CHR ''X''"
    "of_char c \<noteq> (0 :: nat)"
  using assms by (auto simp: decimal_digit_def is_space_def)

lemma decimal_digit_is: "decimal_digit c \<Longrightarrow> is_digit 10 c"
  by (simp add: decimal_digit_def is_digit_def digit_value_def) arith

lemma decimal_digits: "c \<in> set (decimal n) \<Longrightarrow> decimal_digit c"
proof (induction n rule: decimal.induct)
  case (1 n)
  then show ?case by (cases "n < 10") (auto simp: decimal.simps [of n] digit_char_facts)
qed

lemma decimal_first: "\<exists>d ds. d < 10 \<and> decimal n = digit_char d # ds \<and> (d = 0 \<longleftrightarrow> n = 0)"
proof (induction n rule: decimal.induct)
  case (1 n)
  show ?case
  proof (cases "n < 10")
    case False
    then obtain d ds where "d < 10" "decimal (n div 10) = digit_char d # ds" "d = 0 \<longleftrightarrow> n div 10 = 0"
      using 1 [OF False] by auto
    then show ?thesis using False by (intro exI [of _ d] exI [of _ "ds @ [digit_char (n mod 10)]"]) (simp add: decimal.simps [of n])
  next
    case True
    then show ?thesis by (intro exI [of _ n] exI [of _ "[]"]) (simp add: decimal.simps [of n])
  qed
qed

lemma read_digits_append:
  assumes "\<forall>c \<in> set s. is_digit b c"
  shows "read_digits b n (s @ t) = read_digits b (fst (read_digits b n s)) t \<and> snd (read_digits b n s) = []"
  using assms by (induction s arbitrary: n) auto

lemma read_decimal: "read_digits 10 0 (decimal n) = (n, [])"
proof (induction n rule: decimal.induct)
  case (1 n)
  have digits: "\<forall>c \<in> set (decimal m). is_digit 10 c" for m
    using decimal_digits [of _ m] decimal_digit_is by blast
  show ?case
  proof (cases "n < 10")
    case False
    then show ?thesis
      using 1 read_digits_append [OF digits, where n = 0 and t = "[digit_char (n mod 10)]", of "n div 10"]
      by (simp add: decimal.simps [of n] is_digit_def digit_char_facts)
  qed (simp add: decimal.simps [of n] is_digit_def digit_char_facts)
qed

lemma strtoul_decimal:
  assumes "n < 2 ^ 64"
  shows "strtoul (decimal n) = (of_nat n, [])"
proof -
  obtain d ds where d: "d < 10" "decimal n = digit_char d # ds" "d = 0 \<longleftrightarrow> n = 0"
    using decimal_first by blast
  then have c: "decimal_digit (digit_char d)" by (simp add: digit_char_facts)
  have "dropWhile is_space (decimal n) = decimal n" using d c by (simp add: decimal_digit_not)
  moreover have "number_sign (decimal n) = (False, decimal n)"
    using d c by (simp add: number_sign_def decimal_digit_not)
  moreover have "number_base (decimal n) = (if n = 0 then 8 else 10, decimal n)"
    using d by (auto simp: number_base_def digit_char_facts decimal.simps [of 0])
  ultimately show ?thesis
    using assms d read_decimal [of n] by (auto simp: strtoul_def is_digit_def digit_char_facts decimal.simps [of 0])
qed

lemma c_str_decimal: "c_str (decimal n) = decimal n"
  unfolding c_str_def using decimal_digits decimal_digit_not(7) by (intro takeWhile_eq_all_conv [THEN iffD2]) blast

lemma dot_not_decimal: "CHR ''.'' \<notin> set (decimal n)"
  using decimal_digits decimal_digit_not(2) by blast

lemma number_sign_decimal: "number_sign (dropWhile is_space (decimal n)) = (False, decimal n)"
proof -
  obtain d ds where d: "d < 10" "decimal n = digit_char d # ds" using decimal_first by blast
  then have "decimal_digit (digit_char d)" by (simp add: digit_char_facts)
  then show ?thesis using d by (simp add: number_sign_def decimal_digit_not)
qed

lemma strtol_int_decimal: "\<bar>i\<bar> < 2 ^ 63 \<Longrightarrow> strtol (int_decimal i) = (i, True, [])"
proof -
  assume i: "\<bar>i\<bar> < 2 ^ 63"
  obtain d ds where d: "d < 10" "decimal (nat \<bar>i\<bar>) = digit_char d # ds" using decimal_first by blast
  then have c: "is_digit 10 (hd (decimal (nat \<bar>i\<bar>)))" "decimal (nat \<bar>i\<bar>) \<noteq> []"
    by (simp_all add: digit_char_facts decimal_digit_is)
  show ?thesis
  proof (cases "i < 0")
    case True
    have "number_sign (dropWhile is_space (int_decimal i)) = (True, decimal (nat \<bar>i\<bar>))"
      using True by (simp add: int_decimal_def is_space_def number_sign_def Let_def)
    then show ?thesis using True i c by (simp add: strtol_def read_decimal clamp64_def Let_def)
  next
    case False
    have "number_sign (dropWhile is_space (int_decimal i)) = (False, decimal (nat \<bar>i\<bar>))"
      using False number_sign_decimal by (simp add: int_decimal_def)
    then show ?thesis using False i c by (simp add: strtol_def read_decimal clamp64_def Let_def)
  qed
qed

lemma c_str_int_decimal: "c_str (int_decimal i) = int_decimal i"
  using c_str_decimal by (simp add: int_decimal_def c_str_def)

lemma atoi_int_decimal: "\<bar>i\<bar> < 2 ^ 63 \<Longrightarrow> atoi (int_decimal i) = word_of_int i"
  by (simp only: atoi_def c_str_int_decimal strtol_int_decimal fst_conv)

lemma decimal_int: "decimal n = int_decimal (int n)"
  by (simp add: int_decimal_def)

lemma number_base_decimal: "number_base (decimal n) = (if n = 0 then 8 else 10, decimal n)"
proof -
  obtain d ds where "d < 10" "decimal n = digit_char d # ds" "d = 0 \<longleftrightarrow> n = 0" using decimal_first by blast
  then show ?thesis by (auto simp: number_base_def digit_char_facts decimal.simps [of 0])
qed

lemma strtoul_int_decimal:
  assumes "\<bar>i\<bar> < 2 ^ 64"
  shows "strtoul (int_decimal i) = (word_of_int i, [])"
proof (cases "i < 0")
  case True
  let ?n = "nat (- i)"
  have n: "?n \<noteq> 0" "?n < 2 ^ 64" using True assms by (simp_all add: nat_less_iff)
  have "number_sign (dropWhile is_space (int_decimal i)) = (True, decimal ?n)"
    using True by (simp add: int_decimal_def is_space_def number_sign_def Let_def)
  moreover have "decimal ?n \<noteq> []" "is_digit 10 (hd (decimal ?n))"
    using decimal_first [of ?n] by (auto simp: digit_char_facts decimal_digit_is)
  moreover have "(of_nat ?n :: 64 word) = - word_of_int i"
  proof -
    have "(of_nat ?n :: 64 word) = of_int (int ?n)" by (simp only: of_int_of_nat_eq)
    also have "int ?n = - i" using True by simp
    finally show ?thesis by simp
  qed
  ultimately show ?thesis using n number_base_decimal [of ?n] by (simp add: strtoul_def read_decimal not_le)
next
  case False
  then have "int_decimal i = decimal (nat i)" "nat i < 2 ^ 64" using assms by (simp_all add: int_decimal_def nat_less_iff)
  then show ?thesis using strtoul_decimal [of "nat i"] False by simp
qed

end
