(* ===== verification/Session_Id_Text.thy ===== *)
theory Session_Id_Text
  imports C_Numbers Ntlp_Msg
begin

text \<open>
  The text form of session ids: the string constructor of \<open>src/src/session_id.cpp\<close>, which
  reads what \<open>to_string\<close> writes.
\<close>

section \<open>The constructor\<close>

text \<open>
  One part: the number goes to the next element of \<open>parts[5]\<close>, whether it is valid or not, and is checked
  afterwards. The list holds the elements written so far.
\<close>

definition store_part :: "string \<Rightarrow> 64 word list \<Rightarrow> (64 word list \<Rightarrow> (exn, 'a) outcome) \<Rightarrow> (exn, 'a) outcome" where
  "store_part part parts k =
     (case strtoul (c_str part) of (n, rest) \<Rightarrow>
        if length parts \<ge> 5 then Crash Buffer_overflow
        else if part = [] \<or> rest \<noteq> [] then Throw (Request_error 0 0)
        else k (parts @ [n]))"

text \<open>
  The loop: \<open>rest\<close> is the text from \<open>init\<close> on. After the last dot \<open>found\<close> is \<open>npos\<close>, so that
  \<open>found + 1\<close> is 0: a text without a dot is read twice from its start.
\<close>

function id_loop :: "string \<Rightarrow> 64 word list \<Rightarrow> (exn, 64 word list) outcome" where
  "id_loop rest parts =
     (let part = takeWhile (\<lambda>c. c \<noteq> CHR ''.'') rest;
          rest' = (if CHR ''.'' \<in> set rest then drop (length part + 1) rest else rest)
      in store_part part parts (\<lambda>parts.
           if CHR ''.'' \<in> set rest' then id_loop rest' parts
           else store_part rest' parts Ok))"
  by pat_completeness auto
termination by (relation "measure (\<lambda>(rest, parts). length rest)") (auto dest: length_pos_if_in_set split: if_splits)

declare id_loop.simps [simp del]

definition session_id_of_string :: "string \<Rightarrow> (exn, session_id) outcome" where
  "session_id_of_string s = (case id_loop s [] of
       Throw e \<Rightarrow> Throw e
     | Crash f \<Rightarrow> Crash f
     | Ok parts \<Rightarrow>
         if length parts = 4
         then Ok \<lparr>w1 = ucast (parts ! 0), w2 = ucast (parts ! 1), w3 = ucast (parts ! 2), w4 = ucast (parts ! 3)\<rparr>
         else Throw (Request_error 0 0))"

section \<open>Reading a printed id\<close>

lemma store_decimal:
  assumes "n < 2 ^ 64" "length parts < 5"
  shows "store_part (decimal n) parts k = k (parts @ [of_nat n])"
proof -
  have "decimal n \<noteq> []" using decimal_first [of n] by auto
  then show ?thesis using assms by (simp add: store_part_def c_str_decimal strtoul_decimal)
qed

lemma take_part: "takeWhile (\<lambda>c. c \<noteq> CHR ''.'') (decimal n @ CHR ''.'' # t) = decimal n"
  using dot_not_decimal [of n] by (subst takeWhile_append2) auto

text \<open>One round of the loop on a text that starts with a printed number and a dot.\<close>

lemma id_loop_decimal:
  assumes "n < 2 ^ 64" "length parts < 5"
  shows "id_loop (decimal n @ CHR ''.'' # t) parts =
    (if CHR ''.'' \<in> set t then id_loop t (parts @ [of_nat n]) else store_part t (parts @ [of_nat n]) Ok)"
  using assms by (subst id_loop.simps) (simp add: take_part store_decimal Let_def)

text \<open>
  The constructor reads back exactly the id that \<open>to_string\<close> printed, whatever its words are, so that the
  text names the session uniquely.
\<close>

theorem id_text_roundtrip:
  "session_id_of_string (session_id_to_string i) = Ok i"
proof -
  have small: "unat x < 2 ^ 64" for x :: u32
  proof -
    have "unat x < 4294967296" using unsigned_less [of x] by simp
    then show ?thesis by simp
  qed
  have word: "ucast (ucast x :: 64 word) = x" for x :: u32
    by (rule bit_word_eqI) (auto simp: bit_simps bit_imp_le_length)
  show ?thesis
    by (simp add: session_id_of_string_def session_id_to_string_def id_loop_decimal [OF small] store_decimal [OF small] word dot_not_decimal)
qed

corollary id_text_injective: "session_id_to_string i = session_id_to_string j \<longleftrightarrow> i = j"
  by (metis id_text_roundtrip outcome.inject(1))

section \<open>What the constructor does to any text\<close>

text \<open>
  The parts of a text, cut at every dot, and which of them can be read. The reference definition looks at
  the first five parts only, the length of the array.
\<close>

fun dot_parts :: "string \<Rightarrow> string list" where
  "dot_parts [] = [[]]"
| "dot_parts (c # cs) =
     (if c = CHR ''.'' then [] # dot_parts cs else (c # hd (dot_parts cs)) # tl (dot_parts cs))"

definition part_ok :: "string \<Rightarrow> bool" where
  "part_ok p = (p \<noteq> [] \<and> snd (strtoul (c_str p)) = [])"

definition part_word :: "string \<Rightarrow> u32" where
  "part_word p = ucast (fst (strtoul (c_str p)))"

definition id_of_parts :: "string list \<Rightarrow> (exn, session_id) outcome" where
  "id_of_parts ps =
     (if \<not> list_all part_ok (take 5 ps) then Throw (Request_error 0 0)
      else if length ps > 5 then Crash Buffer_overflow
      else case map part_word ps of
        [a, b, c, d] \<Rightarrow> Ok \<lparr>w1 = a, w2 = b, w3 = c, w4 = d\<rparr>
      | _ \<Rightarrow> Throw (Request_error 0 0))"

lemma dot_parts_nonempty [simp]: "dot_parts s \<noteq> []"
  by (induction s) auto

lemma dot_parts_none: "CHR ''.'' \<notin> set s \<Longrightarrow> dot_parts s = [s]"
  by (induction s) auto

lemma dot_parts_split:
  "CHR ''.'' \<in> set s \<Longrightarrow> dot_parts s = takeWhile (\<lambda>c. c \<noteq> CHR ''.'') s #
     dot_parts (drop (length (takeWhile (\<lambda>c. c \<noteq> CHR ''.'') s) + 1) s)"
  by (induction s) auto

text \<open>The loop as a fold over the parts.\<close>

fun store_parts :: "string list \<Rightarrow> 64 word list \<Rightarrow> (exn, 64 word list) outcome" where
  "store_parts [] parts = Ok parts"
| "store_parts (p # ps) parts = store_part p parts (store_parts ps)"

lemma id_loop_parts:
  "CHR ''.'' \<in> set s \<Longrightarrow> id_loop s parts = store_parts (dot_parts s) parts"
proof (induction s parts rule: id_loop.induct)
  case (1 rest parts)
  let ?part = "takeWhile (\<lambda>c. c \<noteq> CHR ''.'') rest"
  let ?rest = "drop (length ?part + 1) rest"
  have step: "id_loop rest parts = store_part ?part parts (\<lambda>parts.
      if CHR ''.'' \<in> set ?rest then id_loop ?rest parts else store_part ?rest parts Ok)"
    using 1(2) by (subst id_loop.simps) (simp only: Let_def if_True)
  have "(\<lambda>parts. if CHR ''.'' \<in> set ?rest then id_loop ?rest parts else store_part ?rest parts Ok) =
      store_parts (dot_parts ?rest)"
  proof
    fix ps
    have "store_parts [?rest] ps = store_part ?rest ps Ok" by (simp add: store_part_def split: prod.splits)
    then show "(if CHR ''.'' \<in> set ?rest then id_loop ?rest ps else store_part ?rest ps Ok) = store_parts (dot_parts ?rest) ps"
      using 1(1) 1(2) by (auto simp: dot_parts_none)
  qed
  then show ?case using step 1(2) by (simp add: dot_parts_split)
qed

lemma store_parts_result:
  assumes "length parts \<le> 5"
  shows "store_parts ps parts =
    (if \<not> list_all part_ok (take (5 - length parts) ps) then Throw (Request_error 0 0)
     else if length parts + length ps > 5 then Crash Buffer_overflow
     else Ok (parts @ map (\<lambda>p. fst (strtoul (c_str p))) ps))"
  using assms
proof (induction ps arbitrary: parts)
  case (Cons p ps)
  show ?case
  proof (cases "length parts = 5")
    case False
    then have "take (5 - length parts) (p # ps) = p # take (5 - length (parts @ [fst (strtoul (c_str p))])) ps"
      using Cons.prems by (simp add: take_Cons' )
    then show ?thesis
      using Cons.IH [of "parts @ [fst (strtoul (c_str p))]"] Cons.prems False
      by (auto simp: store_part_def part_ok_def split: prod.splits)
  qed (simp add: store_part_def split: prod.splits)
qed simp

lemma map_four: "length ps = 4 \<Longrightarrow> map f ps = [f (ps ! 0), f (ps ! 1), f (ps ! 2), f (ps ! 3)]"
  by (auto simp: numeral_eq_Suc length_Suc_conv)

text \<open>
  C27: the constructor agrees with the reference definition on every text: it throws at the first unreadable one of
  the first five parts, writes past the end of \<open>parts\<close> for more than five readable parts, throws for a number
  of parts other than four, and otherwise takes the four words modulo \<open>2 ^ 32\<close>.
\<close>

theorem id_text_spec: "session_id_of_string s = id_of_parts (dot_parts s)"
proof (cases "CHR ''.'' \<in> set s")
  case True
  show ?thesis
  proof (cases "length (dot_parts s) = 4")
    case True
    then show ?thesis using id_loop_parts [OF \<open>CHR ''.'' \<in> set s\<close>]
      by (simp add: session_id_of_string_def store_parts_result id_of_parts_def map_four part_word_def)
  next
    case False
    then show ?thesis using id_loop_parts [OF \<open>CHR ''.'' \<in> set s\<close>]
      by (auto simp: session_id_of_string_def store_parts_result id_of_parts_def split: list.splits)
  qed
next
  case False
  then have whole: "takeWhile (\<lambda>c. c \<noteq> CHR ''.'') s = s" by (subst takeWhile_eq_all_conv) blast
  have "id_loop s [] = store_part s [] (\<lambda>parts. store_part s parts Ok)"
    using False by (subst id_loop.simps) (simp only: whole Let_def if_False)
  then show ?thesis using False
    by (auto simp: session_id_of_string_def id_of_parts_def dot_parts_none store_part_def part_ok_def split: prod.splits)
qed

text \<open>A leading zero makes a part octal, \<open>0x\<close> hexadecimal; six parts are too many for the array.\<close>

lemma id_text_examples:
  "session_id_of_string ''010.0x1F.3.4294967297'' = Ok \<lparr>w1 = 8, w2 = 31, w3 = 3, w4 = 1\<rparr>"
  "session_id_of_string ''1.2.3.4.5.6'' = Crash Buffer_overflow"
  "session_id_of_string ''1.2.3.4.5'' = Throw (Request_error 0 0)"
  by (simp_all add: session_id_of_string_def id_loop.simps store_part_def c_str_def strtoul_def is_space_def
      number_sign_def number_base_def is_digit_def digit_value_def Let_def)

end
