(* ===== verification/Ipap_Xml.thy ===== *)
theory Ipap_Xml
  imports C_Numbers Std_Map
begin

text \<open>
  IPAP messages as XML documents: \<open>anslp_ipap_message_splitter\<close>
  (\<open>src/src/msg/anslp_ipap_message_splitter.cpp\<close>), which sorts the records of a message by the object
  they describe, \<open>xml_object_key\<close> (\<open>src/src/msg/xml_object_key.cpp\<close>), and
  \<open>anslp_ipap_xml_message\<close> (\<open>src/src/msg/anslp_ipap_xml_message.cpp\<close>), the writer and the reader.

  The classes of \<open>libipap\<close> and \<open>libxml2\<close> are not part of the program: the record \<open>ipap_lib\<close> collects
  what the source calls in them. \<open>'m\<close> is \<open>ipap_message\<close>, \<open>'t\<close> \<open>ipap_template\<close>, \<open>'d\<close>
  \<open>ipap_data_record\<close>, \<open>'v\<close> \<open>ipap_value_field\<close> and \<open>'c\<close> \<open>ipap_template_container\<close>; an \<open>ipap_field\<close> is
  represented by the \<open>ipap_field_type_t\<close> it wraps. \<open>None\<close> is the exception \<open>ipap_bad_argument\<close>, except for
  \<open>template_object\<close>, where it is the null pointer; \<open>bad_argument_is_error\<close> says whether this exception is derived from
  \<open>Error\<close>, as those of the program are. Allocating the buffer and the writer does not fail. The writer of libxml2 is the list of the calls made so far;
  \<open>writer_accepts\<close> says whether the next call returns a negative number, and \<open>buffer_text\<close> is the content of
  the buffer. A document that was parsed and validated is a list of nodes, the root first.
\<close>

section \<open>The external libraries\<close>

text \<open>What a template says of a field, and the array \<open>ipap_fields_t\<close> that templates are made from.\<close>

record ipap_field =
  fd_eno :: int
  fd_ftype :: int
  fd_coding :: int
  fd_length :: int
  fd_xml_name :: string
  fd_name :: string

record ipap_fields =
  fs_eno :: u32
  fs_ienum :: u16
  fs_length :: u16

datatype xml_call = Start_document | Start_dtd string string | End_dtd | Start_element string
  | Write_attribute string string | Write_string string | End_element

datatype xml_node = Xml_node (nd_name: string) (nd_ns: nat) (nd_attrs: "(string \<times> string) list")
    (nd_text: "string option") (nd_children: "xml_node list")

record ('m, 't, 'd, 'v, 'c) ipap_lib =
  records_of :: "'m \<Rightarrow> 'd list"
  template_object :: "u16 \<Rightarrow> 'm \<Rightarrow> 't option"
  template_list :: "'m \<Rightarrow> int list"
  last_template_id :: "'m \<Rightarrow> u16"
  domain_of :: "'m \<Rightarrow> int"
  version_of :: "'m \<Rightarrow> int"
  exporttime_of :: "'m \<Rightarrow> u32"
  seqno_of :: "'m \<Rightarrow> u32"
  ackseqno_of :: "'m \<Rightarrow> u32"
  new_message :: "int \<Rightarrow> int \<Rightarrow> 'm"
  with_numbers :: "u32 \<Rightarrow> u32 \<Rightarrow> u32 \<Rightarrow> 'm \<Rightarrow> 'm"
  make_template :: "ipap_fields list \<Rightarrow> nat \<Rightarrow> int \<Rightarrow> u16 \<Rightarrow> 'm \<Rightarrow> 'm option"
  include_data :: "u16 \<Rightarrow> 'd \<Rightarrow> 'm \<Rightarrow> 'm option"
  template_id :: "'t \<Rightarrow> u16"
  template_type :: "'t \<Rightarrow> nat"
  num_fields :: "'t \<Rightarrow> nat"
  field_at :: "'t \<Rightarrow> nat \<Rightarrow> ipap_field"
  field_of :: "'t \<Rightarrow> int \<Rightarrow> int \<Rightarrow> ipap_field option"
  record_template :: "'d \<Rightarrow> u16"
  record_entries :: "'d \<Rightarrow> ((int \<times> int) \<times> 'v) list"
  record_field :: "'d \<Rightarrow> int \<Rightarrow> int \<Rightarrow> 'v option"
  new_record :: "u16 \<Rightarrow> 'd"
  insert_field :: "int \<Rightarrow> int \<Rightarrow> 'v \<Rightarrow> 'd \<Rightarrow> 'd option"
  write_value :: "ipap_field \<Rightarrow> 'v \<Rightarrow> string option"
  parse_value :: "ipap_field \<Rightarrow> string \<Rightarrow> 'v option"
  type_keys :: "nat \<Rightarrow> (int \<times> int) list option"
  type_object :: "nat \<Rightarrow> int option"
  data_types :: "nat list"
  option_types :: "nat list"
  max_object_type :: nat
  invalid_object_type :: int
  container_empty :: 'c
  container_add :: "'t option \<Rightarrow> 'c \<Rightarrow> 'c"
  container_get :: "int \<Rightarrow> 'c \<Rightarrow> 't option"
  container_list :: "'c \<Rightarrow> int list"
  writer_accepts :: "xml_call list \<Rightarrow> xml_call \<Rightarrow> bool"
  buffer_text :: "xml_call list \<Rightarrow> string"
  parse_document :: "string \<Rightarrow> xml_node list option"
  document_ns :: nat
  garbage16 :: u16
  garbage_header :: "u32 \<times> u32 \<times> u32 \<times> u32 \<times> u32"
  garbage_fields :: ipap_fields
  bad_argument_is_error :: bool

text \<open>The exceptions: of libipap, of this program, and the base class \<open>Error\<close>.\<close>

datatype xml_exn = Ipap_bad_argument | Anslp_ipap_bad_argument | Xml_error

text \<open>
  \<open>catch (Error &e) { throw e; }\<close> throws a copy of the static type: what was caught loses its class.
\<close>

definition rethrown :: "('m, 't, 'd, 'v, 'c) ipap_lib \<Rightarrow> xml_exn \<Rightarrow> xml_exn" where
  "rethrown L e = (if e = Ipap_bad_argument \<and> \<not> bad_argument_is_error L then Ipap_bad_argument else Xml_error)"

fun rethrow :: "('m, 't, 'd, 'v, 'c) ipap_lib \<Rightarrow> (xml_exn, 'a) outcome \<Rightarrow> (xml_exn, 'a) outcome" where
  "rethrow L (Ok a) = Ok a"
| "rethrow L (Throw e) = Throw (rethrown L e)"
| "rethrow L (Crash f) = Crash f"

section \<open>Object keys\<close>

record xml_object_key =
  object_type :: int
  id_object :: string

definition string_less :: "string \<Rightarrow> string \<Rightarrow> bool" where
  "string_less a b = ((a, b) \<in> lexord {(c, e). (of_char c :: nat) < of_char e})"

text \<open>\<open>operator<\<close>, as it is written: the second part is compared also when the first type is the greater one.\<close>

fun xml_key_lt :: "xml_object_key \<Rightarrow> xml_object_key \<Rightarrow> bool" where
  "xml_key_lt a b = (if object_type a < object_type b then True else string_less (id_object a) (id_object b))"

definition default_key :: "('m, 't, 'd, 'v, 'c) ipap_lib \<Rightarrow> xml_object_key" where
  "default_key L = \<lparr>object_type = invalid_object_type L, id_object = []\<rparr>"

section \<open>The splitter\<close>

record ('d, 'c) splitter =
  unrelated :: 'c
  object_templates :: "(xml_object_key, 'c) std_map"
  object_records :: "(xml_object_key, 'd list) std_map"

definition new_splitter :: "('m, 't, 'd, 'v, 'c) ipap_lib \<Rightarrow> ('d, 'c) splitter" where
  "new_splitter L = \<lparr>unrelated = container_empty L, object_templates = [], object_records = []\<rparr>"

text \<open>The copy constructor of \<open>anslp_ipap_xml_message\<close>: the entries are assigned one by one.\<close>

definition xml_message_copy :: "('d, 'c) splitter \<Rightarrow> ('d, 'c) splitter" where
  "xml_message_copy rhs = \<lparr>unrelated = unrelated rhs, object_templates = map_rebuild xml_key_lt (object_templates rhs),
     object_records = map_rebuild xml_key_lt (object_records rhs)\<rparr>"

text \<open>The key of a record: its values for the key fields of the template type, each after a percent sign.\<close>

fun data_key :: "('m, 't, 'd, 'v, 'c) ipap_lib \<Rightarrow> 't \<Rightarrow> 'd \<Rightarrow> (int \<times> int) list \<Rightarrow> string \<Rightarrow> string option" where
  "data_key L t g [] key = Some key"
| "data_key L t g ((e, f) # ks) key =
     (case field_of L t e f of None \<Rightarrow> None
      | Some fd \<Rightarrow> (case record_field L g e f of None \<Rightarrow> None
      | Some v \<Rightarrow> (case write_value L fd v of None \<Rightarrow> None
      | Some s \<Rightarrow> data_key L t g ks (key @ ''%'' @ s))))"

definition record_key :: "('m, 't, 'd, 'v, 'c) ipap_lib \<Rightarrow> 't \<Rightarrow> 'd \<Rightarrow> xml_object_key option" where
  "record_key L t g =
     (case type_keys L (template_type L t) of None \<Rightarrow> None
      | Some ks \<Rightarrow> (case data_key L t g ks [] of None \<Rightarrow> None
      | Some key \<Rightarrow> (case type_object L (template_type L t) of None \<Rightarrow> None
      | Some ot \<Rightarrow> Some \<lparr>object_type = ot, id_object = key\<rparr>)))"

text \<open>Entering a record under its key; \<open>m[k]\<close> makes a default value for a key that is not there.\<close>

definition map_at :: "('k \<Rightarrow> 'k \<Rightarrow> bool) \<Rightarrow> 'v \<Rightarrow> 'k \<Rightarrow> ('k, 'v) std_map \<Rightarrow> 'v" where
  "map_at lt dflt k m = (case map_find lt k m of None \<Rightarrow> dflt | Some v \<Rightarrow> v)"

definition add_record :: "('m, 't, 'd, 'v, 'c) ipap_lib \<Rightarrow> xml_object_key \<Rightarrow> 't \<Rightarrow> 'd \<Rightarrow> ('d, 'c) splitter \<Rightarrow> ('d, 'c) splitter" where
  "add_record L k t g sp =
     (let ts = object_templates sp; rs = object_records sp in
      if map_find xml_key_lt k ts \<noteq> None
      then sp\<lparr>object_templates := map_insert xml_key_lt k (container_add L (Some t) (map_at xml_key_lt (container_empty L) k ts)) ts,
              object_records := map_insert xml_key_lt k (map_at xml_key_lt [] k rs @ [g]) rs\<rparr>
      else sp\<lparr>object_templates := map_insert xml_key_lt k (container_add L (Some t) (container_empty L)) ts,
              object_records := map_insert xml_key_lt k [g] rs\<rparr>)"

fun split_records :: "('m, 't, 'd, 'v, 'c) ipap_lib \<Rightarrow> 'm \<Rightarrow> 'd list \<Rightarrow> u16 set \<times> ('d, 'c) splitter
    \<Rightarrow> (xml_exn, unit) outcome \<times> u16 set \<times> ('d, 'c) splitter" where
  "split_records L m [] st = (Ok (), st)"
| "split_records L m (g # gs) (included, sp) =
     (case template_object L (record_template L g) m of
        None \<Rightarrow> (Throw Xml_error, included, sp)
      | Some t \<Rightarrow> (case record_key L t g of
          None \<Rightarrow> (Throw Xml_error, insert (record_template L g) included, sp)
        | Some k \<Rightarrow> split_records L m gs (insert (record_template L g) included, add_record L k t g sp)))"

text \<open>The templates that no record uses; the id of a template is looked up as a 16-bit number.\<close>

fun split_templates :: "('m, 't, 'd, 'v, 'c) ipap_lib \<Rightarrow> 'm \<Rightarrow> u16 set \<Rightarrow> int list \<Rightarrow> 'c \<Rightarrow> 'c" where
  "split_templates L m included [] c = c"
| "split_templates L m included (i # is) c =
     split_templates L m included is
       (if (word_of_int i :: u16) \<in> included then c else container_add L (template_object L (word_of_int i) m) c)"

definition split :: "('m, 't, 'd, 'v, 'c) ipap_lib \<Rightarrow> 'm \<Rightarrow> ('d, 'c) splitter \<Rightarrow> (xml_exn, unit) outcome \<times> ('d, 'c) splitter" where
  "split L m sp = (case split_records L m (records_of L m) ({}, sp) of
       (Ok _, included, sp) \<Rightarrow>
         (Ok (), sp\<lparr>unrelated := split_templates L m included (template_list L m) (unrelated sp)\<rparr>)
     | (Throw e, _, sp) \<Rightarrow> (Throw e, sp)
     | (Crash f, _, sp) \<Rightarrow> (Crash f, sp))"

section \<open>The writer\<close>

text \<open>\<open>anslp_constants.cpp\<close>.\<close>

definition IPAP_XML_ROOT :: string where "IPAP_XML_ROOT = ''IPAP_MESSAGE''"
definition IPAP_XML_RECORD :: string where "IPAP_XML_RECORD = ''DATARECORD''"
definition DATA_XML_ELEMENT :: string where "DATA_XML_ELEMENT = ''FIELD''"
definition OPTION_XML_ELEMENT :: string where "OPTION_XML_ELEMENT = ''FIELD''"
definition DTD_NAME :: string where "DTD_NAME = ''ipap_xml_message.dtd''"

type_synonym xml_step = "xml_call list \<Rightarrow> (xml_exn, unit) outcome \<times> xml_call list"

text \<open>One call of the writer, and a loop over a list.\<close>

definition xml_write :: "('m, 't, 'd, 'v, 'c) ipap_lib \<Rightarrow> xml_call \<Rightarrow> xml_step" where
  "xml_write L c w = (if writer_accepts L w c then (Ok (), w @ [c]) else (Throw Anslp_ipap_bad_argument, w))"

fun for_each :: "('a \<Rightarrow> xml_step) \<Rightarrow> 'a list \<Rightarrow> xml_step" where
  "for_each stp [] w = (Ok (), w)"
| "for_each stp (x # xs) w = call (stp x w) (\<lambda>_. for_each stp xs)"

text \<open>Continuing with the result of an external call that may throw \<open>ipap_bad_argument\<close>.\<close>

definition ipap_try :: "xml_exn \<Rightarrow> 'a option \<Rightarrow> ('a \<Rightarrow> xml_step) \<Rightarrow> xml_step" where
  "ipap_try e r k w = (case r of None \<Rightarrow> (Throw e, w) | Some a \<Rightarrow> k a w)"

definition createXmlMessage :: "('m, 't, 'd, 'v, 'c) ipap_lib \<Rightarrow> xml_step" where
  "createXmlMessage L w = call (xml_write L Start_document w) (\<lambda>_ w.
     call (xml_write L (Start_dtd IPAP_XML_ROOT DTD_NAME) w) (\<lambda>_. xml_write L End_dtd))"

definition writeElement :: "('m, 't, 'd, 'v, 'c) ipap_lib \<Rightarrow> string \<Rightarrow> xml_step" where
  "writeElement L element = xml_write L (Start_element element)"

definition writeFieldValue :: "('m, 't, 'd, 'v, 'c) ipap_lib \<Rightarrow> string \<Rightarrow> xml_step" where
  "writeFieldValue L v = xml_write L (Write_string (c_str v))"

definition writeAttribute :: "('m, 't, 'd, 'v, 'c) ipap_lib \<Rightarrow> string \<Rightarrow> string \<Rightarrow> xml_step" where
  "writeAttribute L tag v = xml_write L (Write_attribute tag (c_str v))"

definition createElement_id :: "('m, 't, 'd, 'v, 'c) ipap_lib \<Rightarrow> string \<Rightarrow> string \<Rightarrow> xml_step" where
  "createElement_id L element i w = call (writeElement L element w) (\<lambda>_. writeAttribute L ''ID'' i)"

definition createElement :: "('m, 't, 'd, 'v, 'c) ipap_lib \<Rightarrow> string \<Rightarrow> xml_step" where
  "createElement L element = writeElement L element"

definition closeElement :: "('m, 't, 'd, 'v, 'c) ipap_lib \<Rightarrow> xml_step" where
  "closeElement L = xml_write L End_element"

definition getTemplate :: "('m, 't, 'd, 'v, 'c) ipap_lib \<Rightarrow> ('d, 'c) splitter \<Rightarrow> xml_object_key \<Rightarrow> u16 \<Rightarrow> 't option" where
  "getTemplate L sp k i = (case map_find xml_key_lt k (object_templates sp) of
       None \<Rightarrow> None
     | Some c \<Rightarrow> container_get L (int (unat i)) c)"

definition writeField :: "('m, 't, 'd, 'v, 'c) ipap_lib \<Rightarrow> 't \<Rightarrow> string \<Rightarrow> (int \<times> int) \<times> 'v \<Rightarrow> xml_step" where
  "writeField L t element = (\<lambda>((e, f), v).
     ipap_try Ipap_bad_argument (field_of L t e f) (\<lambda>fd w.
       call (createElement L element w) (\<lambda>_ w.
       call (writeAttribute L ''NAME'' (fd_xml_name fd) w) (\<lambda>_ w.
       call (writeAttribute L ''ENO'' (int_decimal (fd_eno fd)) w) (\<lambda>_ w.
       call (writeAttribute L ''FTYPE'' (int_decimal (fd_ftype fd)) w) (\<lambda>_ w.
       ipap_try Ipap_bad_argument (write_value L fd v) (\<lambda>s w.
         call (writeFieldValue L s w) (\<lambda>_. closeElement L)) w))))))"

definition writeDataRecord :: "('m, 't, 'd, 'v, 'c) ipap_lib \<Rightarrow> 't \<Rightarrow> 'd \<Rightarrow> string \<Rightarrow> xml_step" where
  "writeDataRecord L t g element = for_each (writeField L t element) (record_entries L g)"

text \<open>One record, when its template is of one of the given types; \<open>printTemplateDataRecords\<close> and \<open>printOptionDataRecords\<close>.\<close>

definition printRecord :: "('m, 't, 'd, 'v, 'c) ipap_lib \<Rightarrow> nat list \<Rightarrow> string \<Rightarrow> ('d, 'c) splitter \<Rightarrow> xml_object_key \<Rightarrow> 'd \<Rightarrow> xml_step" where
  "printRecord L types element sp k g =
     ipap_try Anslp_ipap_bad_argument (getTemplate L sp k (record_template L g)) (\<lambda>t w.
       if template_type L t \<in> set types
       then call (createElement L IPAP_XML_RECORD w) (\<lambda>_ w.
            call (writeAttribute L ''TEMPLATE_ID'' (decimal (unat (record_template L g))) w) (\<lambda>_ w.
            call (writeDataRecord L t g element w) (\<lambda>_. closeElement L)))
       else (Ok (), w))"

definition printRecords :: "('m, 't, 'd, 'v, 'c) ipap_lib \<Rightarrow> nat list \<Rightarrow> string \<Rightarrow> ('d, 'c) splitter \<Rightarrow> xml_object_key \<Rightarrow> xml_step" where
  "printRecords L types element sp k =
     for_each (\<lambda>(k', gs). if k' = k then for_each (printRecord L types element sp k) gs else (\<lambda>w. (Ok (), w)))
       (object_records sp)"

definition printTemplateDataRecords :: "('m, 't, 'd, 'v, 'c) ipap_lib \<Rightarrow> ('d, 'c) splitter \<Rightarrow> xml_object_key \<Rightarrow> xml_step" where
  "printTemplateDataRecords L = printRecords L (data_types L) DATA_XML_ELEMENT"

definition printOptionDataRecords :: "('m, 't, 'd, 'v, 'c) ipap_lib \<Rightarrow> ('d, 'c) splitter \<Rightarrow> xml_object_key \<Rightarrow> xml_step" where
  "printOptionDataRecords L = printRecords L (option_types L) OPTION_XML_ELEMENT"

definition writeTemplateField :: "('m, 't, 'd, 'v, 'c) ipap_lib \<Rightarrow> ipap_field \<Rightarrow> xml_step" where
  "writeTemplateField L fd w =
     call (createElement L ''TFIELD'' w) (\<lambda>_ w.
     call (writeAttribute L ''ENO'' (int_decimal (fd_eno fd)) w) (\<lambda>_ w.
     call (writeAttribute L ''FTYPE'' (int_decimal (fd_ftype fd)) w) (\<lambda>_ w.
     call (writeAttribute L ''CODING'' (int_decimal (fd_coding fd)) w) (\<lambda>_ w.
     call (writeAttribute L ''LENGTH'' (int_decimal (fd_length fd)) w) (\<lambda>_ w.
     call (writeAttribute L ''XML_NAME'' (fd_xml_name fd) w) (\<lambda>_ w.
     call (writeFieldValue L (fd_name fd) w) (\<lambda>_. closeElement L)))))))"

definition writeTemplate :: "('m, 't, 'd, 'v, 'c) ipap_lib \<Rightarrow> 't \<Rightarrow> xml_step" where
  "writeTemplate L t w =
     call (createElement_id L ''TEMPLATE'' (decimal (unat (template_id L t))) w) (\<lambda>_ w.
     call (writeAttribute L ''TYPE'' (decimal (template_type L t)) w) (\<lambda>_ w.
     call (writeAttribute L ''NUM_FIELDS'' (decimal (num_fields L t)) w) (\<lambda>_ w.
     call (for_each (writeTemplateField L) (map (field_at L t) [0..<num_fields L t]) w) (\<lambda>_. closeElement L))))"

text \<open>
  All templates of all objects, each once, in the order of their ids; the object type and the keys that the function
  is given are not used. \<open>None\<close> when a container does not give a template that it lists.
\<close>

fun container_templates :: "('m, 't, 'd, 'v, 'c) ipap_lib \<Rightarrow> 'c \<Rightarrow> int list \<Rightarrow> (u16, 't) std_map \<Rightarrow> (u16, 't) std_map option" where
  "container_templates L c [] m = Some m"
| "container_templates L c (i # is) m = (case container_get L i c of
       None \<Rightarrow> None
     | Some t \<Rightarrow> container_templates L c is (map_insert (<) (word_of_int i) t m))"

fun all_templates :: "('m, 't, 'd, 'v, 'c) ipap_lib \<Rightarrow> (xml_object_key, 'c) std_map \<Rightarrow> (u16, 't) std_map \<Rightarrow> (u16, 't) std_map option" where
  "all_templates L [] m = Some m"
| "all_templates L ((k, c) # ts) m = (case container_templates L c (container_list L c) m of
       None \<Rightarrow> None
     | Some m \<Rightarrow> all_templates L ts m)"

definition writeTemplates :: "('m, 't, 'd, 'v, 'c) ipap_lib \<Rightarrow> ('d, 'c) splitter \<Rightarrow> xml_step" where
  "writeTemplates L sp =
     ipap_try Ipap_bad_argument (all_templates L (object_templates sp) []) (\<lambda>m. for_each (\<lambda>(i, t). writeTemplate L t) m)"

definition writeRecords :: "('m, 't, 'd, 'v, 'c) ipap_lib \<Rightarrow> ('d, 'c) splitter \<Rightarrow> xml_object_key list \<Rightarrow> xml_step" where
  "writeRecords L sp = for_each (\<lambda>k w.
     call (printTemplateDataRecords L sp k w) (\<lambda>_. printOptionDataRecords L sp k))"

text \<open>\<open>map::insert\<close> leaves a key that is there as it is.\<close>

definition key_insert :: "xml_object_key \<Rightarrow> (xml_object_key, xml_object_key) std_map \<Rightarrow> (xml_object_key, xml_object_key) std_map" where
  "key_insert k m = (if map_find xml_key_lt k m = None then map_insert xml_key_lt k k m else m)"

definition keys_of_type :: "int \<Rightarrow> ('d, 'c) splitter \<Rightarrow> xml_object_key list" where
  "keys_of_type ot sp =
     map fst (fold key_insert (filter (\<lambda>k. object_type k = ot) (map fst (object_records sp)))
       (fold key_insert (filter (\<lambda>k. object_type k = ot) (map fst (object_templates sp))) []))"

definition writeObjectTypeData :: "('m, 't, 'd, 'v, 'c) ipap_lib \<Rightarrow> ('d, 'c) splitter \<Rightarrow> int \<Rightarrow> xml_step" where
  "writeObjectTypeData L sp ot w =
     (let ks = keys_of_type ot sp in
      if length ks > 0 then call (writeTemplates L sp w) (\<lambda>_. writeRecords L sp ks)
      else (Ok (), w))"

definition writeNotRelatedTemplates :: "('m, 't, 'd, 'v, 'c) ipap_lib \<Rightarrow> ('d, 'c) splitter \<Rightarrow> xml_step" where
  "writeNotRelatedTemplates L sp =
     for_each (\<lambda>i. ipap_try Ipap_bad_argument (container_get L i (unrelated sp)) (writeTemplate L))
       (container_list L (unrelated sp))"

definition message_attributes :: "('m, 't, 'd, 'v, 'c) ipap_lib \<Rightarrow> 'm \<Rightarrow> (string \<times> string) list" where
  "message_attributes L m =
     [(''LAST_TEMPLATE_ID'', decimal (unat (last_template_id L m))), (''DOMAIN_ID'', int_decimal (domain_of L m)),
      (''VERSION'', int_decimal (version_of L m)), (''EXPORT_TIME'', decimal (unat (exporttime_of L m))),
      (''SEQ_NO'', decimal (unat (seqno_of L m))), (''ACK_SEQ_NO'', decimal (unat (ackseqno_of L m)))]"

definition write_document :: "('m, 't, 'd, 'v, 'c) ipap_lib \<Rightarrow> 'm \<Rightarrow> ('d, 'c) splitter \<Rightarrow> xml_step" where
  "write_document L m sp w =
     call (createXmlMessage L w) (\<lambda>_ w.
     call (createElement L IPAP_XML_ROOT w) (\<lambda>_ w.
     call (for_each (\<lambda>(tag, v). writeAttribute L tag v) (message_attributes L m) w) (\<lambda>_ w.
     call (writeNotRelatedTemplates L sp w) (\<lambda>_ w.
     call (for_each (writeObjectTypeData L sp) (map int [0..<max_object_type L]) w) (\<lambda>_. closeElement L)))))"

text \<open>The object keeps what \<open>split\<close> found; the text is the buffer after the last call.\<close>

definition get_message :: "('m, 't, 'd, 'v, 'c) ipap_lib \<Rightarrow> 'm \<Rightarrow> ('d, 'c) splitter
    \<Rightarrow> (xml_exn, string) outcome \<times> ('d, 'c) splitter" where
  "get_message L m sp = (case split L m sp of
       (Throw e, sp) \<Rightarrow> (Throw e, sp)
     | (Crash f, sp) \<Rightarrow> (Crash f, sp)
     | (Ok _, sp) \<Rightarrow> (case write_document L m sp [] of
           (Ok _, w) \<Rightarrow> (Ok (buffer_text L w), sp)
         | (Throw e, w) \<Rightarrow> (Throw e, sp)
         | (Crash f, w) \<Rightarrow> (Crash f, sp)))"

section \<open>The reader\<close>

definition xml_prop :: "string \<Rightarrow> xml_node \<Rightarrow> string" where
  "xml_prop a n = (case map_of (nd_attrs n) a of None \<Rightarrow> [] | Some v \<Rightarrow> v)"

definition is_element :: "('m, 't, 'd, 'v, 'c) ipap_lib \<Rightarrow> string \<Rightarrow> xml_node \<Rightarrow> bool" where
  "is_element L element n = (nd_name n = element \<and> nd_ns n = document_ns L)"

text \<open>\<open>None\<close> is false: the caller's variable keeps what it had.\<close>

definition str_to_uint16 :: "string \<Rightarrow> u16 option" where
  "str_to_uint16 s = (case strtol (c_str s) of (v, in_range, rest) \<Rightarrow>
     if \<not> in_range \<or> v < 0 \<or> v > 65535 \<or> rest = c_str s \<or> rest \<noteq> [] then None else Some (word_of_int v))"

definition uint16_or :: "u16 \<Rightarrow> string \<Rightarrow> u16" where
  "uint16_or g s = (case str_to_uint16 s of None \<Rightarrow> g | Some v \<Rightarrow> v)"

text \<open>
  \<open>ReadTemplateFields\<close>: the array has \<open>NUM_FIELDS\<close> elements with unknown contents; a field is written
  at the next index, whatever the size of the array is.
\<close>

definition read_tfield :: "xml_node \<Rightarrow> ipap_fields" where
  "read_tfield n =
     \<lparr>fs_eno = ucast (fst (strtoul (c_str (xml_prop ''ENO'' n)))),
      fs_ienum = ucast (fst (strtoul (c_str (xml_prop ''FTYPE'' n)))),
      fs_length = ucast (fst (strtoul (c_str (xml_prop ''LENGTH'' n))))\<rparr>"

fun ReadTemplateFields :: "('m, 't, 'd, 'v, 'c) ipap_lib \<Rightarrow> xml_node list \<Rightarrow> nat \<Rightarrow> ipap_fields list
    \<Rightarrow> (xml_exn, ipap_fields list) outcome" where
  "ReadTemplateFields L [] index arr = Ok arr"
| "ReadTemplateFields L (n # ns) index arr =
     (if is_element L ''TFIELD'' n
      then (if index < length arr
            then ReadTemplateFields L ns (index + 1) (arr[index := read_tfield n])
            else Crash Buffer_overflow)
      else ReadTemplateFields L ns index arr)"

text \<open>\<open>ReadRecords\<close>: the template may be null, which matters at the first field only.\<close>

fun read_fields :: "('m, 't, 'd, 'v, 'c) ipap_lib \<Rightarrow> 't option \<Rightarrow> xml_node list \<Rightarrow> 'd \<Rightarrow> (xml_exn, 'd) outcome" where
  "read_fields L t [] g = Ok g"
| "read_fields L t (n # ns) g =
     (if is_element L ''FIELD'' n
      then (let e = sint (atoi (xml_prop ''ENO'' n)); f = sint (atoi (xml_prop ''FTYPE'' n)) in
        case t of None \<Rightarrow> Crash Null_deref
        | Some tm \<Rightarrow> (case field_of L tm e f of None \<Rightarrow> Throw Ipap_bad_argument
        | Some fd \<Rightarrow>
            let v = (case nd_text n of None \<Rightarrow> [] | Some v \<Rightarrow> v) in
            if v = [] then Throw Anslp_ipap_bad_argument
            else (case parse_value L fd v of None \<Rightarrow> Throw Ipap_bad_argument
            | Some x \<Rightarrow> (case insert_field L e f x g of None \<Rightarrow> Throw Ipap_bad_argument
            | Some g \<Rightarrow> read_fields L t ns g))))
      else read_fields L t ns g)"

definition ReadRecords :: "('m, 't, 'd, 'v, 'c) ipap_lib \<Rightarrow> xml_node \<Rightarrow> u16 \<Rightarrow> 'm \<Rightarrow> (xml_exn, 'm) outcome" where
  "ReadRecords L n i m = rethrow L
     (case read_fields L (template_object L i m) (nd_children n) (new_record L i) of
        Throw e \<Rightarrow> Throw e
      | Crash f \<Rightarrow> Crash f
      | Ok g \<Rightarrow> (case include_data L i g m of None \<Rightarrow> Throw Ipap_bad_argument | Some m \<Rightarrow> Ok m))"

text \<open>The header: every root element found sets the variables again.\<close>

definition read_header :: "('m, 't, 'd, 'v, 'c) ipap_lib \<Rightarrow> xml_node list \<Rightarrow> u32 \<times> u32 \<times> u32 \<times> u32 \<times> u32" where
  "read_header L = (\<lambda>doc. fold (\<lambda>n h. if is_element L IPAP_XML_ROOT n
       then (atoi (xml_prop ''DOMAIN_ID'' n), atoi (xml_prop ''VERSION'' n), atoi (xml_prop ''EXPORT_TIME'' n),
             atoi (xml_prop ''SEQ_NO'' n), atoi (xml_prop ''ACK_SEQ_NO'' n))
       else h) doc (garbage_header L))"

definition read_template :: "('m, 't, 'd, 'v, 'c) ipap_lib \<Rightarrow> xml_node \<Rightarrow> 'm \<Rightarrow> (xml_exn, 'm) outcome" where
  "read_template L n m =
     (let uid = uint16_or (garbage16 L) (xml_prop ''ID'' n);
          itype = sint (atoi (xml_prop ''TYPE'' n));
          num = sint (atoi (xml_prop ''NUM_FIELDS'' n))
      in if num \<le> 0 then Throw Anslp_ipap_bad_argument
         else (case ReadTemplateFields L (nd_children n) 0 (replicate (nat num) (garbage_fields L)) of
             Throw e \<Rightarrow> Throw e
           | Crash f \<Rightarrow> Crash f
           | Ok arr \<Rightarrow> (case make_template L arr (nat num) itype uid m of
               None \<Rightarrow> Throw Ipap_bad_argument
             | Some m \<Rightarrow> Ok m)))"

fun read_templates :: "('m, 't, 'd, 'v, 'c) ipap_lib \<Rightarrow> xml_node list \<Rightarrow> 'm \<Rightarrow> (xml_exn, 'm) outcome" where
  "read_templates L [] m = Ok m"
| "read_templates L (n # ns) m =
     (if is_element L ''TEMPLATE'' n
      then (case read_template L n m of Ok m \<Rightarrow> read_templates L ns m | Throw e \<Rightarrow> Throw e | Crash f \<Rightarrow> Crash f)
      else read_templates L ns m)"

fun read_all_records :: "('m, 't, 'd, 'v, 'c) ipap_lib \<Rightarrow> xml_node list \<Rightarrow> 'm \<Rightarrow> (xml_exn, 'm) outcome" where
  "read_all_records L [] m = Ok m"
| "read_all_records L (n # ns) m =
     (if is_element L ''DATARECORD'' n
      then (case ReadRecords L n (uint16_or (garbage16 L) (xml_prop ''TEMPLATE_ID'' n)) m of
          Ok m \<Rightarrow> read_all_records L ns m | Throw e \<Rightarrow> Throw e | Crash f \<Rightarrow> Crash f)
      else read_all_records L ns m)"

definition from_message :: "('m, 't, 'd, 'v, 'c) ipap_lib \<Rightarrow> string \<Rightarrow> (xml_exn, 'm) outcome" where
  "from_message L text = rethrow L (case parse_document L text of
       None \<Rightarrow> Throw Xml_error
     | Some [] \<Rightarrow> Throw Xml_error
     | Some (root # rest) \<Rightarrow>
         (case read_header L (root # rest) of (di, ver, ext, sq, ack) \<Rightarrow>
            let m = with_numbers L sq ack ext (new_message L (sint di) (sint ver)) in
            (case read_templates L (nd_children root) m of
               Throw e \<Rightarrow> Throw e
             | Crash f \<Rightarrow> Crash f
             | Ok m \<Rightarrow> read_all_records L (nd_children root) m)))"

end
