(* ===== verification/Ipap_Xml_Properties.thy ===== *)
theory Ipap_Xml_Properties
  imports Ipap_Xml
begin

text \<open>
  What the XML form of IPAP messages promises: the calls of the writer are the traversal of a tree of
  elements, the splitter sorts every record under exactly one object, the reader rebuilds what the writer wrote, and
  what the reader does with documents that the writer never makes.
\<close>

section \<open>Documents as trees\<close>

fun node_calls :: "xml_node \<Rightarrow> xml_call list" where
  "node_calls (Xml_node n ns attrs txt cs) =
     Start_element n # map (\<lambda>(a, v). Write_attribute a (c_str v)) attrs @
     (case txt of None \<Rightarrow> [] | Some s \<Rightarrow> [Write_string (c_str s)]) @ concat (map node_calls cs) @ [End_element]"

definition nodes_calls :: "xml_node list \<Rightarrow> xml_call list" where
  "nodes_calls ns = concat (map node_calls ns)"

definition prolog :: "xml_call list" where
  "prolog = [Start_document, Start_dtd IPAP_XML_ROOT DTD_NAME, End_dtd]"

lemma nodes_calls_simps [simp]:
  "nodes_calls [] = []" "nodes_calls (n # ns) = node_calls n @ nodes_calls ns"
  "nodes_calls (ns @ ns') = nodes_calls ns @ nodes_calls ns'"
  by (simp_all add: nodes_calls_def)

text \<open>Collecting the nodes of the elements of a list, when each of them has some.\<close>

fun gather :: "('a \<Rightarrow> xml_node list option) \<Rightarrow> 'a list \<Rightarrow> xml_node list option" where
  "gather f [] = Some []"
| "gather f (x # xs) = (case f x of None \<Rightarrow> None
     | Some a \<Rightarrow> (case gather f xs of None \<Rightarrow> None | Some b \<Rightarrow> Some (a @ b)))"

definition tfield_node :: "('m, 't, 'd, 'v, 'c) ipap_lib \<Rightarrow> ipap_field \<Rightarrow> xml_node" where
  "tfield_node L fd = Xml_node ''TFIELD'' (document_ns L)
     [(''ENO'', int_decimal (fd_eno fd)), (''FTYPE'', int_decimal (fd_ftype fd)), (''CODING'', int_decimal (fd_coding fd)),
      (''LENGTH'', int_decimal (fd_length fd)), (''XML_NAME'', fd_xml_name fd)] (Some (fd_name fd)) []"

definition template_fields :: "('m, 't, 'd, 'v, 'c) ipap_lib \<Rightarrow> 't \<Rightarrow> ipap_field list" where
  "template_fields L t = map (field_at L t) [0..<num_fields L t]"

definition template_node :: "('m, 't, 'd, 'v, 'c) ipap_lib \<Rightarrow> 't \<Rightarrow> xml_node" where
  "template_node L t = Xml_node ''TEMPLATE'' (document_ns L)
     [(''ID'', decimal (unat (template_id L t))), (''TYPE'', decimal (template_type L t)),
      (''NUM_FIELDS'', decimal (num_fields L t))] None (map (tfield_node L) (template_fields L t))"

definition field_node :: "('m, 't, 'd, 'v, 'c) ipap_lib \<Rightarrow> 't \<Rightarrow> string \<Rightarrow> (int \<times> int) \<times> 'v \<Rightarrow> xml_node list option" where
  "field_node L t element = (\<lambda>((e, f), v). case field_of L t e f of None \<Rightarrow> None
     | Some fd \<Rightarrow> (case write_value L fd v of None \<Rightarrow> None
     | Some s \<Rightarrow> Some [Xml_node element (document_ns L) [(''NAME'', fd_xml_name fd),
         (''ENO'', int_decimal (fd_eno fd)), (''FTYPE'', int_decimal (fd_ftype fd))] (Some s) []]))"

definition record_node :: "('m, 't, 'd, 'v, 'c) ipap_lib \<Rightarrow> 't \<Rightarrow> string \<Rightarrow> 'd \<Rightarrow> xml_node option" where
  "record_node L t element g = map_option
     (Xml_node IPAP_XML_RECORD (document_ns L) [(''TEMPLATE_ID'', decimal (unat (record_template L g)))] None)
     (gather (field_node L t element) (record_entries L g))"

definition printed_nodes :: "('m, 't, 'd, 'v, 'c) ipap_lib \<Rightarrow> nat list \<Rightarrow> string \<Rightarrow> ('d, 'c) splitter \<Rightarrow> xml_object_key \<Rightarrow> 'd
    \<Rightarrow> xml_node list option" where
  "printed_nodes L types element sp k g = (case getTemplate L sp k (record_template L g) of None \<Rightarrow> None
     | Some t \<Rightarrow> if template_type L t \<in> set types then map_option (\<lambda>n. [n]) (record_node L t element g) else Some [])"

definition records_at :: "xml_object_key \<Rightarrow> ('d, 'c) splitter \<Rightarrow> 'd list" where
  "records_at k sp = concat (map snd (filter (\<lambda>(k', gs). k' = k) (object_records sp)))"

definition key_nodes :: "('m, 't, 'd, 'v, 'c) ipap_lib \<Rightarrow> ('d, 'c) splitter \<Rightarrow> xml_object_key \<Rightarrow> xml_node list option" where
  "key_nodes L sp k =
     (case gather (printed_nodes L (data_types L) DATA_XML_ELEMENT sp k) (records_at k sp) of None \<Rightarrow> None
      | Some a \<Rightarrow> (case gather (printed_nodes L (option_types L) OPTION_XML_ELEMENT sp k) (records_at k sp) of None \<Rightarrow> None
      | Some b \<Rightarrow> Some (a @ b)))"

definition object_nodes :: "('m, 't, 'd, 'v, 'c) ipap_lib \<Rightarrow> ('d, 'c) splitter \<Rightarrow> int \<Rightarrow> xml_node list option" where
  "object_nodes L sp ot =
     (if keys_of_type ot sp = [] then Some []
      else (case all_templates L (object_templates sp) [] of None \<Rightarrow> None
      | Some ts \<Rightarrow> (case gather (key_nodes L sp) (keys_of_type ot sp) of None \<Rightarrow> None
      | Some b \<Rightarrow> Some (map (\<lambda>(i, t). template_node L t) ts @ b))))"

definition unrelated_node :: "('m, 't, 'd, 'v, 'c) ipap_lib \<Rightarrow> 'c \<Rightarrow> int \<Rightarrow> xml_node list option" where
  "unrelated_node L c i = map_option (\<lambda>t. [template_node L t]) (container_get L i c)"

definition message_nodes :: "('m, 't, 'd, 'v, 'c) ipap_lib \<Rightarrow> ('d, 'c) splitter \<Rightarrow> xml_node list option" where
  "message_nodes L sp =
     (case gather (unrelated_node L (unrelated sp)) (container_list L (unrelated sp)) of None \<Rightarrow> None
      | Some a \<Rightarrow> (case gather (object_nodes L sp) (map int [0..<max_object_type L]) of None \<Rightarrow> None
      | Some b \<Rightarrow> Some (a @ b)))"

definition message_tree :: "('m, 't, 'd, 'v, 'c) ipap_lib \<Rightarrow> 'm \<Rightarrow> ('d, 'c) splitter \<Rightarrow> xml_node option" where
  "message_tree L m sp =
     map_option (Xml_node IPAP_XML_ROOT (document_ns L) (message_attributes L m) None) (message_nodes L sp)"

section \<open>The writer walks the tree\<close>

fun accepts_all :: "('m, 't, 'd, 'v, 'c) ipap_lib \<Rightarrow> xml_call list \<Rightarrow> xml_call list \<Rightarrow> bool" where
  "accepts_all L w [] = True"
| "accepts_all L w (c # cs) = (writer_accepts L w c \<and> accepts_all L (w @ [c]) cs)"

lemma accepts_all_append [simp]: "accepts_all L w (a @ b) \<longleftrightarrow> accepts_all L w a \<and> accepts_all L (w @ a) b"
  by (induction a arbitrary: w) auto

definition emits :: "('m, 't, 'd, 'v, 'c) ipap_lib \<Rightarrow> xml_step \<Rightarrow> xml_call list \<Rightarrow> bool" where
  "emits L stp cs = (\<forall>w. accepts_all L w cs \<longrightarrow> stp w = (Ok (), w @ cs))"

named_theorems emits_intro \<open>what the writing functions emit\<close>

lemma emits_write: "emits L (xml_write L c) [c]"
  by (simp add: emits_def xml_write_def)

lemma emits_nothing: "emits L (\<lambda>w. (Ok (), w)) []"
  by (simp add: emits_def)

lemma emits_call: "emits L s a \<Longrightarrow> emits L k b \<Longrightarrow> emits L (\<lambda>w. call (s w) (\<lambda>_. k)) (a @ b)"
  by (simp add: emits_def)

lemma emits_try: "r = Some a \<Longrightarrow> emits L (k a) cs \<Longrightarrow> emits L (ipap_try e r k) cs"
  by (simp add: emits_def ipap_try_def)

lemma emits_for_each:
  "(\<And>x. x \<in> set xs \<Longrightarrow> emits L (f x) (g x)) \<Longrightarrow> emits L (for_each f xs) (concat (map g xs))"
proof (induction xs)
  case Nil
  show ?case using emits_nothing [of L] by (simp add: emits_def)
next
  case (Cons x xs)
  have "emits L (\<lambda>w. call (f x w) (\<lambda>_. for_each f xs)) (g x @ concat (map g xs))"
    by (rule emits_call) (use Cons in auto)
  then show ?case by (simp add: emits_def)
qed

lemma emits_gather:
  assumes "\<And>x a. x \<in> set xs \<Longrightarrow> g x = Some a \<Longrightarrow> emits L (f x) (nodes_calls a)" "gather g xs = Some ns"
  shows "emits L (for_each f xs) (nodes_calls ns)"
  using assms
proof (induction xs arbitrary: ns)
  case (Cons x xs)
  obtain a b where ab: "g x = Some a" "gather g xs = Some b" "ns = a @ b"
    using Cons.prems(2) by (auto split: option.splits)
  have "emits L (\<lambda>w. call (f x w) (\<lambda>_. for_each f xs)) (nodes_calls a @ nodes_calls b)"
    by (rule emits_call) (use Cons ab in auto)
  then show ?case using ab by (simp add: emits_def)
qed (simp add: emits_def)

lemma emits_calls: "emits L stp cs \<Longrightarrow> cs = cs' \<Longrightarrow> emits L stp cs'"
  by simp

lemma emits_attribute: "emits L (writeAttribute L a v) [Write_attribute a (c_str v)]"
  by (simp add: writeAttribute_def emits_write)

lemma emits_open: "emits L (createElement L e) [Start_element e]"
  by (simp add: createElement_def writeElement_def emits_write)

lemma emits_close: "emits L (closeElement L) [End_element]"
  by (simp add: closeElement_def emits_write)

lemma emits_value: "emits L (writeFieldValue L s) [Write_string (c_str s)]"
  by (simp add: writeFieldValue_def emits_write)

lemmas emits_basic = emits_attribute emits_open emits_close emits_value

lemma emits_tfield: "emits L (writeTemplateField L fd) (node_calls (tfield_node L fd))"
  unfolding writeTemplateField_def
  by (rule emits_calls, (rule emits_call emits_basic)+) (simp add: tfield_node_def)

lemma emits_template: "emits L (writeTemplate L t) (node_calls (template_node L t))"
proof -
  have "emits L (createElement_id L n i) [Start_element n, Write_attribute ''ID'' (c_str i)]" for n i
    using emits_call [OF emits_open [of L n] emits_attribute [of L "''ID''" i]]
    by (simp add: createElement_id_def [abs_def] createElement_def)
  note [emits_intro] = this emits_tfield
  show ?thesis
    unfolding writeTemplate_def template_fields_def [symmetric]
    by (rule emits_calls, (rule emits_call emits_basic emits_intro emits_for_each)+)
      (simp add: template_node_def comp_def)
qed

lemma emits_field:
  assumes "field_node L t element x = Some ns"
  shows "emits L (writeField L t element x) (nodes_calls ns)"
proof -
  obtain e f v fd s where x: "x = ((e, f), v)" "field_of L t e f = Some fd" "write_value L fd v = Some s"
    "ns = [Xml_node element (document_ns L) [(''NAME'', fd_xml_name fd), (''ENO'', int_decimal (fd_eno fd)),
       (''FTYPE'', int_decimal (fd_ftype fd))] (Some s) []]"
    using assms by (auto simp: field_node_def split: prod.splits option.splits)
  have v: "emits L (ipap_try Ipap_bad_argument (write_value L fd v) (\<lambda>s w. call (writeFieldValue L s w) (\<lambda>_. closeElement L)))
      ([Write_string (c_str s)] @ [End_element])"
    by (rule emits_try [OF x(3) emits_call [OF emits_value emits_close]])
  show ?thesis
    unfolding writeField_def x(1) prod.case
    by (rule emits_calls, rule emits_try [OF x(2)], rule emits_call [OF emits_open emits_call [OF emits_attribute
          emits_call [OF emits_attribute emits_call [OF emits_attribute v]]]])
      (simp add: x(4))
qed

lemma emits_record:
  assumes "record_node L t element g = Some n"
  shows "emits L (\<lambda>w. call (createElement L IPAP_XML_RECORD w) (\<lambda>_ w.
      call (writeAttribute L ''TEMPLATE_ID'' (decimal (unat (record_template L g))) w) (\<lambda>_ w.
      call (writeDataRecord L t g element w) (\<lambda>_. closeElement L)))) (node_calls n)"
proof -
  obtain ns where ns: "gather (field_node L t element) (record_entries L g) = Some ns"
    "n = Xml_node IPAP_XML_RECORD (document_ns L) [(''TEMPLATE_ID'', decimal (unat (record_template L g)))] None ns"
    using assms by (auto simp: record_node_def)
  have "emits L (writeDataRecord L t g element) (nodes_calls ns)"
    unfolding writeDataRecord_def by (rule emits_gather [OF _ ns(1)]) (rule emits_field)
  then have recd: "emits L (writeDataRecord L t g element) (nodes_calls ns)" .
  show ?thesis
    by (rule emits_calls, rule emits_call [OF emits_open emits_call [OF emits_attribute emits_call [OF recd emits_close]]])
      (simp add: ns(2) nodes_calls_def)
qed

lemma emits_printed:
  assumes "printed_nodes L types element sp k g = Some ns"
  shows "emits L (printRecord L types element sp k g) (nodes_calls ns)"
proof -
  obtain t where t: "getTemplate L sp k (record_template L g) = Some t"
    using assms by (auto simp: printed_nodes_def split: option.splits)
  show ?thesis
  proof (cases "template_type L t \<in> set types")
    case True
    then obtain n where "record_node L t element g = Some n" "ns = [n]"
      using assms t by (auto simp: printed_nodes_def)
    then show ?thesis using True emits_record [of L t element g n]
      by (simp add: printRecord_def emits_try [OF t])
  next
    case False
    then have "ns = []" using assms t by (simp add: printed_nodes_def)
    then show ?thesis using False emits_nothing [of L] by (simp add: printRecord_def emits_try [OF t])
  qed
qed

lemma gather_append:
  "gather g (xs @ ys) = (case gather g xs of None \<Rightarrow> None
     | Some a \<Rightarrow> (case gather g ys of None \<Rightarrow> None | Some b \<Rightarrow> Some (a @ b)))"
  by (induction xs) (auto split: option.splits)

lemma emits_print_records:
  assumes "gather (printed_nodes L types element sp k) (records_at k sp) = Some ns"
  shows "emits L (printRecords L types element sp k) (nodes_calls ns)"
proof -
  have "emits L (for_each (\<lambda>(k', gs). if k' = k then for_each (printRecord L types element sp k) gs else (\<lambda>w. (Ok (), w))) rs)
      (nodes_calls ns)"
    if "gather (printed_nodes L types element sp k) (concat (map snd (filter (\<lambda>(k', gs). k' = k) rs))) = Some ns" for rs ns
    using that
  proof (induction rs arbitrary: ns)
    case (Cons r rs)
    obtain k' gs where r: "r = (k', gs)" by fastforce
    show ?case
    proof (cases "k' = k")
      case True
      then obtain a b where ab: "gather (printed_nodes L types element sp k) gs = Some a"
        "gather (printed_nodes L types element sp k) (concat (map snd (filter (\<lambda>(k', gs). k' = k) rs))) = Some b" "ns = a @ b"
        using Cons.prems r by (auto simp: gather_append split: option.splits)
      have "emits L (for_each (printRecord L types element sp k) gs) (nodes_calls a)"
        by (rule emits_gather [OF _ ab(1)]) (rule emits_printed)
      from emits_call [OF this Cons.IH [OF ab(2)]] show ?thesis using True r ab(3) by (simp add: emits_def)
    next
      case False
      then have "gather (printed_nodes L types element sp k) (concat (map snd (filter (\<lambda>(k', gs). k' = k) rs))) = Some ns"
        using Cons.prems r by simp
      from emits_call [OF emits_nothing Cons.IH [OF this]] show ?thesis using False r by (simp add: emits_def)
    qed
  qed (simp add: emits_def)
  then show ?thesis using assms unfolding printRecords_def records_at_def .
qed

lemma emits_key:
  assumes "key_nodes L sp k = Some ns"
  shows "emits L (\<lambda>w. call (printTemplateDataRecords L sp k w) (\<lambda>_. printOptionDataRecords L sp k)) (nodes_calls ns)"
proof -
  obtain a b where ab: "gather (printed_nodes L (data_types L) DATA_XML_ELEMENT sp k) (records_at k sp) = Some a"
    "gather (printed_nodes L (option_types L) OPTION_XML_ELEMENT sp k) (records_at k sp) = Some b" "ns = a @ b"
    using assms by (auto simp: key_nodes_def split: option.splits)
  show ?thesis
    using emits_call [OF emits_print_records [OF ab(1)] emits_print_records [OF ab(2)]]
    by (simp add: printTemplateDataRecords_def printOptionDataRecords_def ab(3))
qed

lemma emits_objects:
  assumes "object_nodes L sp ot = Some ns"
  shows "emits L (writeObjectTypeData L sp ot) (nodes_calls ns)"
proof (cases "keys_of_type ot sp = []")
  case True
  then show ?thesis using assms emits_nothing [of L] by (simp add: object_nodes_def writeObjectTypeData_def emits_def Let_def)
next
  case False
  obtain ts b where tb: "all_templates L (object_templates sp) [] = Some ts"
    "gather (key_nodes L sp) (keys_of_type ot sp) = Some b" "ns = map (\<lambda>(i, t). template_node L t) ts @ b"
    using assms False by (auto simp: object_nodes_def split: option.splits)
  have "emits L (for_each (\<lambda>(i, t). writeTemplate L t) ts) (concat (map (\<lambda>(i, t). node_calls (template_node L t)) ts))"
    by (rule emits_for_each) (auto intro: emits_template)
  then have "emits L (writeTemplates L sp) (concat (map (\<lambda>(i, t). node_calls (template_node L t)) ts))"
    unfolding writeTemplates_def by (rule emits_try [OF tb(1)])
  moreover have "concat (map (\<lambda>(i, t). node_calls (template_node L t)) ts) = nodes_calls (map (\<lambda>(i, t). template_node L t) ts)"
    by (induction ts) auto
  moreover have "emits L (writeRecords L sp (keys_of_type ot sp)) (nodes_calls b)"
    unfolding writeRecords_def by (rule emits_gather [OF _ tb(2)]) (rule emits_key)
  ultimately have "emits L (\<lambda>w. call (writeTemplates L sp w) (\<lambda>_. writeRecords L sp (keys_of_type ot sp))) (nodes_calls ns)"
    using emits_call tb(3) by (metis nodes_calls_simps(3))
  then show ?thesis using False by (simp add: writeObjectTypeData_def emits_def Let_def)
qed

lemma emits_document:
  assumes "message_tree L m sp = Some t"
  shows "emits L (write_document L m sp) (prolog @ node_calls t)"
proof -
  obtain a b where ab: "gather (unrelated_node L (unrelated sp)) (container_list L (unrelated sp)) = Some a"
    "gather (object_nodes L sp) (map int [0..<max_object_type L]) = Some b"
    "t = Xml_node IPAP_XML_ROOT (document_ns L) (message_attributes L m) None (a @ b)"
    using assms by (auto simp: message_tree_def message_nodes_def split: option.splits)
  have prolog: "emits L (createXmlMessage L) prolog"
    unfolding createXmlMessage_def [abs_def] prolog_def
    by (rule emits_calls, (rule emits_call emits_write)+) simp
  have "emits L (for_each (\<lambda>(tag, v). writeAttribute L tag v) as) (concat (map (\<lambda>(a, v). [Write_attribute a (c_str v)]) as))" for as
    by (rule emits_for_each) (auto intro: emits_attribute)
  moreover have "concat (map (\<lambda>(a, v). [Write_attribute a (c_str v)]) as) = map (\<lambda>(a, v). Write_attribute a (c_str v)) as" for as
    by (induction as) auto
  ultimately have attrs: "emits L (for_each (\<lambda>(tag, v). writeAttribute L tag v) as)
      (map (\<lambda>(a, v). Write_attribute a (c_str v)) as)" for as by simp
  have unrel: "emits L (writeNotRelatedTemplates L sp) (nodes_calls a)"
    unfolding writeNotRelatedTemplates_def
    by (rule emits_gather [OF _ ab(1)]) (auto simp: unrelated_node_def intro!: emits_try emits_template)
  have objs: "emits L (for_each (writeObjectTypeData L sp) (map int [0..<max_object_type L])) (nodes_calls b)"
    by (rule emits_gather [OF _ ab(2)]) (rule emits_objects)
  show ?thesis
    unfolding write_document_def [abs_def]
    by (rule emits_calls, rule emits_call [OF prolog emits_call [OF emits_open emits_call [OF attrs
          emits_call [OF unrel emits_call [OF objs emits_close]]]]])
      (simp add: ab(3) nodes_calls_def)
qed

text \<open>
  C16: the calls that the writer makes are exactly those of the tree of the message: one element for the message
  with its numbers, one for each template that no record uses, and for each object type with records all
  templates of the message and the records of its objects, the data records of an object before its options.
  Elements and attributes are balanced in the order of the tree, whatever the message is.
\<close>

theorem writer_walks_tree:
  assumes "message_tree L m sp = Some t" "accepts_all L [] (prolog @ node_calls t)"
  shows "write_document L m sp [] = (Ok (), prolog @ node_calls t)"
  using emits_document [OF assms(1)] assms(2) by (simp add: emits_def)

section \<open>Keys of objects\<close>

lemma string_less_facts:
  "\<not> string_less a a" "string_less a b \<Longrightarrow> string_less b c \<Longrightarrow> string_less a c"
  "string_less a b \<or> a = b \<or> string_less b a"
proof -
  let ?r = "{(c, e). (of_char c :: nat) < of_char e}"
  show "\<not> string_less a a" unfolding string_less_def by (rule lexord_irreflexive) simp
  show "string_less a b \<Longrightarrow> string_less b c \<Longrightarrow> string_less a c"
    unfolding string_less_def by (rule lexord_trans) (auto simp: trans_def)
  have "\<forall>c e. (c, e) \<in> ?r \<or> c = e \<or> (e, c) \<in> ?r" by (metis case_prodI linorder_neqE_nat mem_Collect_eq of_char_eq_iff)
  then show "string_less a b \<or> a = b \<or> string_less b a" unfolding string_less_def by (rule lexord_linear)
qed

text \<open>The order that \<open>operator<\<close> is meant to be, and the keys on which it is that order.\<close>

definition lex_lt :: "xml_object_key \<Rightarrow> xml_object_key \<Rightarrow> bool" where
  "lex_lt a b = (object_type a < object_type b \<or> (object_type a = object_type b \<and> string_less (id_object a) (id_object b)))"

definition consistent :: "xml_object_key set \<Rightarrow> bool" where
  "consistent K = (\<forall>a \<in> K. \<forall>b \<in> K. object_type a < object_type b \<longrightarrow> \<not> string_less (id_object b) (id_object a))"

lemma lex_total: "lex_lt a b \<or> a = b \<or> lex_lt b a"
  using string_less_facts(3) [of "id_object a" "id_object b"] by (auto simp: lex_lt_def)

interpretation xml_order: linear_keys lex_lt
proof
  fix a b c :: xml_object_key
  show irr: "\<not> lex_lt x x" for x by (simp add: lex_lt_def string_less_facts(1))
  show tr: "lex_lt x y \<Longrightarrow> lex_lt y z \<Longrightarrow> lex_lt x z" for x y z
    by (auto simp: lex_lt_def intro: string_less_facts(2))
  show "\<not> lex_lt a b \<Longrightarrow> \<not> lex_lt b c \<Longrightarrow> \<not> lex_lt a c" using lex_total irr tr by metis
  show "lex_lt a b \<or> a = b \<or> lex_lt b a" by (rule lex_total)
qed

lemma key_lt_lex: "consistent K \<Longrightarrow> a \<in> K \<Longrightarrow> b \<in> K \<Longrightarrow> xml_key_lt a b = lex_lt a b"
  unfolding consistent_def by (cases "object_type a" "object_type b" rule: linorder_cases) (auto simp: lex_lt_def)

lemma consistent_iff: "consistent K \<longleftrightarrow> (\<forall>a \<in> K. \<forall>b \<in> K. \<not> (xml_key_lt a b \<and> xml_key_lt b a))"
proof
  assume "consistent K"
  then show "\<forall>a \<in> K. \<forall>b \<in> K. \<not> (xml_key_lt a b \<and> xml_key_lt b a)"
    using key_lt_lex xml_order.lt_asym by metis
next
  assume *: "\<forall>a \<in> K. \<forall>b \<in> K. \<not> (xml_key_lt a b \<and> xml_key_lt b a)"
  show "consistent K"
    unfolding consistent_def
  proof (intro ballI impI)
    fix a b assume "a \<in> K" "b \<in> K" "object_type a < object_type b"
    then show "\<not> string_less (id_object b) (id_object a)" using * by force
  qed
qed

lemma map_find_cong:
  "\<forall>a \<in> fst ` set m. lt a k = lt' a k \<and> lt k a = lt' k a \<Longrightarrow> map_find lt k m = map_find lt' k m"
  by (induction lt k m rule: map_find.induct) auto

lemma map_insert_cong:
  "\<forall>a \<in> fst ` set m. lt a k = lt' a k \<and> lt k a = lt' k a \<Longrightarrow> map_insert lt k v m = map_insert lt' k v m"
  by (induction lt k v m rule: map_insert.induct) auto

lemma key_map_lex:
  assumes "consistent K" "k \<in> K" "fst ` set m \<subseteq> K"
  shows "map_find xml_key_lt k m = map_find lex_lt k m" "map_insert xml_key_lt k v m = map_insert lex_lt k v m"
  using assms key_lt_lex [OF assms(1)] by (auto intro!: map_find_cong map_insert_cong simp del: xml_key_lt.simps)

section \<open>The splitter\<close>

text \<open>The key of a record of a message; the objects of a splitter in the intended order.\<close>

definition key_of :: "('m, 't, 'd, 'v, 'c) ipap_lib \<Rightarrow> 'm \<Rightarrow> 'd \<Rightarrow> xml_object_key option" where
  "key_of L m g = (case template_object L (record_template L g) m of None \<Rightarrow> None | Some t \<Rightarrow> record_key L t g)"

definition keys_of :: "('m, 't, 'd, 'v, 'c) ipap_lib \<Rightarrow> 'm \<Rightarrow> 'd list \<Rightarrow> xml_object_key set" where
  "keys_of L m gs = {k. \<exists>g \<in> set gs. key_of L m g = Some k}"

definition splitter_ok :: "xml_object_key set \<Rightarrow> ('d, 'c) splitter \<Rightarrow> bool" where
  "splitter_ok K sp = (map_ordered lex_lt (object_templates sp) \<and> map_ordered lex_lt (object_records sp) \<and>
     fst ` set (object_templates sp) = fst ` set (object_records sp) \<and> fst ` set (object_records sp) \<subseteq> K)"

definition container_at :: "('m, 't, 'd, 'v, 'c) ipap_lib \<Rightarrow> xml_object_key \<Rightarrow> ('d, 'c) splitter \<Rightarrow> 'c" where
  "container_at L k sp = map_at lex_lt (container_empty L) k (object_templates sp)"

lemma records_at_find:
  assumes "map_ordered lex_lt (object_records sp)"
  shows "records_at k sp = map_at lex_lt [] k (object_records sp)"
proof -
  have "map_ordered lex_lt rs \<Longrightarrow> concat (map snd (filter (\<lambda>(k', gs). k' = k) rs)) = map_at lex_lt [] k rs" for rs :: "(xml_object_key \<times> 'a list) list"
  proof (induction rs)
    case (Cons r rs)
    obtain k' gs where r: "r = (k', gs)" by fastforce
    have rest: "map_ordered lex_lt rs" "\<forall>a \<in> fst ` set rs. lex_lt k' a" using Cons.prems r by (simp_all add: map_ordered_Cons)
    consider "k' = k" | "lex_lt k' k" | "lex_lt k k'" using lex_total by metis
    then show ?case
    proof cases
      case 1
      then have "\<forall>x \<in> set rs. fst x \<noteq> k" using rest(2) xml_order.lt_irrefl by auto
      then have "filter (\<lambda>(k', gs). k' = k) rs = []" by (auto simp: filter_empty_conv)
      then show ?thesis using 1 r xml_order.lt_irrefl by (simp add: map_at_def)
    next
      case 2
      then show ?thesis using Cons.IH [OF rest(1)] r xml_order.lt_irrefl by (auto simp: map_at_def)
    next
      case 3
      then have "\<forall>a \<in> fst ` set rs. lex_lt k a" using rest(2) xml_order.lt_trans by blast
      then have "map_find lex_lt k rs = None" by (rule xml_order.find_none_below)
      then show ?thesis using 3 Cons.IH [OF rest(1)] r xml_order.lt_irrefl xml_order.lt_asym by (auto simp: map_at_def)
    qed
  qed (simp add: map_at_def)
  then show ?thesis using assms by (simp add: records_at_def)
qed

lemma add_record_spec:
  fixes L :: "('m, 't, 'd, 'v, 'c) ipap_lib" and sp :: "('d, 'c) splitter"
  assumes "consistent K" "k \<in> K" "splitter_ok K sp"
  shows "splitter_ok K (add_record L k t g sp)"
    and "records_at k' (add_record L k t g sp) = (if k' = k then records_at k sp @ [g] else records_at k' sp)"
    and "container_at L k' (add_record L k t g sp) =
      (if k' = k then container_add L (Some t) (container_at L k sp) else container_at L k' sp)"
    and "unrelated (add_record L k t g sp) = unrelated sp"
    and "fst ` set (object_records (add_record L k t g sp)) = insert k (fst ` set (object_records sp))"
proof -
  let ?sp = "add_record L k t g sp"
  have ord: "map_ordered lex_lt (object_templates sp)" "map_ordered lex_lt (object_records sp)"
    and sub: "fst ` set (object_templates sp) \<subseteq> K" "fst ` set (object_records sp) \<subseteq> K"
    and same: "fst ` set (object_templates sp) = fst ` set (object_records sp)"
    using assms(3) by (auto simp: splitter_ok_def)
  note lex_t = key_map_lex [OF assms(1,2) sub(1)] and lex_r = key_map_lex [OF assms(1,2) sub(2)]
  have new: "map_find lex_lt k (object_templates sp) = None \<longleftrightarrow> map_find lex_lt k (object_records sp) = None"
    by (simp only: xml_order.lookup_none_iff [OF ord(1)] xml_order.lookup_none_iff [OF ord(2)] same)
  have fields: "object_templates ?sp = map_insert lex_lt k (container_add L (Some t) (container_at L k sp)) (object_templates sp)"
    "object_records ?sp = map_insert lex_lt k (map_at lex_lt [] k (object_records sp) @ [g]) (object_records sp)"
    using new by (cases "map_find lex_lt k (object_templates sp)"; cases "map_find lex_lt k (object_records sp)";
      simp add: add_record_def Let_def lex_t lex_r map_at_def container_at_def)+
  show ok: "splitter_ok K ?sp"
    using assms(2) ord sub same by (simp add: splitter_ok_def fields xml_order.keys_insert xml_order.ordered_insert)
  show "records_at k' ?sp = (if k' = k then records_at k sp @ [g] else records_at k' sp)"
    using ord ok by (simp add: records_at_find splitter_ok_def) (simp add: map_at_def fields xml_order.insert_lookup)
  show "container_at L k' ?sp = (if k' = k then container_add L (Some t) (container_at L k sp) else container_at L k' sp)"
    using ord by (simp add: container_at_def map_at_def fields xml_order.insert_lookup)
  show "unrelated ?sp = unrelated sp" by (simp add: add_record_def Let_def)
  show "fst ` set (object_records ?sp) = insert k (fst ` set (object_records sp))"
    using ord by (simp add: fields xml_order.keys_insert)
qed

text \<open>What the loop over the records has done after it has seen \<open>gs\<close>.\<close>

definition split_done :: "('m, 't, 'd, 'v, 'c) ipap_lib \<Rightarrow> 'm \<Rightarrow> 'd list \<Rightarrow> u16 set \<times> ('d, 'c) splitter
    \<Rightarrow> u16 set \<times> ('d, 'c) splitter \<Rightarrow> bool" where
  "split_done L m gs = (\<lambda>(inc, sp) (inc', sp').
     (\<forall>k. records_at k sp' = records_at k sp @ filter (\<lambda>g. key_of L m g = Some k) gs \<and>
        container_at L k sp' = fold (\<lambda>g. container_add L (template_object L (record_template L g) m))
          (filter (\<lambda>g. key_of L m g = Some k) gs) (container_at L k sp)) \<and>
     unrelated sp' = unrelated sp \<and> inc' = inc \<union> record_template L ` set gs \<and>
     fst ` set (object_records sp') = fst ` set (object_records sp) \<union> keys_of L m gs \<and>
     (\<forall>g \<in> set gs. key_of L m g \<noteq> None))"

lemma keys_of_Cons: "keys_of L m (g # gs) = set_option (key_of L m g) \<union> keys_of L m gs"
  by (auto simp: keys_of_def)

lemma split_records_spec:
  assumes "consistent K" "keys_of L m gs \<subseteq> K" "splitter_ok K sp" "split_records L m gs (inc, sp) = (Ok (), inc', sp')"
  shows "splitter_ok K sp' \<and> split_done L m gs (inc, sp) (inc', sp')"
  using assms(2-4)
proof (induction gs arbitrary: inc sp)
  case Nil
  then show ?case by (simp add: split_done_def keys_of_def)
next
  case (Cons g gs)
  obtain t where t: "template_object L (record_template L g) m = Some t"
    using Cons.prems(3) by (auto split: option.splits)
  obtain k where k: "record_key L t g = Some k" using Cons.prems(3) t by (auto split: option.splits)
  have key: "key_of L m g = Some k" using t k by (simp add: key_of_def)
  then have kK: "k \<in> K" using Cons.prems(1) by (simp add: keys_of_Cons)
  let ?sp = "add_record L k t g sp" and ?inc = "insert (record_template L g) inc"
  note spec = add_record_spec [OF assms(1) kK Cons.prems(2), where L = L and t = t and g = g]
  have "split_records L m gs (?inc, ?sp) = (Ok (), inc', sp')" using Cons.prems(3) t k by simp
  from Cons.IH [OF _ spec(1) this] have IH: "splitter_ok K sp'" "split_done L m gs (?inc, ?sp) (inc', sp')"
    using Cons.prems(1) by (simp_all add: keys_of_Cons)
  have "split_done L m (g # gs) (inc, sp) (inc', sp')"
    using IH(2) key t spec(2-5) by (simp add: split_done_def keys_of_Cons)
  then show ?case using IH(1) by simp
qed

lemma new_splitter_ok: "splitter_ok K (new_splitter L)" "records_at k (new_splitter L) = []"
  "container_at L k (new_splitter L) = container_empty L" "object_records (new_splitter L) = []"
  "unrelated (new_splitter L) = container_empty L"
  by (simp_all add: splitter_ok_def new_splitter_def records_at_def container_at_def map_at_def)

lemma split_result:
  assumes "consistent (keys_of L m (records_of L m))" "split L m (new_splitter L) = (Ok (), sp)"
  shows "splitter_ok (keys_of L m (records_of L m)) sp \<and>
    (\<forall>k. records_at k sp = filter (\<lambda>g. key_of L m g = Some k) (records_of L m) \<and>
       container_at L k sp = fold (\<lambda>g. container_add L (template_object L (record_template L g) m))
         (filter (\<lambda>g. key_of L m g = Some k) (records_of L m)) (container_empty L)) \<and>
    unrelated sp = split_templates L m (record_template L ` set (records_of L m)) (template_list L m) (container_empty L) \<and>
    fst ` set (object_records sp) = keys_of L m (records_of L m) \<and> (\<forall>g \<in> set (records_of L m). key_of L m g \<noteq> None)"
proof -
  let ?K = "keys_of L m (records_of L m)"
  obtain inc sp1 where run: "split_records L m (records_of L m) ({}, new_splitter L) = (Ok (), inc, sp1)"
    and sp: "sp = sp1\<lparr>unrelated := split_templates L m inc (template_list L m) (unrelated sp1)\<rparr>"
    using assms(2) by (auto simp: split_def split: prod.splits outcome.splits)
  have "splitter_ok ?K sp1 \<and> split_done L m (records_of L m) ({}, new_splitter L) (inc, sp1)"
    by (rule split_records_spec [OF assms(1) _ new_splitter_ok(1) run]) simp
  moreover have "splitter_ok ?K sp = splitter_ok ?K sp1" "records_at k sp = records_at k sp1"
    "container_at L k sp = container_at L k sp1" "object_records sp = object_records sp1" for k
    by (simp_all add: sp splitter_ok_def records_at_def container_at_def)
  ultimately show ?thesis by (simp add: split_done_def new_splitter_ok sp)
qed

text \<open>A copy has the same contents, when the keys are ordered.\<close>

lemma xml_rebuild:
  assumes "consistent K" "fst ` set m \<subseteq> K" "map_ordered lex_lt m"
  shows "map_rebuild xml_key_lt m = m"
proof -
  have "fold (\<lambda>(k, v). map_insert xml_key_lt k v) m acc = fold (\<lambda>(k, v). map_insert lex_lt k v) m acc"
    if "fst ` set acc \<subseteq> K" "fst ` set m \<subseteq> K" for acc and m :: "(xml_object_key \<times> 'a) list"
    using that
  proof (induction m arbitrary: acc)
    case (Cons x m)
    obtain k v where x: "x = (k, v)" by fastforce
    then have k: "k \<in> K" using Cons.prems by simp
    have "fst ` set (map_insert lex_lt k v acc) \<subseteq> K" using fst_set_map_insert [of lex_lt k v acc] Cons.prems(1) k by blast
    then show ?case using Cons.IH [of "map_insert lex_lt k v acc"] Cons.prems key_map_lex(2) [OF assms(1) k Cons.prems(1)] x by (simp del: xml_key_lt.simps)
  qed simp
  from this [of "[]" m] show ?thesis using assms(2) xml_order.rebuild_id [OF assms(3)] by (simp add: map_rebuild_def del: xml_key_lt.simps)
qed

lemma xml_message_copy_same: "consistent K \<Longrightarrow> splitter_ok K sp \<Longrightarrow> xml_message_copy sp = sp"
  by (simp add: xml_message_copy_def splitter_ok_def xml_rebuild del: xml_key_lt.simps)

lemma mset_concat_filter:
  assumes "distinct ks" "\<forall>g \<in> set gs. f g \<in> Some ` set ks"
  shows "mset (concat (map (\<lambda>k. filter (\<lambda>g. f g = Some k) gs) ks)) = mset gs"
  using assms
proof (induction gs)
  case Nil
  then show ?case by (induction ks) auto
next
  case (Cons g gs)
  obtain k where k: "k \<in> set ks" "f g = Some k" using Cons.prems(2) by auto
  then obtain a b where ks: "ks = a @ k # b" by (meson split_list)
  have other: "map (\<lambda>j. filter (\<lambda>x. f x = Some j) (g # gs)) l = map (\<lambda>j. filter (\<lambda>x. f x = Some j) gs) l" if "k \<notin> set l" for l
    using k(2) that by auto
  have "k \<notin> set a" "k \<notin> set b" using Cons.prems(1) ks by auto
  then have "map (\<lambda>j. filter (\<lambda>x. f x = Some j) (g # gs)) ks = map (\<lambda>j. filter (\<lambda>x. f x = Some j) gs) a @
      (g # filter (\<lambda>x. f x = Some k) gs) # map (\<lambda>j. filter (\<lambda>x. f x = Some j) gs) b"
    using other [of a] other [of b] k(2) by (simp only: ks map_append list.map) simp
  then have "mset (concat (map (\<lambda>j. filter (\<lambda>x. f x = Some j) (g # gs)) ks)) =
      add_mset g (mset (concat (map (\<lambda>j. filter (\<lambda>x. f x = Some j) gs) ks)))"
    by (simp only: ks) simp
  then show ?case using Cons by simp
qed

lemma object_records_lists:
  assumes "map_ordered lex_lt (object_records sp)"
  shows "map snd (object_records sp) = map (\<lambda>k. records_at k sp) (map fst (object_records sp))"
proof -
  have "snd x = records_at (fst x) sp" if "x \<in> set (object_records sp)" for x
    using that assms xml_order.lookup_iff [OF assms, of "fst x" "snd x"] by (simp add: records_at_find map_at_def)
  then show ?thesis by simp
qed

text \<open>
  C17: the splitter sorts the records of a message by the object they describe: the list of every key has exactly the
  records of that key in the order of the message, and no record is lost or kept twice. This holds when
  \<open>operator<\<close> orders the keys of the message, that is when no key of a greater type has a smaller id.
\<close>

theorem splitter_partitions:
  assumes "consistent (keys_of L m (records_of L m))" "split L m (new_splitter L) = (Ok (), sp)"
  shows "(\<forall>k. records_at k sp = filter (\<lambda>g. key_of L m g = Some k) (records_of L m)) \<and>
    mset (concat (map snd (object_records sp))) = mset (records_of L m)"
proof -
  note res = split_result [OF assms]
  then have ord: "map_ordered lex_lt (object_records sp)" by (simp add: splitter_ok_def)
  have "\<forall>g \<in> set (records_of L m). key_of L m g \<in> Some ` set (map fst (object_records sp))"
  proof
    fix g assume g: "g \<in> set (records_of L m)"
    then obtain k where "key_of L m g = Some k" using res by blast
    moreover from this have "k \<in> fst ` set (object_records sp)" using res g by (auto simp: keys_of_def)
    ultimately show "key_of L m g \<in> Some ` set (map fst (object_records sp))" by simp
  qed
  from mset_concat_filter [OF xml_order.ordered_keys_distinct [OF ord] this]
  have "mset (concat (map snd (object_records sp))) = mset (records_of L m)"
    using res by (simp add: object_records_lists [OF ord])
  then show ?thesis using res by blast
qed

end
