(* ===== verification/Ipap_Xml_Reader.thy ===== *)
theory Ipap_Xml_Reader
  imports Ipap_Xml_Properties
begin

text \<open>
  The reader of XML documents: the array of fields that it overruns on documents of others, the documented behaviour of
  \<open>libipap\<close> that it relies on, and what it makes of the elements that the writer makes.
\<close>

section \<open>Reading the fields of a template\<close>

lemma ReadTemplateFields_result:
  "length arr = index + n \<Longrightarrow>
   ReadTemplateFields L ns index arr =
     (let new = map read_tfield (filter (is_element L ''TFIELD'') ns)
      in if length new \<le> n then Ok (take index arr @ new @ drop (index + length new) arr) else Crash Buffer_overflow)"
proof (induction L ns index arr arbitrary: n rule: ReadTemplateFields.induct)
  case (1 L index arr)
  then show ?case by simp
next
  case (2 L x ns index arr)
  show ?case
  proof (cases "is_element L ''TFIELD'' x")
    case False
    then show ?thesis using 2 by simp
  next
    case True
    show ?thesis
    proof (cases n)
      case 0
      then show ?thesis using True 2(3) by (simp add: Let_def)
    next
      case (Suc k)
      let ?arr = "arr[index := read_tfield x]"
      have "take (Suc index) ?arr = take index arr @ [read_tfield x]" using 2(3) Suc by (simp add: take_Suc_conv_app_nth)
      moreover have "drop (Suc index + j) ?arr = drop (Suc index + j) arr" for j by simp
      moreover have "ReadTemplateFields L ns (index + 1) ?arr =
          (let new = map read_tfield (filter (is_element L ''TFIELD'') ns)
           in if length new \<le> k then Ok (take (index + 1) ?arr @ new @ drop (index + 1 + length new) ?arr) else Crash Buffer_overflow)"
        by (rule 2(1)) (use True 2(3) Suc in simp_all)
      ultimately show ?thesis using True 2(3) Suc by (simp add: Let_def)
    qed
  qed
qed

lemma read_templates_skip:
  "\<forall>n \<in> set pre. \<not> is_element L ''TEMPLATE'' n \<Longrightarrow> read_templates L (pre @ ns) m = read_templates L ns m"
  by (induction pre) auto

text \<open>
  C26: a document whose first template has more fields than it announces makes the reader write past the end of the array
  of fields, whose length is the announced number; the DTD, which the document was validated against, says
  nothing about this number.
\<close>

theorem surplus_field_overflows:
  assumes "parse_document L text = Some (root # others)" "nd_children root = pre @ n # rest"
    and "\<forall>x \<in> set pre. \<not> is_element L ''TEMPLATE'' x" "is_element L ''TEMPLATE'' n"
    and "0 < sint (atoi (xml_prop ''NUM_FIELDS'' n))"
    and "sint (atoi (xml_prop ''NUM_FIELDS'' n)) < int (length (filter (is_element L ''TFIELD'') (nd_children n)))"
  shows "from_message L text = Crash Buffer_overflow"
proof -
  let ?num = "nat (sint (atoi (xml_prop ''NUM_FIELDS'' n)))"
  have "ReadTemplateFields L (nd_children n) 0 (replicate ?num (garbage_fields L)) = Crash Buffer_overflow"
    using assms(5,6) by (subst ReadTemplateFields_result [where n = ?num]) (simp_all add: Let_def not_le nat_less_iff)
  then have "read_template L n m = Crash Buffer_overflow" for m
    using assms(5) by (simp add: read_template_def Let_def)
  then have "read_templates L (nd_children root) m = Crash Buffer_overflow" for m
    using assms(4) by (simp add: assms(2) read_templates_skip [OF assms(3)])
  then show ?thesis using assms(1) by (simp add: from_message_def Let_def split: prod.splits)
qed

section \<open>Numbers\<close>

definition small :: "int \<Rightarrow> bool" where
  "small i = (- (2 ^ 31) \<le> i \<and> i < 2 ^ 31)"

lemma sint_atoi:
  assumes "small i"
  shows "sint (atoi (int_decimal i)) = i"
proof -
  have "\<bar>i\<bar> < 2 ^ 63" using assms by (simp add: small_def abs_less_iff)
  then have "atoi (int_decimal i) = word_of_int i" by (rule atoi_int_decimal)
  then show ?thesis using assms by (simp add: small_def signed_of_int signed_take_bit_int_eq_self)
qed

lemma sint_atoi_nat: "n < 2 ^ 31 \<Longrightarrow> sint (atoi (decimal n)) = int n"
  using sint_atoi [of "int n"] by (simp add: decimal_int small_def)

lemma atoi_unat: "atoi (decimal (unat x)) = x" for x :: u32
proof -
  have "uint x < 4294967296" using unsigned_less [of x] by simp
  then have "\<bar>int (unat x)\<bar> < 2 ^ 63" by simp
  then have "atoi (decimal (unat x)) = word_of_int (int (unat x))" unfolding decimal_int by (rule atoi_int_decimal)
  then show ?thesis by simp
qed

lemma uint16_or_unat: "uint16_or g (decimal (unat x)) = x" for x :: u16
proof -
  have le: "unat x < 65536" using unsigned_less [of x] by simp
  have "decimal (unat x) \<noteq> []" using decimal_first [of "unat x"] by auto
  moreover have "strtol (decimal (unat x)) = (int (unat x), True, [])"
  proof -
    have "uint x < 65536" using unsigned_less [of x] by simp
    then have "\<bar>int (unat x)\<bar> < 2 ^ 63" by simp
    then show ?thesis unfolding decimal_int by (rule strtol_int_decimal)
  qed
  moreover have "uint x < 65536" using unsigned_less [of x] by simp
  ultimately show ?thesis using le
    by (simp add: uint16_or_def str_to_uint16_def c_str_decimal)
qed

section \<open>The documented behaviour of libipap\<close>

definition template_key :: "('m, 't, 'd, 'v, 'c) ipap_lib \<Rightarrow> 't \<Rightarrow> int" where
  "template_key L t = int (unat (template_id L t))"

definition field_entry :: "ipap_field \<Rightarrow> ipap_fields" where
  "field_entry fd = \<lparr>fs_eno = word_of_int (fd_eno fd), fs_ienum = word_of_int (fd_ftype fd), fs_length = word_of_int (fd_length fd)\<rparr>"

definition numbers :: "('m, 't, 'd, 'v, 'c) ipap_lib \<Rightarrow> 'm \<Rightarrow> int \<times> int \<times> u32 \<times> u32 \<times> u32" where
  "numbers L m = (domain_of L m, version_of L m, exporttime_of L m, seqno_of L m, ackseqno_of L m)"

text \<open>
  A template made from the fields of another one: it reads what the other one writes.
\<close>

definition same_template :: "('m, 't, 'd, 'v, 'c) ipap_lib \<Rightarrow> 't \<Rightarrow> 't \<Rightarrow> bool" where
  "same_template L t t' = (template_id L t' = template_id L t \<and> template_type L t' = template_type L t \<and>
     (\<forall>e f fd. field_of L t e f = Some fd \<longrightarrow> (\<exists>fd'. field_of L t' e f = Some fd' \<and>
        (\<forall>v s. write_value L fd v = Some s \<longrightarrow> parse_value L fd' s = Some v))))"

fun insert_all :: "('m, 't, 'd, 'v, 'c) ipap_lib \<Rightarrow> ((int \<times> int) \<times> 'v) list \<Rightarrow> 'd \<Rightarrow> 'd option" where
  "insert_all L [] g = Some g"
| "insert_all L (((e, f), v) # xs) g = (case insert_field L e f v g of None \<Rightarrow> None | Some g \<Rightarrow> insert_all L xs g)"

text \<open>
  A container holds one template per id and lists the ids it holds; a message gives the template of an id; templates know their
  fields by their numbers; a new message has the numbers it was made with and nothing else; making a template
  and including a record add just that; a record is built from its fields.
\<close>

definition container_laws :: "('m, 't, 'd, 'v, 'c) ipap_lib \<Rightarrow> bool" where
  "container_laws L = ((\<forall>i. container_get L i (container_empty L) = None) \<and>
     (\<forall>c t i. container_get L (template_key L t) c \<in> {None, Some t} \<longrightarrow>
        container_get L i (container_add L (Some t) c) = (if i = template_key L t then Some t else container_get L i c)) \<and>
     (\<forall>c. distinct (container_list L c) \<and> set (container_list L c) = {i. container_get L i c \<noteq> None}))"

definition builder_laws :: "('m, 't, 'd, 'v, 'c) ipap_lib \<Rightarrow> bool" where
  "builder_laws L = (
     (\<forall>d v sq ack ext. let m = with_numbers L sq ack ext (new_message L d v)
        in numbers L m = (d, v, ext, sq, ack) \<and> records_of L m = [] \<and> (\<forall>i. template_object L i m = None)) \<and>
     (\<forall>t m. 0 < num_fields L t \<and> template_object L (template_id L t) m = None \<longrightarrow>
        (\<exists>m' t'. make_template L (map field_entry (template_fields L t)) (num_fields L t) (int (template_type L t)) (template_id L t) m = Some m' \<and>
           same_template L t t' \<and> (\<forall>i. template_object L i m' = (if i = template_id L t then Some t' else template_object L i m)) \<and>
           records_of L m' = records_of L m \<and> numbers L m' = numbers L m)) \<and>
     (\<forall>i g m. template_object L i m \<noteq> None \<longrightarrow>
        (\<exists>m'. include_data L i g m = Some m' \<and> records_of L m' = records_of L m @ [g] \<and>
           (\<forall>j. template_object L j m' = template_object L j m) \<and> numbers L m' = numbers L m)) \<and>
     (\<forall>g. insert_all L (record_entries L g) (new_record L (record_template L g)) = Some g) \<and>
     (\<forall>t e f fd. field_of L t e f = Some fd \<longrightarrow> fd_eno fd = e \<and> fd_ftype fd = f) \<and>
     (\<forall>i m t. template_object L i m = Some t \<longrightarrow> template_id L t = i))"

section \<open>Reading what the writer wrote\<close>

definition template_fits :: "('m, 't, 'd, 'v, 'c) ipap_lib \<Rightarrow> 't \<Rightarrow> bool" where
  "template_fits L t = (0 < num_fields L t \<and> num_fields L t < 2 ^ 31 \<and> template_type L t < 2 ^ 31 \<and>
     (\<forall>fd \<in> set (template_fields L t). small (fd_eno fd) \<and> small (fd_ftype fd) \<and> small (fd_length fd)))"

lemma read_tfield_node:
  assumes "small (fd_eno fd)" "small (fd_ftype fd)" "small (fd_length fd)"
  shows "read_tfield (tfield_node L fd) = field_entry fd"
proof -
  have "fst (strtoul (c_str (int_decimal i))) = word_of_int i" if "small i" for i
  proof -
    have "\<bar>i\<bar> < 2 ^ 64" using that by (simp add: small_def abs_less_iff)
    then show ?thesis by (simp only: c_str_int_decimal strtoul_int_decimal fst_conv)
  qed
  then show ?thesis using assms
    by (simp add: read_tfield_def xml_prop_def tfield_node_def field_entry_def unsigned_of_int word_of_int_eq_iff)
qed

lemma read_template_node:
  assumes "template_fits L t"
  shows "read_template L (template_node L t) m =
    (case make_template L (map field_entry (template_fields L t)) (num_fields L t) (int (template_type L t)) (template_id L t) m of
       None \<Rightarrow> Throw Ipap_bad_argument | Some m \<Rightarrow> Ok m)"
proof -
  have kids: "filter (is_element L ''TFIELD'') (map (tfield_node L) fds) = map (tfield_node L) fds" for fds
    by (induction fds) (simp_all add: is_element_def tfield_node_def)
  have "map (read_tfield \<circ> tfield_node L) (template_fields L t) = map field_entry (template_fields L t)"
    using assms by (auto intro!: read_tfield_node simp: template_fits_def)
  moreover have "length (template_fields L t) = num_fields L t" by (simp add: template_fields_def)
  ultimately have "ReadTemplateFields L (map (tfield_node L) (template_fields L t)) 0 (replicate (num_fields L t) (garbage_fields L)) =
      Ok (map field_entry (template_fields L t))"
    by (subst ReadTemplateFields_result [where n = "num_fields L t"]) (simp_all add: kids Let_def)
  then show ?thesis
    using assms by (simp add: read_template_def template_node_def xml_prop_def Let_def uint16_or_unat sint_atoi_nat template_fits_def)
qed

lemma read_fields_written:
  assumes "gather (field_node L t ''FIELD'') xs = Some ns" "same_template L t t'"
    and "\<forall>t e f fd. field_of L t e f = Some fd \<longrightarrow> fd_eno fd = e \<and> fd_ftype fd = f"
    and "\<forall>((e, f), v) \<in> set xs. small e \<and> small f \<and> (\<forall>fd. field_of L t e f = Some fd \<longrightarrow> write_value L fd v \<noteq> Some [])"
    and "insert_all L xs g = Some g'"
  shows "read_fields L (Some t') ns g = Ok g'"
  using assms(1,4,5)
proof (induction xs arbitrary: ns g)
  case (Cons x xs)
  obtain e f v where x: "x = ((e, f), v)" by (metis surj_pair)
  obtain fd s ns' where fd: "field_of L t e f = Some fd" "write_value L fd v = Some s" "gather (field_node L t ''FIELD'') xs = Some ns'"
    and ns: "ns = Xml_node ''FIELD'' (document_ns L) [(''NAME'', fd_xml_name fd), (''ENO'', int_decimal (fd_eno fd)),
       (''FTYPE'', int_decimal (fd_ftype fd))] (Some s) [] # ns'"
    using Cons.prems(1) x by (auto simp: field_node_def split: option.splits)
  have num: "fd_eno fd = e" "fd_ftype fd = f" using assms(3) fd(1) by blast+
  have sm: "small e" "small f" "s \<noteq> []" using Cons.prems(2) x fd by auto
  obtain fd' where fd': "field_of L t' e f = Some fd'" "parse_value L fd' s = Some v"
    using assms(2) fd unfolding same_template_def by blast
  obtain g1 where g1: "insert_field L e f v g = Some g1" "insert_all L xs g1 = Some g'"
    using Cons.prems(3) x by (auto split: option.splits)
  have "read_fields L (Some t') ns' g1 = Ok g'" by (rule Cons.IH [OF fd(3) _ g1(2)]) (use Cons.prems(2) in auto)
  then show ?case using fd' g1 sm num by (simp add: ns is_element_def xml_prop_def sint_atoi Let_def)
qed simp

end
