(* ===== verification/Ipap_Xml_Roundtrip.thy ===== *)
theory Ipap_Xml_Roundtrip
  imports Ipap_Xml_Reader
begin

text \<open>
  The round trip of a whole message through its XML document, over the documented behaviour of \<open>libipap\<close> and
  \<open>libxml2\<close>: \<open>from_message\<close> rebuilds what \<open>get_message\<close> wrote.
\<close>

section \<open>Gathering\<close>

lemma gather_total: "(\<And>x. x \<in> set xs \<Longrightarrow> f x = Some (g x)) \<Longrightarrow> gather f xs = Some (concat (map g xs))"
  by (induction xs) auto

lemma concat_map_if: "concat (map (\<lambda>x. if P x then [f x] else []) xs) = map f (filter P xs)"
  by (induction xs) auto

lemma concat_map_single: "distinct xs \<Longrightarrow> x \<in> set xs \<Longrightarrow> concat (map (\<lambda>y. if y = x then ns else []) xs) = ns"
proof (induction xs)
  case (Cons y ys)
  have "concat (map (\<lambda>y. if y = x then ns else []) ys) = []" if "x \<notin> set ys" using that by (induction ys) auto
  then show ?case using Cons by auto
qed simp

section \<open>Containers\<close>

interpretation id_order: linear_keys "(<) :: u16 \<Rightarrow> u16 \<Rightarrow> bool"
  by (rule linear_keys_less)

text \<open>A container with the templates of the message that have one of the given ids.\<close>

definition holds_templates :: "('m, 't, 'd, 'v, 'c) ipap_lib \<Rightarrow> 'm \<Rightarrow> u16 set \<Rightarrow> 'c \<Rightarrow> bool" where
  "holds_templates L m I c = (\<forall>i. container_get L i c =
     (if i \<in> int ` unat ` I then template_object L (word_of_int i) m else None))"

lemma holds_empty: "container_laws L \<Longrightarrow> holds_templates L m {} (container_empty L)"
  by (simp add: holds_templates_def container_laws_def)

lemma container_add_get:
  "container_laws L \<Longrightarrow> container_get L (template_key L t) c \<in> {None, Some t} \<Longrightarrow>
   container_get L i (container_add L (Some t) c) = (if i = template_key L t then Some t else container_get L i c)"
  unfolding container_laws_def by blast

lemma holds_add:
  assumes "container_laws L" "builder_laws L" "holds_templates L m I c" "template_object L u m \<noteq> None"
  shows "holds_templates L m (insert u I) (container_add L (template_object L u m) c)"
proof -
  obtain t where t: "template_object L u m = Some t" using assms(4) by auto
  then have key: "template_key L t = int (unat u)" using assms(2) by (auto simp: builder_laws_def template_key_def)
  have ret: "word_of_int (int (unat u)) = u" by simp
  have "container_get L (template_key L t) c \<in> {None, Some t}"
    using assms(3) t by (simp add: holds_templates_def key)
  from container_add_get [OF assms(1) this]
  have "container_get L i (container_add L (Some t) c) = (if i = int (unat u) then Some t else container_get L i c)" for i
    by (simp only: key)
  then show ?thesis using assms(3) t ret by (auto simp: holds_templates_def)
qed

lemma holds_get:
  assumes "holds_templates L m I c" "u \<in> I"
  shows "container_get L (int (unat u)) c = template_object L u m"
proof -
  have "int (unat u) \<in> int ` unat ` I" using assms(2) by blast
  moreover have "word_of_int (int (unat u)) = u" by simp
  ultimately show ?thesis using assms(1) unfolding holds_templates_def by metis
qed

lemma holds_fold:
  assumes "container_laws L" "builder_laws L" "holds_templates L m I c" "\<forall>u \<in> set us. template_object L u m \<noteq> None"
  shows "holds_templates L m (I \<union> set us) (fold (\<lambda>u. container_add L (template_object L u m)) us c)"
  using assms(3,4)
proof (induction us arbitrary: I c)
  case (Cons u us)
  have "holds_templates L m (insert u I \<union> set us) (fold (\<lambda>u. container_add L (template_object L u m)) us
      (container_add L (template_object L u m) c))"
    by (rule Cons.IH) (use holds_add [OF assms(1,2)] Cons.prems in auto)
  then show ?case by simp
qed simp

lemma split_templates_fold:
  "split_templates L m inc is c =
     fold (\<lambda>u. container_add L (template_object L u m)) (filter (\<lambda>u. u \<notin> inc) (map word_of_int is)) c"
  by (induction "is" arbitrary: c) auto

lemma holds_list:
  assumes "container_laws L" "holds_templates L m I c" "\<forall>u \<in> I. template_object L u m \<noteq> None"
  shows "distinct (map word_of_int (container_list L c) :: u16 list)" "set (map word_of_int (container_list L c)) = I"
    "\<forall>i \<in> set (container_list L c). container_get L i c = template_object L (word_of_int i) m"
proof -
  have set: "set (container_list L c) = int ` unat ` I" and dist: "distinct (container_list L c)"
    using assms by (auto simp: container_laws_def holds_templates_def)
  have inj: "inj_on (word_of_int :: int \<Rightarrow> u16) (int ` unat ` I)" by (auto intro!: inj_onI)
  show "distinct (map word_of_int (container_list L c) :: u16 list)" using dist inj by (simp add: distinct_map set)
  show "set (map word_of_int (container_list L c)) = I" by (simp add: set image_image)
  show "\<forall>i \<in> set (container_list L c). container_get L i c = template_object L (word_of_int i) m"
    using assms(2) by (simp add: set holds_templates_def)
qed

text \<open>The map of all templates, in the order of their ids.\<close>

definition id_map :: "('m, 't, 'd, 'v, 'c) ipap_lib \<Rightarrow> 'm \<Rightarrow> u16 set \<Rightarrow> (u16, 't) std_map \<Rightarrow> bool" where
  "id_map L m I ts = (map_ordered (<) ts \<and> fst ` set ts = I \<and> (\<forall>(i, t) \<in> set ts. template_object L i m = Some t))"

lemma id_map_insert:
  assumes "id_map L m I ts" "template_object L u m = Some t"
  shows "id_map L m (insert u I) (map_insert (<) u t ts)"
proof -
  have ord: "map_ordered (<) ts" and vals: "\<And>i t. (i, t) \<in> set ts \<Longrightarrow> template_object L i m = Some t"
    using assms(1) by (auto simp: id_map_def)
  have "template_object L i m = Some t'" if "(i, t') \<in> set (map_insert (<) u t ts)" for i t'
  proof -
    have "map_find (<) i (map_insert (<) u t ts) = Some t'"
      using that id_order.lookup_iff [OF id_order.ordered_insert [OF ord]] by blast
    then show ?thesis
      using assms(2) vals id_order.lookup_iff [OF ord] by (auto simp: id_order.insert_lookup [OF ord] split: if_splits)
  qed
  then show ?thesis
    using assms(1) id_order.ordered_insert [OF ord] id_order.keys_insert [OF ord] by (auto simp: id_map_def)
qed

lemma container_templates_map:
  assumes "id_map L m I ts" "\<forall>i \<in> set is. container_get L i c = template_object L (word_of_int i) m"
    and "\<forall>i \<in> set is. template_object L (word_of_int i) m \<noteq> None"
  shows "\<exists>ts'. container_templates L c is ts = Some ts' \<and> id_map L m (I \<union> set (map word_of_int is)) ts'"
  using assms
proof (induction "is" arbitrary: I ts)
  case (Cons i "is")
  obtain t where t: "template_object L (word_of_int i) m = Some t" using Cons.prems(3) by auto
  from Cons.IH [OF id_map_insert [OF Cons.prems(1) t]] show ?case using Cons.prems t by simp
qed auto

lemma all_templates_map:
  assumes "container_laws L" "id_map L m I ts" "\<forall>(k, c) \<in> set cs. holds_templates L m (J k) c"
    and "\<forall>k \<in> fst ` set cs. \<forall>u \<in> J k. template_object L u m \<noteq> None"
  shows "\<exists>ts'. all_templates L cs ts = Some ts' \<and> id_map L m (I \<union> \<Union> (J ` fst ` set cs)) ts'"
  using assms(2-4)
proof (induction cs arbitrary: I ts)
  case (Cons x cs)
  obtain k c where x: "x = (k, c)" by fastforce
  have "holds_templates L m (J k) c" and some: "\<forall>u \<in> J k. template_object L u m \<noteq> None" using Cons.prems x by auto
  note lst = holds_list [OF assms(1) this]
  have "\<forall>i \<in> set (container_list L c). template_object L (word_of_int i) m \<noteq> None" using lst(2) some by auto
  from container_templates_map [OF Cons.prems(1) lst(3) this] obtain ts1 where
    ts1: "container_templates L c (container_list L c) ts = Some ts1" "id_map L m (I \<union> J k) ts1" using lst(2) by auto
  obtain ts' where "all_templates L cs ts1 = Some ts'" "id_map L m (I \<union> J k \<union> \<Union> (J ` fst ` set cs)) ts'"
    using Cons.IH [OF ts1(2)] Cons.prems(2,3) by auto
  then show ?case using x ts1(1) by (simp add: Un_assoc)
qed auto

section \<open>The messages that can be exported\<close>

text \<open>
  Every field of every record is known to its template and has a text that is not empty, all numbers have the width
  of \<open>int\<close>, and all records describe objects of one type: the templates would be written more than once
  otherwise.
\<close>

definition record_fits :: "('m, 't, 'd, 'v, 'c) ipap_lib \<Rightarrow> 'm \<Rightarrow> 'd \<Rightarrow> bool" where
  "record_fits L m g = (\<exists>t. template_object L (record_template L g) m = Some t \<and>
     (\<forall>((e, f), v) \<in> set (record_entries L g). small e \<and> small f \<and>
        (\<exists>fd s. field_of L t e f = Some fd \<and> write_value L fd v = Some s \<and> s \<noteq> [])))"

definition known_ids :: "('m, 't, 'd, 'v, 'c) ipap_lib \<Rightarrow> 'm \<Rightarrow> u16 set" where
  "known_ids L m = {u. template_object L u m \<noteq> None}"

definition xml_exportable :: "('m, 't, 'd, 'v, 'c) ipap_lib \<Rightarrow> 'm \<Rightarrow> nat \<Rightarrow> bool" where
  "xml_exportable L m ot = (ot < max_object_type L \<and> set (data_types L) \<inter> set (option_types L) = {} \<and>
     small (domain_of L m) \<and> small (version_of L m) \<and>
     known_ids L m = word_of_int ` set (template_list L m) \<and>
     (\<forall>u t. template_object L u m = Some t \<longrightarrow> template_fits L t \<and> template_type L t \<in> set (data_types L) \<union> set (option_types L)) \<and>
     (\<forall>g \<in> set (records_of L m). record_fits L m g \<and> (\<exists>k. key_of L m g = Some k \<and> object_type k = int ot)))"

section \<open>What the splitter makes of them\<close>

lemma split_records_total:
  "\<forall>g \<in> set gs. key_of L m g \<noteq> None \<Longrightarrow> fst (split_records L m gs st) = Ok ()"
proof (induction gs arbitrary: st)
  case (Cons g gs)
  obtain inc sp where "st = (inc, sp)" by fastforce
  moreover obtain t k where "template_object L (record_template L g) m = Some t" "record_key L t g = Some k"
    using Cons.prems by (auto simp: key_of_def split: option.splits)
  ultimately show ?case using Cons by simp
qed (metis fst_conv split_records.simps(1))

lemma used_known: "xml_exportable L m ot \<Longrightarrow> record_template L ` set (records_of L m) \<subseteq> known_ids L m"
  unfolding xml_exportable_def record_fits_def known_ids_def by blast

lemma exportable_keys:
  assumes "xml_exportable L m ot"
  shows "consistent (keys_of L m (records_of L m))" "\<forall>k \<in> keys_of L m (records_of L m). object_type k = int ot"
proof -
  show *: "\<forall>k \<in> keys_of L m (records_of L m). object_type k = int ot"
    using assms by (force simp: xml_exportable_def keys_of_def)
  then show "consistent (keys_of L m (records_of L m))" by (simp add: consistent_def)
qed

definition records_with :: "('m, 't, 'd, 'v, 'c) ipap_lib \<Rightarrow> 'm \<Rightarrow> xml_object_key \<Rightarrow> 'd list" where
  "records_with L m k = filter (\<lambda>g. key_of L m g = Some k) (records_of L m)"

definition sorted_message :: "('m, 't, 'd, 'v, 'c) ipap_lib \<Rightarrow> 'm \<Rightarrow> ('d, 'c) splitter \<Rightarrow> bool" where
  "sorted_message L m sp = (splitter_ok (keys_of L m (records_of L m)) sp \<and>
     fst ` set (object_records sp) = keys_of L m (records_of L m) \<and>
     (\<forall>k. records_at k sp = records_with L m k \<and>
        holds_templates L m (record_template L ` set (records_with L m k)) (container_at L k sp)) \<and>
     holds_templates L m (known_ids L m - record_template L ` set (records_of L m)) (unrelated sp))"

lemma exportable_split:
  assumes "container_laws L" "builder_laws L" "xml_exportable L m ot"
  shows "\<exists>sp. split L m (new_splitter L) = (Ok (), sp) \<and> sorted_message L m sp"
proof -
  let ?gs = "records_of L m"
  have "\<forall>g \<in> set ?gs. key_of L m g \<noteq> None" using assms(3) by (auto simp: xml_exportable_def)
  from split_records_total [OF this, of "({}, new_splitter L)"] obtain inc sp1 where
    "split_records L m ?gs ({}, new_splitter L) = (Ok (), inc, sp1)" by (metis prod.collapse)
  then obtain sp where sp: "split L m (new_splitter L) = (Ok (), sp)" by (simp add: split_def)
  note res = split_result [OF exportable_keys(1) [OF assms(3)] sp]
  have used: "record_template L ` set ?gs \<subseteq> known_ids L m" by (rule used_known [OF assms(3)])
  have "holds_templates L m (record_template L ` set (records_with L m k)) (container_at L k sp)" for k
  proof -
    have "\<forall>u \<in> set (map (record_template L) (records_with L m k)). template_object L u m \<noteq> None"
      using used by (auto simp: records_with_def known_ids_def)
    from holds_fold [OF assms(1,2) holds_empty [OF assms(1)] this] show ?thesis
      using res by (simp add: fold_map comp_def records_with_def)
  qed
  moreover have "holds_templates L m (known_ids L m - record_template L ` set ?gs) (unrelated sp)"
  proof -
    let ?us = "filter (\<lambda>u. u \<notin> record_template L ` set ?gs) (map word_of_int (template_list L m))"
    have ids: "set ?us = known_ids L m - record_template L ` set ?gs" using assms(3) by (auto simp: xml_exportable_def)
    then have "\<forall>u \<in> set ?us. template_object L u m \<noteq> None" by (auto simp: known_ids_def)
    from holds_fold [OF assms(1,2) holds_empty [OF assms(1)] this] show ?thesis
      using res ids by (simp add: split_templates_fold)
  qed
  ultimately have "sorted_message L m sp" using res unfolding sorted_message_def records_with_def by blast
  then show ?thesis using sp by blast
qed

lemma sorted_templates:
  assumes "container_laws L" "sorted_message L m sp" "record_template L ` set (records_of L m) \<subseteq> known_ids L m"
    and "\<forall>g \<in> set (records_of L m). key_of L m g \<noteq> None"
  shows "\<exists>ts. all_templates L (object_templates sp) [] = Some ts \<and> id_map L m (record_template L ` set (records_of L m)) ts"
proof -
  let ?J = "\<lambda>k. record_template L ` set (records_with L m k)"
  have ord: "map_ordered lex_lt (object_templates sp)"
    and keys: "fst ` set (object_templates sp) = keys_of L m (records_of L m)"
    using assms(2) by (auto simp: sorted_message_def splitter_ok_def)
  have "holds_templates L m (?J k) c" if "(k, c) \<in> set (object_templates sp)" for k c
  proof -
    have "map_find lex_lt k (object_templates sp) = Some c" using that xml_order.lookup_iff [OF ord] by blast
    then have "container_at L k sp = c" by (simp add: container_at_def map_at_def)
    then show ?thesis using assms(2) unfolding sorted_message_def by blast
  qed
  then have held: "\<forall>(k, c) \<in> set (object_templates sp). holds_templates L m (?J k) c" by auto
  have "\<forall>k \<in> fst ` set (object_templates sp). \<forall>u \<in> ?J k. template_object L u m \<noteq> None"
    using assms(3) by (auto simp: records_with_def known_ids_def)
  from all_templates_map [OF assms(1) _ held this, of "{}" "[]"]
  have "\<exists>ts. all_templates L (object_templates sp) [] = Some ts \<and> id_map L m (\<Union> (?J ` keys_of L m (records_of L m))) ts"
    by (simp add: id_map_def keys)
  moreover have "\<Union> (?J ` keys_of L m (records_of L m)) = record_template L ` set (records_of L m)"
    using assms(4) by (fastforce simp: keys_of_def records_with_def)
  ultimately show ?thesis by simp
qed

section \<open>The tree of an exportable message\<close>

lemma key_insert_fold:
  assumes "consistent K" "set ks \<subseteq> K" "map_ordered lex_lt m" "fst ` set m \<subseteq> K"
  shows "map_ordered lex_lt (fold key_insert ks m) \<and> fst ` set (fold key_insert ks m) = fst ` set m \<union> set ks"
  using assms(2-4)
proof (induction ks arbitrary: m)
  case (Cons k ks)
  have "k \<in> K" using Cons.prems by simp
  note lex = key_map_lex [OF assms(1) this Cons.prems(3)]
  have ord: "map_ordered lex_lt (key_insert k m)" and keys: "fst ` set (key_insert k m) = insert k (fst ` set m)"
    using xml_order.ordered_insert [OF Cons.prems(2)] xml_order.keys_insert [OF Cons.prems(2)] Cons.prems(2)
      xml_order.lookup_none_iff [OF Cons.prems(2), of k] by (auto simp: key_insert_def lex)
  have "map_ordered lex_lt (fold key_insert ks (key_insert k m)) \<and>
      fst ` set (fold key_insert ks (key_insert k m)) = fst ` set (key_insert k m) \<union> set ks"
    by (rule Cons.IH) (use Cons.prems ord keys in auto)
  then show ?case using keys by simp
qed simp

lemma keys_of_type_sorted:
  assumes "consistent K" "splitter_ok K sp"
  shows "distinct (keys_of_type ot sp) \<and> set (keys_of_type ot sp) = {k \<in> fst ` set (object_records sp). object_type k = ot}"
proof -
  let ?a = "filter (\<lambda>k. object_type k = ot) (map fst (object_templates sp))"
  let ?b = "filter (\<lambda>k. object_type k = ot) (map fst (object_records sp))"
  have sub: "set ?a \<subseteq> K" "set ?b \<subseteq> K" and same: "fst ` set (object_templates sp) = fst ` set (object_records sp)"
    using assms(2) by (auto simp: splitter_ok_def)
  have a: "map_ordered lex_lt (fold key_insert ?a [])" "fst ` set (fold key_insert ?a []) = set ?a"
    using key_insert_fold [OF assms(1) sub(1), of "[]"] by simp_all
  have b: "map_ordered lex_lt (fold key_insert ?b (fold key_insert ?a []))"
    "fst ` set (fold key_insert ?b (fold key_insert ?a [])) = set ?a \<union> set ?b"
    using key_insert_fold [OF assms(1) sub(2) a(1)] a(2) sub(1) by simp_all
  then show ?thesis
    using xml_order.ordered_keys_distinct [OF b(1)] same by (auto simp: keys_of_type_def)
qed

definition template_of :: "('m, 't, 'd, 'v, 'c) ipap_lib \<Rightarrow> 'm \<Rightarrow> 'd \<Rightarrow> 't" where
  "template_of L m g = the (template_object L (record_template L g) m)"

definition rnode :: "('m, 't, 'd, 'v, 'c) ipap_lib \<Rightarrow> 'm \<Rightarrow> 'd \<Rightarrow> xml_node" where
  "rnode L m g = the (record_node L (template_of L m g) ''FIELD'' g)"

lemma fields_gathered:
  assumes "record_fits L m g"
  shows "\<exists>ns. gather (field_node L (template_of L m g) ''FIELD'') (record_entries L g) = Some ns"
proof -
  have "\<exists>ns. gather (field_node L t ''FIELD'') xs = Some ns"
    if "\<forall>((e, f), v) \<in> set xs. \<exists>fd s. field_of L t e f = Some fd \<and> write_value L fd v = Some s" for t xs
    using that by (induction xs) (auto simp: field_node_def)
  then show ?thesis using assms unfolding record_fits_def template_of_def by (elim exE conjE) (auto; fastforce)
qed

lemma getTemplate_sorted:
  assumes "sorted_message L m sp" "consistent (keys_of L m (records_of L m))" "g \<in> set (records_with L m k)"
  shows "getTemplate L sp k (record_template L g) = template_object L (record_template L g) m"
proof -
  let ?K = "keys_of L m (records_of L m)"
  have ok: "splitter_ok ?K sp" and k: "k \<in> ?K" using assms(1,3) by (auto simp: sorted_message_def records_with_def keys_of_def)
  then have sub: "fst ` set (object_templates sp) \<subseteq> ?K" and ord: "map_ordered lex_lt (object_templates sp)"
    and mem: "k \<in> fst ` set (object_templates sp)"
    using assms(1) by (auto simp: splitter_ok_def sorted_message_def)
  obtain c where c: "map_find lex_lt k (object_templates sp) = Some c"
    using xml_order.lookup_none_iff [OF ord] mem by blast
  have "holds_templates L m (record_template L ` set (records_with L m k)) c"
    using assms(1) c by (auto simp: sorted_message_def container_at_def map_at_def dest!: spec [where x = k])
  then have "container_get L (int (unat (record_template L g))) c = template_object L (record_template L g) m"
    by (rule holds_get) (use assms(3) in blast)
  then show ?thesis
    unfolding getTemplate_def key_map_lex(1) [OF assms(2) k sub] c by (simp only: option.case)
qed

lemma key_nodes_sorted:
  assumes "xml_exportable L m ot" "sorted_message L m sp"
  shows "\<exists>gs. key_nodes L sp k = Some (map (rnode L m) gs) \<and> mset gs = mset (records_with L m k)"
proof -
  let ?in = "\<lambda>types g. template_type L (template_of L m g) \<in> set types"
  have node: "printed_nodes L types ''FIELD'' sp k g = Some (if ?in types g then [rnode L m g] else [])"
    if g: "g \<in> set (records_with L m k)" for types g
  proof -
    have fits: "record_fits L m g" using assms(1) g by (simp add: xml_exportable_def records_with_def)
    then have t: "template_object L (record_template L g) m = Some (template_of L m g)"
      by (auto simp: record_fits_def template_of_def)
    show ?thesis
      using getTemplate_sorted [OF assms(2) exportable_keys(1) [OF assms(1)] g] t fields_gathered [OF fits]
      by (auto simp: printed_nodes_def rnode_def record_node_def)
  qed
  have printed: "gather (printed_nodes L types ''FIELD'' sp k) (records_at k sp) =
      Some (map (rnode L m) (filter (?in types) (records_with L m k)))" for types
  proof -
    have at: "records_at k sp = records_with L m k" using assms(2) by (simp add: sorted_message_def)
    have "gather (printed_nodes L types ''FIELD'' sp k) (records_with L m k) =
        Some (concat (map (\<lambda>g. if ?in types g then [rnode L m g] else []) (records_with L m k)))"
      by (rule gather_total) (rule node)
    then show ?thesis by (simp only: at concat_map_if)
  qed
  have part: "filter (?in (option_types L)) (records_with L m k) = filter (\<lambda>g. \<not> ?in (data_types L) g) (records_with L m k)"
  proof (rule filter_cong [OF refl])
    fix g assume "g \<in> set (records_with L m k)"
    then have "template_object L (record_template L g) m = Some (template_of L m g)"
      using assms(1) by (auto simp: xml_exportable_def records_with_def record_fits_def template_of_def)
    then show "?in (option_types L) g = (\<not> ?in (data_types L) g)" using assms(1) by (auto simp: xml_exportable_def)
  qed
  have "key_nodes L sp k = Some (map (rnode L m)
      (filter (?in (data_types L)) (records_with L m k) @ filter (?in (option_types L)) (records_with L m k)))"
    by (simp add: key_nodes_def DATA_XML_ELEMENT_def OPTION_XML_ELEMENT_def printed)
  moreover have "mset (filter (?in (data_types L)) (records_with L m k) @ filter (?in (option_types L)) (records_with L m k)) =
      mset (records_with L m k)"
    unfolding part by (simp add: multiset_partition [symmetric])
  ultimately show ?thesis by blast
qed

lemma objects_sorted:
  assumes "container_laws L" "xml_exportable L m ot" "sorted_message L m sp"
  shows "\<exists>ts gs. gather (object_nodes L sp) (map int [0..<max_object_type L]) =
      Some (map (\<lambda>(i, t). template_node L t) ts @ map (rnode L m) gs) \<and>
    id_map L m (record_template L ` set (records_of L m)) ts \<and> mset gs = mset (records_of L m)"
proof -
  let ?K = "keys_of L m (records_of L m)" and ?ks = "keys_of_type (int ot) sp"
  have some: "\<forall>g \<in> set (records_of L m). key_of L m g \<noteq> None" using assms(2) by (auto simp: xml_exportable_def)
  obtain ts where ts: "all_templates L (object_templates sp) [] = Some ts" "id_map L m (record_template L ` set (records_of L m)) ts"
    using sorted_templates [OF assms(1,3) used_known [OF assms(2)] some] by blast
  have keys: "distinct (keys_of_type j sp)" "set (keys_of_type j sp) = {k \<in> ?K. object_type k = j}" for j
    using keys_of_type_sorted [OF exportable_keys(1) [OF assms(2)], of sp j] assms(3) by (simp_all add: sorted_message_def)
  have "\<forall>k. \<exists>gs. key_nodes L sp k = Some (map (rnode L m) gs) \<and> mset gs = mset (records_with L m k)"
    using key_nodes_sorted [OF assms(2,3)] by blast
  then obtain G where G: "\<And>k. key_nodes L sp k = Some (map (rnode L m) (G k))" "\<And>k. mset (G k) = mset (records_with L m k)"
    by metis
  let ?gs = "concat (map G ?ks)"
  have "mset (concat (map G ks)) = mset (concat (map (records_with L m) ks))" for ks by (induction ks) (simp_all add: G(2))
  moreover have "mset (concat (map (records_with L m) ?ks)) = mset (records_of L m)"
  proof -
    have "\<forall>g \<in> set (records_of L m). key_of L m g \<in> Some ` set ?ks"
      using some exportable_keys(2) [OF assms(2)] by (fastforce simp: keys keys_of_def)
    from mset_concat_filter [OF keys(1) this] show ?thesis by (simp add: records_with_def [abs_def])
  qed
  ultimately have perm: "mset ?gs = mset (records_of L m)" by simp
  have kn: "gather (key_nodes L sp) ks = Some (map (rnode L m) (concat (map G ks)))" for ks
    using gather_total [of ks "key_nodes L sp" "\<lambda>k. map (rnode L m) (G k)"] by (simp add: G(1) map_concat comp_def)
  let ?ns = "map (\<lambda>(i, t). template_node L t) ts @ map (rnode L m) ?gs"
  have none: "?ns = []" if "?ks = []"
  proof -
    have "records_of L m = []" using perm that by simp
    then show ?thesis using ts(2) that by (simp add: id_map_def)
  qed
  have "object_nodes L sp j = Some (if j = int ot then ?ns else [])" for j
  proof (cases "j = int ot")
    case True
    then show ?thesis using ts(1) kn none by (cases "?ks = []") (simp_all add: object_nodes_def)
  next
    case False
    have "keys_of_type j sp = []"
    proof -
      have "set (keys_of_type j sp) = {}" using False exportable_keys(2) [OF assms(2)] by (auto simp: keys)
      then show ?thesis by simp
    qed
    then show ?thesis using False by (simp add: object_nodes_def)
  qed
  then have "gather (object_nodes L sp) js = Some (concat (map (\<lambda>j. if j = int ot then ?ns else []) js))" for js
    by (intro gather_total)
  moreover have "distinct (map int [0..<max_object_type L])" by (simp add: distinct_map)
  moreover have "int ot \<in> set (map int [0..<max_object_type L])" using assms(2) by (simp add: xml_exportable_def)
  ultimately show ?thesis using ts(2) perm concat_map_single by metis
qed

definition message_content :: "('m, 't, 'd, 'v, 'c) ipap_lib \<Rightarrow> 'm \<Rightarrow> 't list \<Rightarrow> 'd list \<Rightarrow> bool" where
  "message_content L m ts gs = (distinct (map (template_id L) ts) \<and> template_id L ` set ts = known_ids L m \<and>
     (\<forall>t \<in> set ts. template_object L (template_id L t) m = Some t) \<and> mset gs = mset (records_of L m))"

lemma nodes_sorted:
  assumes "container_laws L" "builder_laws L" "xml_exportable L m ot" "sorted_message L m sp"
  shows "\<exists>ts gs. message_nodes L sp = Some (map (template_node L) ts @ map (rnode L m) gs) \<and> message_content L m ts gs"
proof -
  let ?used = "record_template L ` set (records_of L m)"
  obtain ts gs where objs: "gather (object_nodes L sp) (map int [0..<max_object_type L]) =
      Some (map (\<lambda>(i, t). template_node L t) ts @ map (rnode L m) gs)"
    "id_map L m ?used ts" "mset gs = mset (records_of L m)"
    using objects_sorted [OF assms(1,3,4)] by blast
  have ids: "template_id L t = u" if "template_object L u m = Some t" for t u
    using assms(2) that unfolding builder_laws_def by blast
  let ?c = "unrelated sp" and ?un = "known_ids L m - ?used"
  let ?us = "map word_of_int (container_list L ?c) :: u16 list"
  have "holds_templates L m ?un ?c" using assms(4) by (simp add: sorted_message_def)
  note lst = holds_list [OF assms(1) this]
  have known: "\<forall>u \<in> ?un. template_object L u m \<noteq> None" by (simp add: known_ids_def del: not_None_eq)
  let ?t = "\<lambda>u. the (template_object L u m)"
  have t: "template_object L u m = Some (?t u)" if "u \<in> ?un" for u using known that by auto
  have "gather (unrelated_node L ?c) (container_list L ?c) =
      Some (concat (map (\<lambda>i. [template_node L (?t (word_of_int i))]) (container_list L ?c)))"
  proof (rule gather_total)
    fix i assume i: "i \<in> set (container_list L ?c)"
    then have "word_of_int i \<in> ?un" using lst(2) [OF known] by auto
    then obtain x where "template_object L (word_of_int i) m = Some x" using t by blast
    then show "unrelated_node L ?c i = Some [template_node L (?t (word_of_int i))]"
      using lst(3) [OF known] i by (simp add: unrelated_node_def)
  qed
  then have un: "gather (unrelated_node L ?c) (container_list L ?c) = Some (map (template_node L) (map ?t ?us))"
    by (simp add: comp_def)
  have idu: "map (template_id L) (map ?t ?us) = ?us"
  proof -
    have "(template_id L \<circ> ?t) u = u" if "u \<in> set ?us" for u using that lst(2) [OF known] t ids by auto
    then have "map (template_id L \<circ> ?t) ?us = ?us" by (rule map_idI)
    then show ?thesis by (simp only: map_map comp_assoc)
  qed
  have ido: "map (template_id L) (map snd ts) = map fst ts" and obj: "\<forall>x \<in> set ts. template_object L (fst x) m = Some (snd x)"
    using objs(2) ids by (auto simp: id_map_def)
  have "message_content L m (map ?t ?us @ map snd ts) gs"
    unfolding message_content_def
  proof (intro conjI)
    have "distinct (map fst ts)" "fst ` set ts = ?used"
      using objs(2) id_order.ordered_keys_distinct by (auto simp: id_map_def)
    then show "distinct (map (template_id L) (map ?t ?us @ map snd ts))"
      using lst(1,2) [OF known] by (simp only: map_append idu ido distinct_append set_map) auto
    have "template_id L ` set (map ?t ?us @ map snd ts) = set (map (template_id L) (map ?t ?us) @ map (template_id L) (map snd ts))"
      by (simp add: image_Un image_image)
    also have "\<dots> = known_ids L m"
      using lst(2) [OF known] used_known [OF assms(3)] \<open>fst ` set ts = ?used\<close> by (simp only: idu ido set_append set_map) auto
    finally show "template_id L ` set (map ?t ?us @ map snd ts) = known_ids L m" .
    show "\<forall>x \<in> set (map ?t ?us @ map snd ts). template_object L (template_id L x) m = Some x"
    proof
      fix x assume "x \<in> set (map ?t ?us @ map snd ts)"
      then obtain u where "template_object L u m = Some x" using lst(2) [OF known] t obj by fastforce
      then show "template_object L (template_id L x) m = Some x" using ids by simp
    qed
  qed (rule objs(3))
  moreover have "message_nodes L sp = Some (map (template_node L) (map ?t ?us @ map snd ts) @ map (rnode L m) gs)"
    using un objs(1) by (simp add: message_nodes_def comp_def case_prod_unfold)
  ultimately show ?thesis by blast
qed

section \<open>Reading the tree\<close>

lemma rnode_shape:
  assumes "record_fits L m g"
  shows "\<exists>ns. rnode L m g = Xml_node ''DATARECORD'' (document_ns L) [(''TEMPLATE_ID'', decimal (unat (record_template L g)))] None ns \<and>
    gather (field_node L (template_of L m g) ''FIELD'') (record_entries L g) = Some ns"
  using fields_gathered [OF assms] by (auto simp: rnode_def record_node_def IPAP_XML_RECORD_def)

lemma builder_make:
  assumes "builder_laws L" "0 < num_fields L t" "template_object L (template_id L t) m = None"
  shows "\<exists>m' t'. make_template L (map field_entry (template_fields L t)) (num_fields L t) (int (template_type L t)) (template_id L t) m = Some m' \<and>
    same_template L t t' \<and> (\<forall>i. template_object L i m' = (if i = template_id L t then Some t' else template_object L i m)) \<and>
    records_of L m' = records_of L m \<and> numbers L m' = numbers L m"
  using assms unfolding builder_laws_def by blast

lemma builder_include:
  assumes "builder_laws L" "template_object L i m \<noteq> None"
  shows "\<exists>m'. include_data L i g m = Some m' \<and> records_of L m' = records_of L m @ [g] \<and>
    (\<forall>j. template_object L j m' = template_object L j m) \<and> numbers L m' = numbers L m"
  using assms unfolding builder_laws_def by blast

definition has_templates :: "('m, 't, 'd, 'v, 'c) ipap_lib \<Rightarrow> 't list \<Rightarrow> 'm \<Rightarrow> bool" where
  "has_templates L ts m = (\<forall>t \<in> set ts. \<exists>t'. template_object L (template_id L t) m = Some t' \<and> same_template L t t')"

lemma read_templates_written:
  assumes "builder_laws L" "\<forall>t \<in> set ts. template_fits L t" "distinct (map (template_id L) ts)"
    and "\<forall>t \<in> set ts. template_object L (template_id L t) m = None" "\<forall>n \<in> set rest. \<not> is_element L ''TEMPLATE'' n"
  shows "\<exists>m'. read_templates L (map (template_node L) ts @ rest) m = Ok m' \<and> has_templates L ts m' \<and>
    (\<forall>i. i \<notin> template_id L ` set ts \<longrightarrow> template_object L i m' = template_object L i m) \<and>
    records_of L m' = records_of L m \<and> numbers L m' = numbers L m"
  using assms(2-4)
proof (induction ts arbitrary: m)
  case Nil
  have "read_templates L rest m = Ok m" using read_templates_skip [OF assms(5), of "[]" m] by simp
  then show ?case by (simp add: has_templates_def)
next
  case (Cons t ts)
  have fits: "template_fits L t" and new: "template_object L (template_id L t) m = None" using Cons.prems by simp_all
  then have "0 < num_fields L t" by (simp add: template_fits_def)
  from builder_make [OF assms(1) this new] obtain m1 t' where
    m1: "make_template L (map field_entry (template_fields L t)) (num_fields L t) (int (template_type L t)) (template_id L t) m = Some m1"
    "same_template L t t'" "\<And>i. template_object L i m1 = (if i = template_id L t then Some t' else template_object L i m)"
    "records_of L m1 = records_of L m" "numbers L m1 = numbers L m" by blast
  have "\<exists>m'. read_templates L (map (template_node L) ts @ rest) m1 = Ok m' \<and> has_templates L ts m' \<and>
      (\<forall>i. i \<notin> template_id L ` set ts \<longrightarrow> template_object L i m' = template_object L i m1) \<and>
      records_of L m' = records_of L m1 \<and> numbers L m' = numbers L m1"
    by (rule Cons.IH) (use Cons.prems m1(3) in \<open>auto simp: image_iff\<close>)
  then obtain m' where m': "read_templates L (map (template_node L) ts @ rest) m1 = Ok m'" "has_templates L ts m'"
    "\<And>i. i \<notin> template_id L ` set ts \<Longrightarrow> template_object L i m' = template_object L i m1"
    "records_of L m' = records_of L m1" "numbers L m' = numbers L m1" by blast
  have "template_object L (template_id L t) m' = Some t'" using m'(3) m1(3) Cons.prems(2) by simp
  then have "has_templates L (t # ts) m'" using m'(2) m1(2) by (auto simp: has_templates_def)
  moreover have "is_element L ''TEMPLATE'' (template_node L t)" by (simp add: is_element_def template_node_def)
  ultimately show ?case
    using m1 m' read_template_node [OF fits, of m] by auto
qed

lemma read_all_records_skip:
  "\<forall>n \<in> set pre. \<not> is_element L ''DATARECORD'' n \<Longrightarrow> read_all_records L (pre @ ns) m = read_all_records L ns m"
  by (induction pre) auto

lemma read_record_written:
  assumes "builder_laws L" "record_fits L m g"
    and "template_object L (record_template L g) m1 = Some t'" "same_template L (template_of L m g) t'"
  shows "ReadRecords L (rnode L m g) (record_template L g) m1 = rethrow L
    (case include_data L (record_template L g) g m1 of None \<Rightarrow> Throw Ipap_bad_argument | Some m' \<Rightarrow> Ok m')"
proof -
  obtain ns where ns: "nd_children (rnode L m g) = ns"
    "gather (field_node L (template_of L m g) ''FIELD'') (record_entries L g) = Some ns"
    using rnode_shape [OF assms(2)] by auto
  have "read_fields L (Some t') ns (new_record L (record_template L g)) = Ok g"
  proof (rule read_fields_written [OF ns(2) assms(4)])
    show "\<forall>t e f fd. field_of L t e f = Some fd \<longrightarrow> fd_eno fd = e \<and> fd_ftype fd = f"
      and "insert_all L (record_entries L g) (new_record L (record_template L g)) = Some g"
      using assms(1) unfolding builder_laws_def by blast+
    show "\<forall>((e, f), v) \<in> set (record_entries L g). small e \<and> small f \<and>
        (\<forall>fd. field_of L (template_of L m g) e f = Some fd \<longrightarrow> write_value L fd v \<noteq> Some [])"
      using assms(2) by (fastforce simp: record_fits_def template_of_def)
  qed
  then show ?thesis by (simp add: ReadRecords_def ns(1) assms(3))
qed

lemma read_records_written:
  assumes "builder_laws L" "\<forall>g \<in> set gs. record_fits L m g"
    and "\<forall>g \<in> set gs. \<exists>t'. template_object L (record_template L g) m1 = Some t' \<and> same_template L (template_of L m g) t'"
  shows "\<exists>m'. read_all_records L (map (rnode L m) gs) m1 = Ok m' \<and> records_of L m' = records_of L m1 @ gs \<and>
    (\<forall>j. template_object L j m' = template_object L j m1) \<and> numbers L m' = numbers L m1"
  using assms(2,3)
proof (induction gs arbitrary: m1)
  case (Cons g gs)
  have fits: "record_fits L m g" using Cons.prems(1) by simp
  obtain t' where t': "template_object L (record_template L g) m1 = Some t'" "same_template L (template_of L m g) t'"
    using Cons.prems(2) by auto
  obtain m2 where m2: "include_data L (record_template L g) g m1 = Some m2" "records_of L m2 = records_of L m1 @ [g]"
    "\<And>j. template_object L j m2 = template_object L j m1" "numbers L m2 = numbers L m1"
    using builder_include [OF assms(1), of "record_template L g" m1 g] t'(1) by auto
  have one: "is_element L ''DATARECORD'' (rnode L m g)"
    "uint16_or (garbage16 L) (xml_prop ''TEMPLATE_ID'' (rnode L m g)) = record_template L g"
    using rnode_shape [OF fits] by (auto simp: is_element_def xml_prop_def uint16_or_unat)
  have "\<exists>m'. read_all_records L (map (rnode L m) gs) m2 = Ok m' \<and> records_of L m' = records_of L m2 @ gs \<and>
      (\<forall>j. template_object L j m' = template_object L j m2) \<and> numbers L m' = numbers L m2"
    by (rule Cons.IH) (use Cons.prems m2(3) in auto)
  then show ?case using one m2 read_record_written [OF assms(1) fits t'] by auto
qed auto

section \<open>The round trip\<close>

lemma read_header_written:
  assumes "small (domain_of L m)" "small (version_of L m)"
  shows "\<exists>di ver. read_header L [Xml_node IPAP_XML_ROOT (document_ns L) (message_attributes L m) None ns] =
      (di, ver, exporttime_of L m, seqno_of L m, ackseqno_of L m) \<and> sint di = domain_of L m \<and> sint ver = version_of L m"
  using assms by (simp add: read_header_def is_element_def message_attributes_def xml_prop_def atoi_unat sint_atoi)

text \<open>The message that was read and the message that was written.\<close>

definition same_message :: "('m, 't, 'd, 'v, 'c) ipap_lib \<Rightarrow> 'm \<Rightarrow> 'm \<Rightarrow> bool" where
  "same_message L m m' = (numbers L m' = numbers L m \<and> mset (records_of L m') = mset (records_of L m) \<and>
     known_ids L m' = known_ids L m \<and>
     (\<forall>u t. template_object L u m = Some t \<longrightarrow> (\<exists>t'. template_object L u m' = Some t' \<and> same_template L t t')))"

lemma read_written_nodes:
  assumes "builder_laws L" "xml_exportable L m ot" "message_content L m ts gs"
    and "numbers L m0 = numbers L m" "records_of L m0 = []" "\<forall>i. template_object L i m0 = None"
  shows "\<exists>m1 m'. read_templates L (map (template_node L) ts @ map (rnode L m) gs) m0 = Ok m1 \<and>
    read_all_records L (map (template_node L) ts @ map (rnode L m) gs) m1 = Ok m' \<and> same_message L m m'"
proof -
  have content: "distinct (map (template_id L) ts)" "template_id L ` set ts = known_ids L m"
    "\<And>t. t \<in> set ts \<Longrightarrow> template_object L (template_id L t) m = Some t" "mset gs = mset (records_of L m)"
    using assms(3) by (auto simp: message_content_def)
  then have same: "set gs = set (records_of L m)" by (metis mset_eq_setD)
  have fits: "\<forall>t \<in> set ts. template_fits L t" and rfits: "\<forall>g \<in> set gs. record_fits L m g"
    using assms(2) content(3) unfolding xml_exportable_def same by blast+
  have "\<forall>n \<in> set (map (rnode L m) gs). \<not> is_element L ''TEMPLATE'' n"
  proof
    fix n assume "n \<in> set (map (rnode L m) gs)"
    then obtain g where "g \<in> set gs" "n = rnode L m g" by auto
    then show "\<not> is_element L ''TEMPLATE'' n" using rfits rnode_shape [of L m g] by (auto simp: is_element_def)
  qed
  moreover have "\<forall>t \<in> set ts. template_object L (template_id L t) m0 = None" using assms(6) by simp
  ultimately obtain m1 where m1: "read_templates L (map (template_node L) ts @ map (rnode L m) gs) m0 = Ok m1"
    "has_templates L ts m1" "\<And>i. i \<notin> known_ids L m \<Longrightarrow> template_object L i m1 = None"
    "records_of L m1 = []" "numbers L m1 = numbers L m"
    using read_templates_written [OF assms(1) fits content(1)] assms(4-6) content(2) by metis
  have got: "\<exists>t'. template_object L u m1 = Some t' \<and> same_template L t t'" if "template_object L u m = Some t" for u t
  proof -
    have "u \<in> template_id L ` set ts" using that by (simp add: content(2) known_ids_def)
    then obtain x where x: "x \<in> set ts" "template_id L x = u" by auto
    then have "x = t" using content(3) that by fastforce
    then show ?thesis using m1(2) x by (auto simp: has_templates_def)
  qed
  have "\<forall>g \<in> set gs. \<exists>t'. template_object L (record_template L g) m1 = Some t' \<and> same_template L (template_of L m g) t'"
    using rfits got by (auto simp: record_fits_def template_of_def)
  from read_records_written [OF assms(1) rfits this] obtain m' where m': "read_all_records L (map (rnode L m) gs) m1 = Ok m'"
    "records_of L m' = gs" "\<And>j. template_object L j m' = template_object L j m1" "numbers L m' = numbers L m"
    using m1(4,5) by auto
  have "\<forall>n \<in> set (map (template_node L) ts). \<not> is_element L ''DATARECORD'' n"
    by (auto simp: is_element_def template_node_def)
  then have "read_all_records L (map (template_node L) ts @ map (rnode L m) gs) m1 = Ok m'"
    using m'(1) by (simp add: read_all_records_skip)
  moreover have "known_ids L m' = known_ids L m"
  proof (intro set_eqI iffI)
    fix u assume *: "u \<in> known_ids L m'"
    show "u \<in> known_ids L m"
    proof (rule ccontr)
      assume "u \<notin> known_ids L m"
      from m1(3) [OF this] show False using * m'(3) by (simp add: known_ids_def)
    qed
  next
    fix u assume "u \<in> known_ids L m"
    then show "u \<in> known_ids L m'" using m'(3) got [of u] by (auto simp: known_ids_def)
  qed
  ultimately show ?thesis using m1(1) m' got content(4) by (auto simp: same_message_def)
qed

lemma exportable_tree:
  assumes "container_laws L" "builder_laws L" "xml_exportable L m ot"
  shows "\<exists>sp ts gs. split L m (new_splitter L) = (Ok (), sp) \<and> message_content L m ts gs \<and>
    message_tree L m sp = Some (Xml_node IPAP_XML_ROOT (document_ns L) (message_attributes L m) None
      (map (template_node L) ts @ map (rnode L m) gs))"
  using exportable_split [OF assms] nodes_sorted [OF assms] by (fastforce simp: message_tree_def)

text \<open>
  C15: the XML document of a message that can be exported is read back as the same message: the writer returns a text
  without an exception, and reading this text gives a message with the same numbers, the same records and for
  every template one with the same id, type and fields. The laws of \<open>libipap\<close> are those of containers and
  of making messages; of \<open>libxml2\<close>, that it accepts the calls for this one document and parses the buffer as the
  tree whose calls were made.
\<close>

theorem xml_message_roundtrip:
  assumes "container_laws L" "builder_laws L" "xml_exportable L m ot"
    and "split L m (new_splitter L) = (r, sp)" "message_tree L m sp = Some tree"
    and "accepts_all L [] (prolog @ node_calls tree)" "parse_document L (buffer_text L (prolog @ node_calls tree)) = Some [tree]"
  shows "\<exists>text m'. get_message L m (new_splitter L) = (Ok text, sp) \<and> from_message L text = Ok m' \<and> same_message L m m'"
proof -
  obtain ts gs where r: "r = Ok ()" and content: "message_content L m ts gs"
    and tree: "tree = Xml_node IPAP_XML_ROOT (document_ns L) (message_attributes L m) None (map (template_node L) ts @ map (rnode L m) gs)"
    using exportable_tree [OF assms(1-3)] assms(4,5) by auto
  let ?text = "buffer_text L (prolog @ node_calls tree)"
  have "write_document L m sp [] = (Ok (), prolog @ node_calls tree)"
    using emits_document [OF assms(5)] assms(6) by (simp add: emits_def)
  then have "get_message L m (new_splitter L) = (Ok ?text, sp)" using assms(4) r by (simp add: get_message_def)
  moreover have "\<exists>m'. from_message L ?text = Ok m' \<and> same_message L m m'"
  proof -
    have "small (domain_of L m)" "small (version_of L m)" using assms(3) by (auto simp: xml_exportable_def)
    from read_header_written [OF this, of "nd_children tree"] obtain di ver where
      head: "read_header L [tree] = (di, ver, exporttime_of L m, seqno_of L m, ackseqno_of L m)"
        "sint di = domain_of L m" "sint ver = version_of L m" by (auto simp: tree)
    let ?m0 = "with_numbers L (seqno_of L m) (ackseqno_of L m) (exporttime_of L m) (new_message L (domain_of L m) (version_of L m))"
    have "numbers L ?m0 = numbers L m" "records_of L ?m0 = []" "\<forall>i. template_object L i ?m0 = None"
      using assms(2) unfolding builder_laws_def Let_def by (simp_all add: numbers_def)
    from read_written_nodes [OF assms(2,3) content this] show ?thesis
      using head assms(7) by (auto simp: from_message_def tree Let_def)
  qed
  ultimately show ?thesis by blast
qed

end
