(* ===== verification/Ipap_Xml_Examples.thy ===== *)
theory Ipap_Xml_Examples
  imports Ipap_Xml_Roundtrip
begin

text \<open>
  A small instance of the external libraries on which their laws hold, and the properties of the XML theories at a
  message with a data record, an option of another object, and a template without records.
\<close>

section \<open>An instance of the libraries\<close>

record sample_template =
  st_id :: u16
  st_type :: nat
  st_fields :: "ipap_field list"

record sample_message =
  sm_numbers :: "int \<times> int \<times> u32 \<times> u32 \<times> u32"
  sm_templates :: "sample_template list"
  sm_records :: "(u16 \<times> ((int \<times> int) \<times> string) list) list"

definition sample_field :: "ipap_fields \<Rightarrow> ipap_field" where
  "sample_field fs = \<lparr>fd_eno = uint (fs_eno fs), fd_ftype = uint (fs_ienum fs), fd_coding = 0, fd_length = uint (fs_length fs),
     fd_xml_name = ''field'', fd_name = ''a field''\<rparr>"

definition with_id :: "u16 \<Rightarrow> sample_template list \<Rightarrow> sample_template option" where
  "with_id i = find (\<lambda>t. st_id t = i)"

definition sample_field_of :: "sample_template \<Rightarrow> int \<Rightarrow> int \<Rightarrow> ipap_field option" where
  "sample_field_of t e f = (if 0 \<le> e \<and> e < 2 ^ 32 \<and> 0 \<le> f \<and> f < 2 ^ 16
     then find (\<lambda>fd. fd_eno fd = e \<and> fd_ftype fd = f) (st_fields t) else None)"

definition sample_add :: "sample_template option \<Rightarrow> sample_template list \<Rightarrow> sample_template list" where
  "sample_add = (\<lambda>t c. case t of None \<Rightarrow> c | Some t \<Rightarrow> if with_id (st_id t) c = None then c @ [t] else c)"

fun call_text :: "xml_call \<Rightarrow> string" where
  "call_text Start_document = ''<?xml version=1.0?>''"
| "call_text (Start_dtd n f) = ''<!DOCTYPE '' @ n @ '' SYSTEM '' @ f"
| "call_text End_dtd = ''>''"
| "call_text (Start_element n) = ''<'' @ n @ ''>''"
| "call_text (Write_attribute a v) = a @ ''='' @ v"
| "call_text (Write_string s) = s"
| "call_text End_element = ''</>''"

text \<open>The last two arguments: the calls that the writer of libxml2 accepts, and the documents that its parser knows.\<close>

definition sample_lib :: "(xml_call list \<Rightarrow> xml_call \<Rightarrow> bool) \<Rightarrow> (string \<Rightarrow> xml_node list option)
    \<Rightarrow> (sample_message, sample_template, u16 \<times> ((int \<times> int) \<times> string) list, string, sample_template list) ipap_lib" where
  "sample_lib acc docs = \<lparr>records_of = sm_records, template_object = (\<lambda>i m. with_id i (sm_templates m)),
     template_list = (\<lambda>m. map (\<lambda>t. int (unat (st_id t))) (sm_templates m)),
     last_template_id = (\<lambda>m. case rev (sm_templates m) of [] \<Rightarrow> 0 | t # _ \<Rightarrow> st_id t),
     domain_of = (\<lambda>m. fst (sm_numbers m)), version_of = (\<lambda>m. fst (snd (sm_numbers m))),
     exporttime_of = (\<lambda>m. fst (snd (snd (sm_numbers m)))), seqno_of = (\<lambda>m. fst (snd (snd (snd (sm_numbers m))))),
     ackseqno_of = (\<lambda>m. snd (snd (snd (snd (sm_numbers m))))),
     new_message = (\<lambda>d v. \<lparr>sm_numbers = (d, v, 0, 0, 0), sm_templates = [], sm_records = []\<rparr>),
     with_numbers = (\<lambda>sq ack ext m. m\<lparr>sm_numbers := (fst (sm_numbers m), fst (snd (sm_numbers m)), ext, sq, ack)\<rparr>),
     make_template = (\<lambda>fs n ty i m. if with_id i (sm_templates m) = None
        then Some (m\<lparr>sm_templates := sm_templates m @ [\<lparr>st_id = i, st_type = nat ty, st_fields = map sample_field (take n fs)\<rparr>]\<rparr>) else None),
     include_data = (\<lambda>i g m. if with_id i (sm_templates m) = None then None else Some (m\<lparr>sm_records := sm_records m @ [g]\<rparr>)),
     template_id = st_id, template_type = st_type, num_fields = (\<lambda>t. length (st_fields t)), field_at = (\<lambda>t. (!) (st_fields t)),
     field_of = sample_field_of, record_template = fst, record_entries = snd, record_field = (\<lambda>g e f. map_of (snd g) (e, f)),
     new_record = (\<lambda>i. (i, [])), insert_field = (\<lambda>e f v g. Some (fst g, snd g @ [((e, f), v)])),
     write_value = (\<lambda>fd v. Some v), parse_value = (\<lambda>fd s. Some s),
     type_keys = (\<lambda>ty. if ty < 2 then Some [(0, 10)] else None), type_object = (\<lambda>ty. if ty < 2 then Some 0 else None),
     data_types = [0], option_types = [1], max_object_type = 2, invalid_object_type = - 1,
     container_empty = [], container_add = sample_add, container_get = (\<lambda>i. find (\<lambda>t. int (unat (st_id t)) = i)),
     container_list = (\<lambda>c. remdups (map (\<lambda>t. int (unat (st_id t))) c)),
     writer_accepts = acc, buffer_text = (\<lambda>w. concat (map call_text w)), parse_document = docs, document_ns = 7,
     garbage16 = 99, garbage_header = (1, 2, 3, 4, 5), garbage_fields = \<lparr>fs_eno = 1, fs_ienum = 2, fs_length = 3\<rparr>,
     bad_argument_is_error = False\<rparr>"

section \<open>The laws hold\<close>

lemma find_append: "find P (xs @ ys) = (case find P xs of None \<Rightarrow> find P ys | Some x \<Rightarrow> Some x)"
  by (induction xs) auto

lemma sample_container_laws: "container_laws (sample_lib acc docs)"
  unfolding container_laws_def
proof (intro conjI allI impI)
  fix i c t
  show "container_get (sample_lib acc docs) i (container_empty (sample_lib acc docs)) = None" by (simp add: sample_lib_def)
  show "distinct (container_list (sample_lib acc docs) c)" by (simp add: sample_lib_def)
  show "set (container_list (sample_lib acc docs) c) = {i. container_get (sample_lib acc docs) i c \<noteq> None}"
    by (auto simp: sample_lib_def find_None_iff)
  assume "container_get (sample_lib acc docs) (template_key (sample_lib acc docs) t) c \<in> {None, Some t}"
  then show "container_get (sample_lib acc docs) i (container_add (sample_lib acc docs) (Some t) c) =
      (if i = template_key (sample_lib acc docs) t then Some t else container_get (sample_lib acc docs) i c)"
    by (auto simp: sample_lib_def sample_add_def with_id_def template_key_def find_append word_uint_eq_iff split: option.splits)
qed

lemma sample_insert_all: "insert_all (sample_lib acc docs) xs (i, ys) = Some (i, ys @ xs)"
  by (induction "sample_lib acc docs" xs "(i, ys)" arbitrary: ys rule: insert_all.induct) (simp_all add: sample_lib_def)

lemma sample_template_fields: "template_fields (sample_lib acc docs) t = st_fields t"
  by (simp add: template_fields_def sample_lib_def map_nth)

lemma sample_builder_laws: "builder_laws (sample_lib acc docs)"
  unfolding builder_laws_def
proof (intro conjI allI impI)
  let ?L = "sample_lib acc docs"
  fix d v sq ack ext
  show "let m = with_numbers ?L sq ack ext (new_message ?L d v)
      in numbers ?L m = (d, v, ext, sq, ack) \<and> records_of ?L m = [] \<and> (\<forall>i. template_object ?L i m = None)"
    by (simp add: sample_lib_def numbers_def with_id_def)
next
  let ?L = "sample_lib acc docs"
  fix t m assume new: "0 < num_fields ?L t \<and> template_object ?L (template_id ?L t) m = None"
  let ?t = "\<lparr>st_id = st_id t, st_type = st_type t, st_fields = map sample_field (map field_entry (st_fields t))\<rparr>"
  have "\<exists>fd'. sample_field_of ?t e f = Some fd'" if "sample_field_of t e f = Some fd" for e f fd
  proof -
    have r: "0 \<le> e" "e < 2 ^ 32" "0 \<le> f" "f < 2 ^ 16" and "find (\<lambda>fd. fd_eno fd = e \<and> fd_ftype fd = f) (st_fields t) = Some fd"
      using that by (auto simp: sample_field_of_def split: if_splits)
    then have fd: "fd \<in> set (st_fields t)" "fd_eno fd = e" "fd_ftype fd = f" by (auto simp: find_Some_iff)
    then have "fd_eno (sample_field (field_entry fd)) = e \<and> fd_ftype (sample_field (field_entry fd)) = f"
      using r by (simp add: sample_field_def field_entry_def unsigned_of_int take_bit_int_eq_self)
    then have "find (\<lambda>fd. fd_eno fd = e \<and> fd_ftype fd = f) (st_fields ?t) \<noteq> None"
      using fd(1) by (auto simp: find_None_iff)
    then show ?thesis using r by (auto simp: sample_field_of_def)
  qed
  then have "same_template ?L t ?t" by (auto simp: same_template_def sample_lib_def)
  then show "\<exists>m' t'. make_template ?L (map field_entry (template_fields ?L t)) (num_fields ?L t) (int (template_type ?L t)) (template_id ?L t) m = Some m' \<and>
      same_template ?L t t' \<and> (\<forall>i. template_object ?L i m' = (if i = template_id ?L t then Some t' else template_object ?L i m)) \<and>
      records_of ?L m' = records_of ?L m \<and> numbers ?L m' = numbers ?L m"
    using new unfolding sample_template_fields
    by (intro exI [of _ "m\<lparr>sm_templates := sm_templates m @ [?t]\<rparr>"] exI [of _ ?t])
      (auto simp: sample_lib_def with_id_def numbers_def find_append split: option.splits)
next
  let ?L = "sample_lib acc docs"
  fix i g m assume "template_object ?L i m \<noteq> None"
  then show "\<exists>m'. include_data ?L i g m = Some m' \<and> records_of ?L m' = records_of ?L m @ [g] \<and>
      (\<forall>j. template_object ?L j m' = template_object ?L j m) \<and> numbers ?L m' = numbers ?L m"
    by (simp add: sample_lib_def numbers_def)
next
  let ?L = "sample_lib acc docs"
  fix g show "insert_all ?L (record_entries ?L g) (new_record ?L (record_template ?L g)) = Some g"
    using sample_insert_all [of acc docs "snd g" "fst g" "[]"] by (simp add: sample_lib_def)
next
  fix t e f fd assume "field_of (sample_lib acc docs) t e f = Some fd"
  then show "fd_eno fd = e" "fd_ftype fd = f" by (auto simp: sample_lib_def sample_field_of_def find_Some_iff split: if_splits)
next
  fix i m t assume "template_object (sample_lib acc docs) i m = Some t"
  then show "template_id (sample_lib acc docs) t = i" by (auto simp: sample_lib_def with_id_def find_Some_iff)
qed

section \<open>A message\<close>

definition sample_fields :: "ipap_field list" where
  "sample_fields =
     [\<lparr>fd_eno = 0, fd_ftype = 10, fd_coding = 0, fd_length = 4, fd_xml_name = ''key'', fd_name = ''the key''\<rparr>,
      \<lparr>fd_eno = 0, fd_ftype = 11, fd_coding = 0, fd_length = 8, fd_xml_name = ''bid'', fd_name = ''the bid''\<rparr>]"

definition data_template :: sample_template where
  "data_template = \<lparr>st_id = 256, st_type = 0, st_fields = sample_fields\<rparr>"

definition option_template :: sample_template where
  "option_template = \<lparr>st_id = 257, st_type = 1, st_fields = sample_fields\<rparr>"

definition spare_template :: sample_template where
  "spare_template = \<lparr>st_id = 258, st_type = 0, st_fields = take 1 sample_fields\<rparr>"

definition option_record :: "u16 \<times> ((int \<times> int) \<times> string) list" where
  "option_record = (257, [((0, 10), ''b''), ((0, 11), ''5'')])"

definition data_record :: "u16 \<times> ((int \<times> int) \<times> string) list" where
  "data_record = (256, [((0, 10), ''a''), ((0, 11), ''3'')])"

definition sample_msg :: sample_message where
  "sample_msg = \<lparr>sm_numbers = (4, 1, 100, 5, 6), sm_templates = [data_template, option_template, spare_template],
     sm_records = [option_record, data_record]\<rparr>"

definition sample_split :: "(u16 \<times> ((int \<times> int) \<times> string) list, sample_template list) splitter" where
  "sample_split = \<lparr>unrelated = [spare_template],
     object_templates = [(\<lparr>object_type = 0, id_object = ''%a''\<rparr>, [data_template]), (\<lparr>object_type = 0, id_object = ''%b''\<rparr>, [option_template])],
     object_records = [(\<lparr>object_type = 0, id_object = ''%a''\<rparr>, [data_record]), (\<lparr>object_type = 0, id_object = ''%b''\<rparr>, [option_record])]\<rparr>"

lemmas sample_defs = sample_msg_def data_template_def option_template_def spare_template_def option_record_def data_record_def
  sample_fields_def sample_field_of_def sample_add_def with_id_def

lemma sample_string_less: "string_less ''%a'' ''%b''" "\<not> string_less ''%b'' ''%a''" "\<not> string_less s s"
  by (simp_all add: string_less_def string_less_facts(1) [unfolded string_less_def])

lemma sample_splits: "split (sample_lib acc docs) sample_msg (new_splitter (sample_lib acc docs)) = (Ok (), sample_split)"
  by (simp add: split_def new_splitter_def sample_lib_def sample_split_def sample_defs record_key_def add_record_def Let_def
      map_at_def sample_string_less)

definition sample_tree :: xml_node where
  "sample_tree = Xml_node ''IPAP_MESSAGE'' 7 (message_attributes (sample_lib (\<lambda>_ _. True) (\<lambda>_. None)) sample_msg) None
     (map (template_node (sample_lib (\<lambda>_ _. True) (\<lambda>_. None))) [spare_template, data_template, option_template] @
      map (rnode (sample_lib (\<lambda>_ _. True) (\<lambda>_. None)) sample_msg) [data_record, option_record])"

lemma sample_keys: "keys_of_type 0 sample_split = [\<lparr>object_type = 0, id_object = ''%a''\<rparr>, \<lparr>object_type = 0, id_object = ''%b''\<rparr>]"
  "keys_of_type 1 sample_split = []"
  by (simp_all add: keys_of_type_def sample_split_def key_insert_def sample_string_less)

lemmas sample_nodes = sample_split_def sample_lib_def sample_defs printed_nodes_def records_at_def getTemplate_def sample_string_less
  rnode_def template_of_def record_node_def field_node_def template_node_def template_fields_def tfield_node_def

lemma sample_key_nodes:
  "key_nodes (sample_lib acc docs) sample_split \<lparr>object_type = 0, id_object = ''%a''\<rparr> = Some [rnode (sample_lib acc docs) sample_msg data_record]"
  "key_nodes (sample_lib acc docs) sample_split \<lparr>object_type = 0, id_object = ''%b''\<rparr> = Some [rnode (sample_lib acc docs) sample_msg option_record]"
  by (simp_all add: key_nodes_def sample_nodes DATA_XML_ELEMENT_def OPTION_XML_ELEMENT_def)

lemma sample_all_templates:
  "all_templates (sample_lib acc docs) (object_templates sample_split) [] = Some [(256, data_template), (257, option_template)]"
  by (simp add: sample_split_def sample_lib_def sample_defs)

lemma sample_unrelated:
  "gather (unrelated_node (sample_lib acc docs) (unrelated sample_split)) (container_list (sample_lib acc docs) (unrelated sample_split)) =
     Some [template_node (sample_lib acc docs) spare_template]"
proof -
  have "container_list (sample_lib acc docs) [spare_template] = [258]"
    "container_get (sample_lib acc docs) 258 [spare_template] = Some spare_template"
    by (simp_all add: sample_lib_def spare_template_def)
  then show ?thesis by (simp add: unrelated_node_def sample_split_def)
qed

lemma sample_same_nodes:
  "template_node (sample_lib acc docs) t = template_node (sample_lib (\<lambda>_ _. True) (\<lambda>_. None)) t"
  "rnode (sample_lib acc docs) sample_msg data_record = rnode (sample_lib (\<lambda>_ _. True) (\<lambda>_. None)) sample_msg data_record"
  "rnode (sample_lib acc docs) sample_msg option_record = rnode (sample_lib (\<lambda>_ _. True) (\<lambda>_. None)) sample_msg option_record"
  "message_attributes (sample_lib acc docs) sample_msg = message_attributes (sample_lib (\<lambda>_ _. True) (\<lambda>_. None)) sample_msg"
  by (simp_all add: sample_nodes message_attributes_def)

lemma sample_message_tree: "message_tree (sample_lib acc docs) sample_msg sample_split = Some sample_tree"
proof -
  have types: "map int [0..<max_object_type (sample_lib acc docs)] = [0, 1]" by (simp add: sample_lib_def upt_rec)
  have "document_ns (sample_lib acc docs) = 7" by (simp add: sample_lib_def)
  then show ?thesis
    by (simp add: message_tree_def message_nodes_def object_nodes_def sample_keys sample_tree_def IPAP_XML_ROOT_def types
        sample_key_nodes sample_all_templates sample_unrelated)
      (simp add: sample_same_nodes [of acc docs])
qed

text \<open>A writer that accepts these calls and no others, and a parser that knows this document.\<close>

definition sample_calls :: "xml_call list" where
  "sample_calls = prolog @ node_calls sample_tree"

definition sample_accepts :: "xml_call list \<Rightarrow> xml_call \<Rightarrow> bool" where
  "sample_accepts w c = (length w < length sample_calls \<and> take (length w + 1) sample_calls = w @ [c])"

definition sample_parse :: "string \<Rightarrow> xml_node list option" where
  "sample_parse s = (if s = concat (map call_text sample_calls) then Some [sample_tree] else None)"

abbreviation sample :: "(sample_message, sample_template, u16 \<times> ((int \<times> int) \<times> string) list, string, sample_template list) ipap_lib" where
  "sample \<equiv> sample_lib sample_accepts sample_parse"

lemma accepts_prefix:
  assumes "w @ cs = sample_calls"
  shows "accepts_all sample w cs"
  using assms
proof (induction cs arbitrary: w)
  case (Cons c cs)
  have "take (length w + 1) sample_calls = w @ [c]" "length w < length sample_calls"
    using Cons.prems by (simp_all add: Cons.prems [symmetric])
  then have "writer_accepts sample w c" by (simp add: sample_lib_def sample_accepts_def)
  then show ?case using Cons by simp
qed simp

lemma writer_walks_tree_witness:
  "write_document sample sample_msg sample_split [] = (Ok (), prolog @ node_calls sample_tree)"
  by (rule writer_walks_tree [OF sample_message_tree]) (rule accepts_prefix, simp add: sample_calls_def)

lemma sample_key_of:
  "key_of (sample_lib acc docs) sample_msg option_record = Some \<lparr>object_type = 0, id_object = ''%b''\<rparr>"
  "key_of (sample_lib acc docs) sample_msg data_record = Some \<lparr>object_type = 0, id_object = ''%a''\<rparr>"
  by (simp_all add: key_of_def sample_lib_def sample_defs record_key_def)

lemma sample_record_fits:
  "record_fits (sample_lib acc docs) sample_msg option_record" "record_fits (sample_lib acc docs) sample_msg data_record"
  by (simp_all add: record_fits_def sample_lib_def sample_defs small_def)

lemma sample_templates: "template_object (sample_lib acc docs) u sample_msg =
    (if u = 256 then Some data_template else if u = 257 then Some option_template else if u = 258 then Some spare_template else None)"
  by (simp add: sample_lib_def sample_msg_def with_id_def data_template_def option_template_def spare_template_def)

lemma sample_template_fits:
  "template_fits (sample_lib acc docs) data_template" "template_fits (sample_lib acc docs) option_template"
  "template_fits (sample_lib acc docs) spare_template"
  unfolding template_fits_def sample_template_fields small_def
  by (simp_all add: sample_lib_def data_template_def option_template_def spare_template_def sample_fields_def)

lemma sample_tables:
  "records_of (sample_lib acc docs) sample_msg = [option_record, data_record]" "max_object_type (sample_lib acc docs) = 2"
  "data_types (sample_lib acc docs) = [0]" "option_types (sample_lib acc docs) = [1]"
  "domain_of (sample_lib acc docs) sample_msg = 4" "version_of (sample_lib acc docs) sample_msg = 1"
  "template_list (sample_lib acc docs) sample_msg = [256, 257, 258]"
  "template_type (sample_lib acc docs) data_template = 0" "template_type (sample_lib acc docs) option_template = 1"
  "template_type (sample_lib acc docs) spare_template = 0"
  by (simp_all add: sample_lib_def sample_msg_def data_template_def option_template_def spare_template_def)

lemma sample_exportable: "xml_exportable (sample_lib acc docs) sample_msg 0"
proof -
  have "known_ids (sample_lib acc docs) sample_msg = {256, 257, 258}" by (auto simp: known_ids_def sample_templates)
  then have "known_ids (sample_lib acc docs) sample_msg = word_of_int ` set (template_list (sample_lib acc docs) sample_msg)"
    by (simp add: sample_tables)
  then show ?thesis
    unfolding xml_exportable_def
    using sample_key_of [of acc docs] sample_record_fits [of acc docs] sample_template_fits [of acc docs]
    by (simp add: sample_tables sample_templates small_def)
qed

lemma splitter_partitions_witness:
  "mset (concat (map snd (object_records sample_split))) = mset (records_of sample sample_msg)"
  using splitter_partitions [OF exportable_keys(1) [OF sample_exportable] sample_splits] by blast

lemma xml_message_roundtrip_witness:
  "\<exists>text m'. get_message sample sample_msg (new_splitter sample) = (Ok text, sample_split) \<and>
     from_message sample text = Ok m' \<and> same_message sample sample_msg m'"
proof (rule xml_message_roundtrip [OF sample_container_laws sample_builder_laws sample_exportable sample_splits sample_message_tree])
  show "accepts_all sample [] (prolog @ node_calls sample_tree)" by (rule accepts_prefix) (simp add: sample_calls_def)
  show "parse_document sample (buffer_text sample (prolog @ node_calls sample_tree)) = Some [sample_tree]"
    by (simp add: sample_lib_def sample_parse_def sample_calls_def)
qed

text \<open>A document that announces one field and has two.\<close>

definition surplus_doc :: "xml_node list" where
  "surplus_doc = (let fld = Xml_node ''TFIELD'' 7 [(''ENO'', ''0''), (''FTYPE'', ''10''), (''LENGTH'', ''4'')] None []
     in [Xml_node ''IPAP_MESSAGE'' 7 [] None [Xml_node ''TEMPLATE'' 7 [(''ID'', ''1''), (''TYPE'', ''0''), (''NUM_FIELDS'', ''1'')] None [fld, fld]]])"

lemma surplus_field_overflows_witness:
  "from_message (sample_lib (\<lambda>_ _. True) (\<lambda>_. Some surplus_doc)) ''<IPAP_MESSAGE>'' = Crash Buffer_overflow"
proof -
  have one: "sint (atoi ''1'') = 1" 
  proof -
    have "decimal 1 = ''1''" by code_simp
    then show ?thesis using sint_atoi_nat [of 1] by simp
  qed
  show ?thesis
    by (rule surplus_field_overflows [where pre = "[]" and rest = "[]" and others = "[]" and root = "hd surplus_doc"
        and n = "hd (nd_children (hd surplus_doc))"])
      (simp_all add: surplus_doc_def sample_lib_def Let_def is_element_def xml_prop_def one)
qed

end
