(* ===== verification/Xml_Parser.thy ===== *)
theory Xml_Parser
  imports Ipap_Xml
begin

text \<open>
  Parsing and validating the text of a message: \<open>XMLParserValidate\<close> and \<open>validate\<close> of
  \<open>anslp_ipap_xml_message\<close> with the two callbacks of libxml2, as a change of the object's pointers and of the two
  static strings. The record \<open>xml_parser\<close> has the functions of libxml2 with the messages that they report; \<open>'x\<close> is
  \<open>xmlDoc\<close> and \<open>'y\<close> is \<open>xmlDtd\<close>. The state counts the documents and DTDs that are allocated. What the reader
  gets from here is \<open>parse_document\<close> of \<open>ipap_lib\<close>.
\<close>

record ('x, 'y) xml_parser =
  xmlParseMemory :: "string \<Rightarrow> 'x option \<times> string list"
  xmlParseDTD :: "string \<Rightarrow> 'y option \<times> string list"
  xmlValidateDtd :: "'x \<Rightarrow> 'y \<Rightarrow> bool \<times> string list \<times> string list"
  root_element :: "'x \<Rightarrow> string option"

record ('x, 'y) xml_object =
  dtdName :: string
  XMLDoc :: "'x option"
  extSubset :: "'y option"
  err :: string
  warn :: string
  live_docs :: nat
  live_dtds :: nat

text \<open>The callbacks print the message into an array of 8096 characters. Their texts are never emptied.\<close>

definition XMLErrorCB :: "string \<Rightarrow> ('x, 'y) xml_object \<Rightarrow> (xml_exn, unit) outcome \<times> ('x, 'y) xml_object" where
  "XMLErrorCB m st = (if length m < 8096 then (Ok (), st\<lparr>err := err st @ m\<rparr>) else (Crash Buffer_overflow, st))"

definition XMLWarningCB :: "string \<Rightarrow> ('x, 'y) xml_object \<Rightarrow> (xml_exn, unit) outcome \<times> ('x, 'y) xml_object" where
  "XMLWarningCB m st = (if length m < 8096 then (Ok (), st\<lparr>warn := warn st @ m\<rparr>) else (Crash Buffer_overflow, st))"

fun report :: "('e \<Rightarrow> 's \<Rightarrow> (xml_exn, unit) outcome \<times> 's) \<Rightarrow> 'e list \<Rightarrow> 's \<Rightarrow> (xml_exn, unit) outcome \<times> 's" where
  "report cb [] st = (Ok (), st)"
| "report cb (m # ms) st = call (cb m st) (\<lambda>_. report cb ms)"

text \<open>The handler of \<open>validate\<close>: it frees the DTD, when there is one, and the document, and throws again.\<close>

definition validate_failed :: "bool \<Rightarrow> ('x, 'y) xml_object \<Rightarrow> (xml_exn, unit) outcome \<times> ('x, 'y) xml_object" where
  "validate_failed has_dtd st =
     (let st = (if has_dtd then st\<lparr>live_dtds := live_dtds st - 1\<rparr> else st) in
      (Throw Xml_error,
       if XMLDoc st \<noteq> None then st\<lparr>XMLDoc := None, live_docs := live_docs st - 1\<rparr> else st))"

definition validate :: "('x, 'y) xml_parser \<Rightarrow> string \<Rightarrow> 'x \<Rightarrow> ('x, 'y) xml_object \<Rightarrow> (xml_exn, unit) outcome \<times> ('x, 'y) xml_object" where
  "validate P root doc st =
     (let (dtd, msgs) = xmlParseDTD P (dtdName st) in
      call (report XMLErrorCB msgs st) (\<lambda>_ st.
      (case dtd of
         None \<Rightarrow> validate_failed False st
       | Some dtd \<Rightarrow>
           let st = st\<lparr>live_dtds := live_dtds st + 1\<rparr>;
               (valid, errs, warns) = xmlValidateDtd P doc dtd
           in call (report XMLErrorCB errs st) (\<lambda>_ st. call (report XMLWarningCB warns st) (\<lambda>_ st.
              if \<not> valid then validate_failed True st
              else (case root_element P doc of
                  None \<Rightarrow> validate_failed True st
                | Some name \<Rightarrow>
                    if name \<noteq> root then validate_failed True st
                    else (Ok (), st\<lparr>extSubset := Some dtd\<rparr>)))))))"

text \<open>
  \<open>XMLParserValidate\<close>: the pointer to an earlier document is overwritten. Its handler finds the document freed when
  \<open>validate\<close> has thrown.
\<close>

definition XMLParserValidate :: "('x, 'y) xml_parser \<Rightarrow> string \<Rightarrow> string \<Rightarrow> string \<Rightarrow> ('x, 'y) xml_object
    \<Rightarrow> (xml_exn, unit) outcome \<times> ('x, 'y) xml_object" where
  "XMLParserValidate P dtd_name buf root st =
     (let st = st\<lparr>dtdName := dtd_name\<rparr>;
          (doc, msgs) = xmlParseMemory P buf
      in call (report XMLErrorCB msgs st) (\<lambda>_ st.
         (case doc of
            None \<Rightarrow> (Throw Xml_error, st\<lparr>XMLDoc := None\<rparr>)
          | Some d \<Rightarrow>
              (case validate P root d (st\<lparr>XMLDoc := Some d, extSubset := None, live_docs := live_docs st + 1\<rparr>) of
                 (Throw e, st) \<Rightarrow>
                   (Throw e, if XMLDoc st \<noteq> None then st\<lparr>XMLDoc := None, live_docs := live_docs st - 1\<rparr> else st)
               | r \<Rightarrow> r))))"

section \<open>Properties\<close>

lemma report_error:
  "list_all (\<lambda>m. length m < 8096) ms \<Longrightarrow> report XMLErrorCB ms st = (Ok (), st\<lparr>err := err st @ concat ms\<rparr>)"
  by (induction ms arbitrary: st) (simp_all add: XMLErrorCB_def)

lemma report_warning:
  "list_all (\<lambda>m. length m < 8096) ms \<Longrightarrow> report XMLWarningCB ms st = (Ok (), st\<lparr>warn := warn st @ concat ms\<rparr>)"
  by (induction ms arbitrary: st) (simp_all add: XMLWarningCB_def)

definition short_messages :: "('x, 'y) xml_parser \<Rightarrow> bool" where
  "short_messages P = ((\<forall>s. list_all (\<lambda>m. length m < 8096) (snd (xmlParseMemory P s))) \<and>
     (\<forall>s. list_all (\<lambda>m. length m < 8096) (snd (xmlParseDTD P s))) \<and>
     (\<forall>x y. list_all (\<lambda>m. length m < 8096) (fst (snd (xmlValidateDtd P x y))) \<and> list_all (\<lambda>m. length m < 8096) (snd (snd (xmlValidateDtd P x y)))))"

text \<open>The documents that are accepted.\<close>

definition accepted :: "('x, 'y) xml_parser \<Rightarrow> string \<Rightarrow> string \<Rightarrow> 'x \<Rightarrow> bool" where
  "accepted P dtd_name root d = (\<exists>y. fst (xmlParseDTD P dtd_name) = Some y \<and> fst (xmlValidateDtd P d y) \<and> root_element P d = Some root)"

text \<open>
  With messages that fit into the array: the call succeeds exactly for the texts that parse as an accepted document,
  and then the object holds this document and its DTD; after an exception the object holds no document, and what was allocated
  by the call has been freed again.
\<close>

theorem XMLParserValidate_result:
  assumes "short_messages P"
  shows "\<exists>st'. XMLParserValidate P dtd_name buf root st =
      (if \<exists>d. fst (xmlParseMemory P buf) = Some d \<and> accepted P dtd_name root d then Ok () else Throw Xml_error, st') \<and>
    (if \<exists>d. fst (xmlParseMemory P buf) = Some d \<and> accepted P dtd_name root d
     then XMLDoc st' = fst (xmlParseMemory P buf) \<and> extSubset st' \<noteq> None \<and>
       live_docs st' = live_docs st + 1 \<and> live_dtds st' = live_dtds st + 1
     else XMLDoc st' = None \<and> live_docs st' = live_docs st \<and> live_dtds st' = live_dtds st)"
proof -
  obtain doc msgs where pm: "xmlParseMemory P buf = (doc, msgs)" by fastforce
  obtain dtd msgs' where pd: "xmlParseDTD P dtd_name = (dtd, msgs')" by fastforce
  have short: "list_all (\<lambda>m. length m < 8096) msgs" "list_all (\<lambda>m. length m < 8096) msgs'"
    using assms pm pd unfolding short_messages_def by (metis snd_conv)+
  show ?thesis
  proof (cases doc)
    case None
    then show ?thesis by (simp add: XMLParserValidate_def pm report_error [OF short(1)])
  next
    case (Some d)
    show ?thesis
    proof (cases dtd)
      case None
      then show ?thesis using Some
        by (simp add: XMLParserValidate_def pm pd report_error [OF short(1)] report_error [OF short(2)] validate_def
            validate_failed_def accepted_def)
    next
      case dtd: (Some y)
      obtain valid errs warns where v: "xmlValidateDtd P d y = (valid, errs, warns)" by (metis prod.exhaust)
      have "list_all (\<lambda>m. length m < 8096) errs" "list_all (\<lambda>m. length m < 8096) warns"
        using assms v unfolding short_messages_def by (metis fst_conv snd_conv)+
      note sh = report_error [OF this(1)] report_warning [OF this(2)] report_error [OF short(1)] report_error [OF short(2)]
      show ?thesis using Some dtd
        by (cases valid; cases "root_element P d")
          (simp_all add: XMLParserValidate_def pm pd sh v validate_def validate_failed_def accepted_def Let_def)
    qed
  qed
qed

text \<open>
  An object that already holds a document loses it: the earlier document stays allocated and no pointer leads to it.
\<close>

corollary XMLParserValidate_loses_document:
  assumes "short_messages P" "XMLDoc st = Some old" "live_docs st = 1"
    and "fst (xmlParseMemory P buf) = Some d" "accepted P dtd_name root d"
  shows "\<exists>st'. XMLParserValidate P dtd_name buf root st = (Ok (), st') \<and> XMLDoc st' = Some d \<and> live_docs st' = 2"
  using XMLParserValidate_result [OF assms(1), of dtd_name buf root st] assms(3-5) by (auto split: if_splits)

end
