(* ===== verification/Fast_Queue.thy ===== *)
theory Fast_Queue
  imports World
begin

text \<open>
  The event queue between the daemon and the auctioning application (\<open>src/src/aqueue.cpp\<close>,
  \<open>src/include/aqueue.h\<close>), and how the network installer takes an answer from it
  (\<open>netauct_rule_installer::handle_response_check\<close>). The C queue below the class is not part of the
  program: its functions are the record \<open>queue_lib\<close>, with \<open>'q\<close> for \<open>queue_t\<close>. A waiting function is given the time that it
  waits at most; what arrives meanwhile is part of its result.
\<close>

section \<open>The queue\<close>

record ('q, 'e) queue_lib =
  create_queue :: "string \<Rightarrow> 'q option"
  queue_enable_expedited :: "bool \<Rightarrow> 'q \<Rightarrow> bool \<times> 'q"
  queue_is_expedited_enabled :: "'q \<Rightarrow> bool"
  enqueue_element_expedited_signal :: "'e \<Rightarrow> bool \<Rightarrow> 'q \<Rightarrow> int \<times> 'q"
  dequeue_element_wait :: "'q \<Rightarrow> 'e option \<times> 'q"
  dequeue_element_nonblocking :: "'q \<Rightarrow> 'e option \<times> 'q"
  dequeue_element_timedwait :: "int \<Rightarrow> int \<Rightarrow> 'q \<Rightarrow> 'e option \<times> 'q"
  queue_nr_of_elements :: "'q \<Rightarrow> nat"

record 'q FastQueue =
  fq_queue :: 'q
  fq_queue_name :: string
  fq_shutdownflag :: bool

text \<open>\<open>None\<close> is \<open>FQError\<close>.\<close>

definition new_FastQueue :: "('q, 'e) queue_lib \<Rightarrow> string option \<Rightarrow> bool \<Rightarrow> 'q FastQueue option" where
  "new_FastQueue L qname ex =
     (let name = (case qname of None \<Rightarrow> [] | Some n \<Rightarrow> n) in
      case create_queue L name of None \<Rightarrow> None
      | Some q \<Rightarrow> Some \<lparr>fq_queue = snd (queue_enable_expedited L ex q), fq_queue_name = name, fq_shutdownflag = False\<rparr>)"

definition fq_enqueue :: "('q, 'e) queue_lib \<Rightarrow> 'e \<Rightarrow> bool \<Rightarrow> 'q FastQueue \<Rightarrow> bool \<times> 'q FastQueue" where
  "fq_enqueue L element ex f =
     (if fq_shutdownflag f then (False, f)
      else (case enqueue_element_expedited_signal L element ex (fq_queue f) of (r, q) \<Rightarrow>
        (\<not> r < 0, f\<lparr>fq_queue := q\<rparr>)))"

definition fq_dequeue :: "('q, 'e) queue_lib \<Rightarrow> bool \<Rightarrow> 'q FastQueue \<Rightarrow> 'e option \<times> 'q FastQueue" where
  "fq_dequeue L blocking f =
     (case (if blocking then dequeue_element_wait L (fq_queue f) else dequeue_element_nonblocking L (fq_queue f)) of
        (e, q) \<Rightarrow> (e, f\<lparr>fq_queue := q\<rparr>))"

text \<open>The time in milliseconds becomes seconds and nanoseconds; C rounds the division towards zero.\<close>

definition fq_dequeue_timedwait :: "('q, 'e) queue_lib \<Rightarrow> int \<Rightarrow> 'q FastQueue \<Rightarrow> 'e option \<times> 'q FastQueue" where
  "fq_dequeue_timedwait L msec f =
     (let quot = sgn msec * (\<bar>msec\<bar> div 1000); rest = msec - quot * 1000 in
      case dequeue_element_timedwait L quot (rest * 1000000) (fq_queue f) of (e, q) \<Rightarrow> (e, f\<lparr>fq_queue := q\<rparr>))"

definition fq_size :: "('q, 'e) queue_lib \<Rightarrow> 'q FastQueue \<Rightarrow> nat" where
  "fq_size L f = queue_nr_of_elements L (fq_queue f)"

definition fq_is_empty :: "('q, 'e) queue_lib \<Rightarrow> 'q FastQueue \<Rightarrow> bool" where
  "fq_is_empty L f = (queue_nr_of_elements L (fq_queue f) = 0)"

definition fq_is_expedited_enabled :: "('q, 'e) queue_lib \<Rightarrow> 'q FastQueue \<Rightarrow> bool" where
  "fq_is_expedited_enabled L f = queue_is_expedited_enabled L (fq_queue f)"

definition fq_enable_expedited :: "('q, 'e) queue_lib \<Rightarrow> bool \<Rightarrow> 'q FastQueue \<Rightarrow> bool \<times> 'q FastQueue" where
  "fq_enable_expedited L ex f = (case queue_enable_expedited L ex (fq_queue f) of (r, q) \<Rightarrow> (r, f\<lparr>fq_queue := q\<rparr>))"

definition fq_shutdown :: "'q FastQueue \<Rightarrow> 'q FastQueue" where
  "fq_shutdown f = f\<lparr>fq_shutdownflag := True\<rparr>"

text \<open>
  \<open>cleanup\<close>: the loop ends when the queue says that it is empty; a queue that says otherwise and gives no event would keep
  it running. The count is an \<open>unsigned long\<close>.
\<close>

partial_function (option) cleanup_loop :: "('q, 'e) queue_lib \<Rightarrow> 64 word \<Rightarrow> 'q FastQueue \<Rightarrow> (64 word \<times> 'q FastQueue) option" where
  "cleanup_loop L cnt f =
     (if fq_is_empty L f then Some (cnt, f)
      else (case fq_dequeue L False f of
          (None, f) \<Rightarrow> cleanup_loop L cnt f
        | (Some e, f) \<Rightarrow> cleanup_loop L (cnt + 1) f))"

definition fq_cleanup :: "('q, 'e) queue_lib \<Rightarrow> 'q FastQueue \<Rightarrow> (64 word \<times> 'q FastQueue) option" where
  "fq_cleanup L f = cleanup_loop L 0 (f\<lparr>fq_shutdownflag := True\<rparr>)"

section \<open>The answer of the application\<close>

definition is_response_checksession_event :: "'m anslp_event option \<Rightarrow> bool" where
  "is_response_checksession_event evt = (case evt of
       Some (Anslp_event t s objs) \<Rightarrow> t = Response_create_check_session | _ \<Rightarrow> False)"

definition handle_response_check :: "('q, 'm anslp_event) queue_lib \<Rightarrow> 'q FastQueue \<Rightarrow> (exn, unit) outcome \<times> 'q FastQueue" where
  "handle_response_check L f =
     (let (ret_evt, f) = fq_dequeue_timedwait L 10000 f in
      if \<not> is_response_checksession_event ret_evt then (Throw (Installer_error 6 7), f)
      else if ev_objects (the ret_evt) = [] then (Throw (Installer_error 6 6), f)
      else (Ok (), f))"

section \<open>Properties\<close>

text \<open>As documented: a queue that is not empty gives its first event at once, and has one event less then.\<close>

definition queue_laws :: "('q, 'e) queue_lib \<Rightarrow> ('q \<Rightarrow> 'e list) \<Rightarrow> bool" where
  "queue_laws L evs = (
     (\<forall>q. queue_nr_of_elements L q = length (evs q)) \<and>
     (\<forall>q e es. evs q = e # es \<longrightarrow> (\<exists>q'. dequeue_element_nonblocking L q = (Some e, q') \<and> evs q' = es)) \<and>
     (\<forall>q e es s n. evs q = e # es \<longrightarrow> (\<exists>q'. dequeue_element_timedwait L s n q = (Some e, q') \<and> evs q' = es)))"

lemma cleanup_loop_empties:
  assumes "queue_laws L evs"
  shows "\<exists>f'. cleanup_loop L cnt f = Some (cnt + of_nat (length (evs (fq_queue f))), f') \<and> evs (fq_queue f') = [] \<and>
    fq_shutdownflag f' = fq_shutdownflag f \<and> fq_queue_name f' = fq_queue_name f"
proof (induction "evs (fq_queue f)" arbitrary: f cnt)
  case Nil
  then have "evs (fq_queue f) = []" by simp
  moreover have "fq_is_empty L f" using assms Nil by (simp add: queue_laws_def fq_is_empty_def)
  ultimately show ?case by (subst cleanup_loop.simps) simp
next
  case (Cons e es)
  obtain q' where q': "dequeue_element_nonblocking L (fq_queue f) = (Some e, q')" "evs q' = es"
    using assms Cons(2) [symmetric] unfolding queue_laws_def by blast
  have "\<not> fq_is_empty L f" using assms Cons(2) [symmetric] by (simp add: queue_laws_def fq_is_empty_def)
  moreover have "fq_dequeue L False f = (Some e, f\<lparr>fq_queue := q'\<rparr>)" by (simp add: fq_dequeue_def q')
  ultimately have "cleanup_loop L cnt f = cleanup_loop L (cnt + 1) (f\<lparr>fq_queue := q'\<rparr>)"
    by (subst cleanup_loop.simps) simp
  moreover have "length (evs (fq_queue f)) = Suc (length es)" using Cons(2) [symmetric] by simp
  ultimately show ?case using Cons(1) [of "f\<lparr>fq_queue := q'\<rparr>" "cnt + 1"] q'(2) by (simp add: add.assoc)
qed

text \<open>
  \<open>cleanup\<close> returns for every queue, deletes all its events and says how many they were; the queue takes no event any more.
\<close>

theorem cleanup_empties:
  assumes "queue_laws L evs"
  shows "\<exists>f'. fq_cleanup L f = Some (of_nat (fq_size L f), f') \<and> fq_is_empty L f' \<and> (\<forall>e ex. fq_enqueue L e ex f' = (False, f'))"
proof -
  let ?f = "f\<lparr>fq_shutdownflag := True\<rparr>"
  obtain f' where "cleanup_loop L 0 ?f = Some (of_nat (length (evs (fq_queue f))), f')" "evs (fq_queue f') = []" "fq_shutdownflag f'"
    using cleanup_loop_empties [OF assms, of 0 ?f] by auto
  moreover have "queue_nr_of_elements L q = length (evs q)" for q using assms by (simp add: queue_laws_def)
  ultimately show ?thesis by (auto simp: fq_cleanup_def fq_size_def fq_is_empty_def fq_enqueue_def)
qed

text \<open>The C queue as the list of its events; it waits in vain when it is empty.\<close>

definition list_queue :: "('e list, 'e) queue_lib" where
  "list_queue = \<lparr>create_queue = (\<lambda>n. Some []), queue_enable_expedited = (\<lambda>ex q. (True, q)), queue_is_expedited_enabled = (\<lambda>q. False),
     enqueue_element_expedited_signal = (\<lambda>e ex q. (0, q @ [e])),
     dequeue_element_wait = (\<lambda>q. case q of [] \<Rightarrow> (None, []) | e # es \<Rightarrow> (Some e, es)),
     dequeue_element_nonblocking = (\<lambda>q. case q of [] \<Rightarrow> (None, []) | e # es \<Rightarrow> (Some e, es)),
     dequeue_element_timedwait = (\<lambda>s n q. case q of [] \<Rightarrow> (None, []) | e # es \<Rightarrow> (Some e, es)),
     queue_nr_of_elements = length\<rparr>"

lemma list_queue_laws: "queue_laws list_queue (\<lambda>q. q)"
  by (simp add: queue_laws_def list_queue_def)

lemma cleanup_empties_witness:
  "\<exists>f'. fq_cleanup list_queue \<lparr>fq_queue = [4, 5, 6::nat], fq_queue_name = ''install'', fq_shutdownflag = False\<rparr> = Some (3, f') \<and>
     fq_is_empty list_queue f'"
  using cleanup_empties [OF list_queue_laws, of "\<lparr>fq_queue = [4, 5, 6::nat], fq_queue_name = ''install'', fq_shutdownflag = False\<rparr>"]
  by (auto simp: fq_size_def list_queue_def)

text \<open>
  The answer to a check is accepted exactly when it is the first event in the queue, is a check response, and has objects; it
  is taken out of the queue in any case.
\<close>

lemma handle_response_check_first:
  assumes "queue_laws L evs" "evs (fq_queue f) = e # es"
  shows "\<exists>f'. handle_response_check L f =
    (if \<not> is_response_checksession_event (Some e) then Throw (Installer_error 6 7)
     else if ev_objects e = [] then Throw (Installer_error 6 6) else Ok (), f') \<and> evs (fq_queue f') = es"
proof -
  obtain q' where "dequeue_element_timedwait L 10 0 (fq_queue f) = (Some e, q')" "evs q' = es"
    using assms unfolding queue_laws_def by blast
  then show ?thesis by (auto simp: handle_response_check_def fq_dequeue_timedwait_def Let_def)
qed

end
