(* ===== verification/Installer_Responses.thy ===== *)
theory Installer_Responses
  imports C_Numbers
begin

text \<open>
  How the network installer takes the answers of the auction server apart
  (\<open>src/src/netauct_rule_installer.cpp\<close>): \<open>responseOk\<close>, \<open>getNumberAuctions\<close>, \<open>getMessage\<close> and
  \<open>getErr\<close>. They search for fixed texts with \<open>std::string::find\<close> and cut with \<open>substr\<close>, which throws
  \<open>std::out_of_range\<close> (here \<open>None\<close>) when it starts after the end. Positions are \<open>size_t\<close>, 64-bit words; their
  difference and sum wrap.
\<close>

section \<open>The functions\<close>

fun str_find :: "string \<Rightarrow> string \<Rightarrow> nat option" where
  "str_find p s = (if take (length p) s = p then Some 0
     else (case s of [] \<Rightarrow> None | _ # cs \<Rightarrow> map_option Suc (str_find p cs)))"

declare str_find.simps [simp del]

definition substr :: "string \<Rightarrow> nat \<Rightarrow> 64 word \<Rightarrow> string option" where
  "substr s pos n = (if pos \<le> length s then Some (take (unat n) (drop pos s)) else None)"

definition responseOk :: "string \<Rightarrow> bool" where
  "responseOk response = (str_find ''OK'' response \<noteq> None)"

definition getNumberAuctions :: "string \<Rightarrow> u32 option" where
  "getNumberAuctions response = (case str_find ''<NbrAuctions>'' response of
       None \<Rightarrow> Some 0
     | Some found \<Rightarrow>
         let pos = found + length ''<NbrAuctions>'' in
         (case str_find ''</NbrAuctions>'' response of
            None \<Rightarrow> Some 0
          | Some pos2 \<Rightarrow> map_option atoi (substr response pos (of_nat pos2 - of_nat pos))))"

definition getMessage :: "string \<Rightarrow> string option" where
  "getMessage response = (case str_find ''<?xml version='' response of
       None \<Rightarrow> Some []
     | Some pos \<Rightarrow> (case str_find ''</IPAP_MESSAGE>'' response of
         Some pos2 \<Rightarrow> substr response pos (of_nat pos2 + of_nat (length ''</IPAP_MESSAGE>''))
       | None \<Rightarrow> substr response pos (of_nat (length response))))"

text \<open>The text of a curl error: the number after the last colon is replaced by its \<open>strerror\<close>; \<open>npos\<close> is \<open>-1\<close> as an \<open>int\<close>.\<close>

definition find_last_of :: "char \<Rightarrow> string \<Rightarrow> int" where
  "find_last_of c s = (if c \<in> set s then int (length s - 1 - length (takeWhile (\<lambda>x. x \<noteq> c) (rev s))) else - 1)"

definition getErr :: "(u32 \<Rightarrow> string) \<Rightarrow> string \<Rightarrow> string option" where
  "getErr strerror err =
     (let p = find_last_of CHR '':'' err in
      if p > 0 then map_option (\<lambda>s. take (nat p) err @ '': '' @ strerror (atoi s))
             (substr err (nat p + 1) (of_nat (length err) - of_nat (nat p)))
      else Some [])"

section \<open>Searching\<close>

lemma str_find_Some:
  "str_find p s = Some i \<Longrightarrow> take (length p) (drop i s) = p \<and> i + length p \<le> length s"
proof (induction s arbitrary: i)
  case Nil
  then show ?case by (subst (asm) str_find.simps) (auto split: if_splits)
next
  case (Cons c s)
  show ?case
  proof (cases "take (length p) (c # s) = p")
    case True
    then have "i = 0" using Cons.prems by (subst (asm) str_find.simps) simp
    moreover have "length p \<le> length (c # s)" using arg_cong [OF True, of length] by simp
    ultimately show ?thesis using True by simp
  next
    case False
    then obtain j where "str_find p s = Some j" "i = Suc j" using Cons.prems by (subst (asm) str_find.simps) auto
    then show ?thesis using Cons.IH by simp
  qed
qed

lemma str_find_None: "str_find p s = None \<Longrightarrow> take (length p) (drop i s) \<noteq> p \<or> p = []"
proof (induction s arbitrary: i)
  case Nil
  then show ?case by (subst (asm) str_find.simps) (auto split: if_splits)
next
  case (Cons c s)
  then have no: "take (length p) (c # s) \<noteq> p" "str_find p s = None"
    by (auto simp: str_find.simps [of p "c # s"] split: if_splits)
  then show ?case using Cons.IH [OF no(2)] by (cases i) auto
qed

text \<open>The first place where a text occurs.\<close>

definition first_at :: "string \<Rightarrow> string \<Rightarrow> nat \<Rightarrow> bool" where
  "first_at p s i = (take (length p) (drop i s) = p \<and> (\<forall>j < i. take (length p) (drop j s) \<noteq> p))"

lemma str_find_first: "first_at p s i \<Longrightarrow> i \<le> length s \<Longrightarrow> str_find p s = Some i"
proof (induction s arbitrary: i)
  case Nil
  then show ?case by (subst str_find.simps) (simp add: first_at_def)
next
  case (Cons c s)
  show ?case
  proof (cases i)
    case 0
    then show ?thesis using Cons.prems by (subst str_find.simps) (simp add: first_at_def)
  next
    case (Suc j)
    have "first_at p s j"
      unfolding first_at_def
    proof (intro conjI allI impI)
      show "take (length p) (drop j s) = p" using Cons.prems Suc by (simp add: first_at_def)
      fix k assume "k < j"
      then have "take (length p) (drop (Suc k) (c # s)) \<noteq> p" using Cons.prems(1) Suc unfolding first_at_def by blast
      then show "take (length p) (drop k s) \<noteq> p" by simp
    qed
    moreover have "take (length p) (drop 0 (c # s)) \<noteq> p" using Cons.prems(1) Suc unfolding first_at_def by blast
    ultimately show ?thesis using Cons Suc by (subst str_find.simps) simp
  qed
qed

lemma unat_size: "n < 2 ^ 64 \<Longrightarrow> unat (of_nat n :: 64 word) = n"
  by (simp add: unsigned_of_nat take_bit_nat_eq_self)

section \<open>Properties\<close>

text \<open>
  \<open>substr\<close> is given the position of the closing tag as a length: when text precedes the document, as a header or
  a greeting, as many characters that follow the document become part of the message.
\<close>

theorem getMessage_takes_more:
  assumes "response = pre @ doc @ tail" "length response < 2 ^ 64"
    and "first_at ''<?xml version='' response (length pre)"
    and "first_at ''</IPAP_MESSAGE>'' response (length pre + k)" "length doc = k + length ''</IPAP_MESSAGE>''"
  shows "getMessage response = Some (doc @ take (length pre) tail)"
proof -
  let ?close = "''</IPAP_MESSAGE>''"
  have op: "str_find ''<?xml version='' response = Some (length pre)"
    by (rule str_find_first [OF assms(3)]) (simp add: assms(1))
  have cl: "str_find ?close response = Some (length pre + k)"
    by (rule str_find_first [OF assms(4)]) (use assms(5) in \<open>simp add: assms(1)\<close>)
  have "length pre + k + length ?close \<le> length response" using assms(5) by (simp add: assms(1))
  then have "length pre + k + length ?close < 2 ^ 64" using assms(2) by linarith
  then have "unat (of_nat (length pre + k + length ?close) :: 64 word) = length pre + k + length ?close" by (rule unat_size)
  then have "unat (of_nat (length pre + k) + of_nat (length ?close) :: 64 word) = length doc + length pre"
    using assms(5) by (simp only: of_nat_add [symmetric])
  then have "substr response (length pre) (of_nat (length pre + k) + of_nat (length ?close)) = Some (take (length doc + length pre) (doc @ tail))"
    by (simp add: substr_def assms(1))
  then show ?thesis by (simp only: getMessage_def op cl option.case) simp
qed

lemma getMessage_takes_more_witness:
  "getMessage ''HTTP <?xml version=1?><IPAP_MESSAGE></IPAP_MESSAGE> and so on'' =
     Some ''<?xml version=1?><IPAP_MESSAGE></IPAP_MESSAGE> and ''"
proof -
  let ?doc = "''<?xml version=1?><IPAP_MESSAGE></IPAP_MESSAGE>''"
  have all: "(\<forall>j < n. P j) \<longleftrightarrow> list_all P [0..<n]" for n :: nat and P by (auto simp: list_all_iff)
  have "getMessage (''HTTP '' @ ?doc @ '' and so on'') = Some (?doc @ take (length ''HTTP '') '' and so on'')"
    by (rule getMessage_takes_more [where k = 31]) (simp_all add: first_at_def all upt_rec)
  then show ?thesis by simp
qed

text \<open>
  Neither function throws, whatever the server answers.
\<close>

lemma responses_return: "getNumberAuctions response \<noteq> None" "getMessage response \<noteq> None"
  using str_find_Some [of _ response]
  by (fastforce simp: getNumberAuctions_def getMessage_def substr_def Let_def split: option.splits simp del: not_None_eq)+

text \<open>The number between the tags is read as it is written.\<close>

lemma getNumberAuctions_reads:
  assumes "response = pre @ ''<NbrAuctions>'' @ decimal n @ ''</NbrAuctions>'' @ tail" "length response < 2 ^ 64" "n < 2 ^ 63"
    and "first_at ''<NbrAuctions>'' response (length pre)"
    and "first_at ''</NbrAuctions>'' response (length pre + length ''<NbrAuctions>'' + length (decimal n))"
  shows "getNumberAuctions response = Some (of_nat n)"
proof -
  let ?pos = "length pre + length ''<NbrAuctions>''"
  have op: "str_find ''<NbrAuctions>'' response = Some (length pre)"
    by (rule str_find_first [OF assms(4)]) (simp add: assms(1))
  have cl: "str_find ''</NbrAuctions>'' response = Some (?pos + length (decimal n))"
    by (rule str_find_first [OF assms(5)]) (simp add: assms(1))
  have "length (decimal n) < 2 ^ 64" using assms(2) by (simp add: assms(1))
  then have "unat (of_nat (?pos + length (decimal n)) - of_nat ?pos :: 64 word) = length (decimal n)"
    using unat_size [of "length (decimal n)"] by (simp only: of_nat_add add_diff_cancel_left')
  moreover have "drop ?pos response = decimal n @ ''</NbrAuctions>'' @ tail" by (simp add: assms(1))
  ultimately have "substr response ?pos (of_nat (?pos + length (decimal n)) - of_nat ?pos) = Some (decimal n)"
    by (simp add: substr_def assms(1))
  moreover have "atoi (decimal n) = of_nat n"
    using atoi_int_decimal [of "int n"] assms(3) by (simp add: decimal_int)
  ultimately show ?thesis unfolding getNumberAuctions_def op option.case Let_def cl by simp
qed

end
