(* ===== verification/Benchmark_Journal.thy ===== *)
theory Benchmark_Journal
  imports C_Numbers
begin

text \<open>
  The journal of measuring points (\<open>src/src/benchmark_journal.cpp\<close>, \<open>src/include/benchmark_journal.h\<close>), which
  all threads share. Its operations run under one recursive mutex and are therefore single steps here. The clock, the thread
  id and the text of \<open>ctime\<close> are arguments.
\<close>

section \<open>State\<close>

datatype measuring_point_id = INVALID_ID | PRE_PROCESSING | POST_PROCESSING | PRE_MAPPING | POST_MAPPING | PRE_SESSION_MANAGER
  | POST_SESSION_MANAGER | PRE_SERIALIZE | POST_SERIALIZE | PRE_DESERIALIZE | POST_DESERIALIZE | PRE_DISPATCHER
  | POST_DISPATCHER | PRE_SESSION | POST_SESSION

fun point_number :: "measuring_point_id \<Rightarrow> nat" where
  "point_number INVALID_ID = 0"
| "point_number PRE_PROCESSING = 1"
| "point_number POST_PROCESSING = 2"
| "point_number PRE_MAPPING = 3"
| "point_number POST_MAPPING = 4"
| "point_number PRE_SESSION_MANAGER = 5"
| "point_number POST_SESSION_MANAGER = 6"
| "point_number PRE_SERIALIZE = 7"
| "point_number POST_SERIALIZE = 8"
| "point_number PRE_DESERIALIZE = 9"
| "point_number POST_DESERIALIZE = 10"
| "point_number PRE_DISPATCHER = 11"
| "point_number POST_DISPATCHER = 12"
| "point_number PRE_SESSION = 13"
| "point_number POST_SESSION = 14"

definition HIGHEST_VALID_ID :: nat where
  "HIGHEST_VALID_ID = 14"

definition mp_names :: "string list" where
  "mp_names = [''INVALID_ID'', ''PRE_PROCESSING'', ''POST_PROCESSING'', ''PRE_MAPPING'', ''POST_MAPPING'',
     ''PRE_SESSION_MANAGER'', ''POST_SESSION_MANAGER'', ''PRE_SERIALIZE'', ''POST_SERIALIZE'', ''PRE_DESERIALIZE'',
     ''POST_DESERIALIZE'', ''PRE_DISPATCHER'', ''POST_DISPATCHER'', ''PRE_SESSION'', ''POST_SESSION'']"

record measuring_point =
  mp_point :: measuring_point_id
  mp_thread_id :: "64 word"
  mp_sec :: int
  mp_nsec :: int

record benchmark_journal =
  journal_size :: int
  journal_pos :: int
  journal :: "measuring_point list"
  journal_filename :: string
  disable_journal :: bool

section \<open>Operations\<close>

text \<open>The array is filled with zeros; a negative size makes \<open>new\<close> throw.\<close>

definition empty_point :: measuring_point where
  "empty_point = \<lparr>mp_point = INVALID_ID, mp_thread_id = 0, mp_sec = 0, mp_nsec = 0\<rparr>"

definition new_benchmark_journal :: "int \<Rightarrow> string \<Rightarrow> benchmark_journal option" where
  "new_benchmark_journal sz name =
     (if sz < 0 then None
      else Some \<lparr>journal_size = sz, journal_pos = 0, journal = replicate (nat sz) empty_point, journal_filename = name,
        disable_journal = False\<rparr>)"

definition journal_add :: "measuring_point \<Rightarrow> benchmark_journal \<Rightarrow> benchmark_journal" where
  "journal_add mp j =
     (if journal_pos j < journal_size j
      then j\<lparr>journal := (journal j)[nat (journal_pos j) := mp], journal_pos := journal_pos j + 1\<rparr>
      else if \<not> disable_journal j \<and> journal_pos j = journal_size j then j\<lparr>disable_journal := True\<rparr>
      else j)"

definition journal_restart :: "benchmark_journal \<Rightarrow> benchmark_journal" where
  "journal_restart j = j\<lparr>journal_pos := 0, disable_journal := False\<rparr>"

definition endl :: string where
  "endl = [CHR 0x0A]"

definition write_header :: "string \<Rightarrow> string" where
  "write_header now = ''# Benchmark Journal, created '' @ now @
     ''# $Id: benchmark_journal.cpp 2558 2007-04-04 15:17:16Z bless $'' @ endl @
     ''# Format: <measuring point ID> <Thread ID> <seconds> <nano seconds>'' @ endl @
     ''# Measuring points:'' @ endl @
     concat (map (\<lambda>i. ''# '' @ [CHR 0x09] @ int_decimal (int i) @ '' '' @ mp_names ! i @ endl) [0 ..< Suc HIGHEST_VALID_ID]) @
     ''#'' @ endl"

definition write_point :: "measuring_point \<Rightarrow> string" where
  "write_point mp = int_decimal (int (point_number (mp_point mp))) @ '' '' @ int_decimal (uint (mp_thread_id mp)) @ '' '' @
     int_decimal (mp_sec mp) @ '' '' @ int_decimal (mp_nsec mp) @ endl"

text \<open>The loop stops at the end of the array or at the first entry that was never written.\<close>

fun write_points :: "measuring_point list \<Rightarrow> string" where
  "write_points [] = []"
| "write_points (mp # mps) = (if mp_point mp = INVALID_ID then [] else write_point mp @ write_points mps)"

definition write_journal :: "string \<Rightarrow> benchmark_journal \<Rightarrow> string" where
  "write_journal now j = write_header now @ write_points (take (nat (journal_size j)) (journal j))"

text \<open>The text that a file gets, or \<open>None\<close> when the file cannot be opened.\<close>

definition write_journal_to :: "(string \<Rightarrow> bool) \<Rightarrow> string \<Rightarrow> string \<Rightarrow> benchmark_journal \<Rightarrow> string option" where
  "write_journal_to opens name now j = (if opens name then Some (write_journal now j) else None)"

definition write_journal_file :: "(string \<Rightarrow> bool) \<Rightarrow> string \<Rightarrow> benchmark_journal \<Rightarrow> string option" where
  "write_journal_file opens now j = write_journal_to opens (journal_filename j) now j"

section \<open>Properties\<close>

definition journal_ok :: "benchmark_journal \<Rightarrow> bool" where
  "journal_ok j = (0 \<le> journal_pos j \<and> journal_pos j \<le> journal_size j \<and> length (journal j) = nat (journal_size j))"

lemma journal_ok_ops:
  "new_benchmark_journal sz name = Some j \<Longrightarrow> journal_ok j"
  "journal_ok j \<Longrightarrow> journal_ok (journal_add mp j)" "journal_ok j \<Longrightarrow> journal_ok (journal_restart j)"
  by (auto simp: new_benchmark_journal_def journal_ok_def journal_add_def journal_restart_def split: if_splits)

lemma journal_ok_adds: "journal_ok j \<Longrightarrow> journal_ok (fold journal_add mps j)"
  by (induction mps arbitrary: j) (simp_all add: journal_ok_ops)

text \<open>Adding a list of points overwrites the array from the current position on and drops what does not fit.\<close>

lemma journal_adds:
  assumes "journal_ok j"
  shows "journal_size (fold journal_add mps j) = journal_size j \<and>
    journal (fold journal_add mps j) = take (nat (journal_pos j)) (journal j) @
      take (nat (journal_size j) - nat (journal_pos j)) mps @ drop (nat (journal_pos j) + length mps) (journal j)"
  using assms
proof (induction mps arbitrary: j)
  case (Cons mp mps)
  let ?n = "nat (journal_pos j)" and ?J = "journal j"
  have ok: "journal_ok (journal_add mp j)" by (rule journal_ok_ops(2) [OF Cons.prems])
  show ?case
  proof (cases "journal_pos j < journal_size j")
    case True
    then have n: "?n < length ?J" "nat (journal_pos j + 1) = Suc ?n" "nat (journal_size j) - ?n = Suc (nat (journal_size j) - Suc ?n)"
      using Cons.prems by (auto simp: journal_ok_def)
    have "take (Suc ?n) (?J[?n := mp]) = take ?n ?J @ [mp]" using n(1) by (simp add: take_Suc_conv_app_nth)
    then show ?thesis using Cons.IH [OF ok] True n by (simp add: journal_add_def)
  next
    case False
    then have "?n = length ?J" using Cons.prems by (simp add: journal_ok_def)
    then show ?thesis using Cons.IH [OF ok] False Cons.prems by (auto simp: journal_add_def journal_ok_def)
  qed
qed simp

text \<open>What is written: the entries up to the first that was never used.\<close>

definition written :: "benchmark_journal \<Rightarrow> measuring_point list" where
  "written j = takeWhile (\<lambda>mp. mp_point mp \<noteq> INVALID_ID) (take (nat (journal_size j)) (journal j))"

lemma write_journal_written: "write_journal now j = write_header now @ concat (map write_point (written j))"
proof -
  have "write_points mps = concat (map write_point (takeWhile (\<lambda>mp. mp_point mp \<noteq> INVALID_ID) mps))" for mps
    by (induction mps) simp_all
  then show ?thesis by (simp add: write_journal_def written_def)
qed

lemma takeWhile_used:
  "\<forall>mp \<in> set mps. mp_point mp \<noteq> INVALID_ID \<Longrightarrow>
     takeWhile (\<lambda>mp. mp_point mp \<noteq> INVALID_ID) (mps @ replicate n empty_point) = mps"
  by (cases n) (simp_all add: empty_point_def)

text \<open>A new journal has the first points that were added, up to its size, in their order.\<close>

theorem journal_keeps_first:
  assumes "new_benchmark_journal sz name = Some j" "\<forall>mp \<in> set mps. mp_point mp \<noteq> INVALID_ID"
  shows "written (fold journal_add mps j) = take (nat sz) mps"
proof -
  have j: "journal_ok j" "journal_size j = sz" "journal_pos j = 0" "journal j = replicate (nat sz) empty_point"
    using assms(1) journal_ok_ops(1) by (auto simp: new_benchmark_journal_def split: if_splits)
  have "\<forall>mp \<in> set (take (nat sz) mps). mp_point mp \<noteq> INVALID_ID" using assms(2) by (auto dest: in_set_takeD)
  then show ?thesis using journal_adds [OF j(1), of mps] j takeWhile_used [of "take (nat sz) mps" "nat sz - length mps"]
    by (simp add: written_def empty_point_def)
qed

text \<open>
  \<open>restart\<close> does not remove the points recorded so far: whatever was recorded behind the new points is written
  again with them.
\<close>

theorem restart_keeps_points:
  assumes "new_benchmark_journal sz name = Some j"
    and "\<forall>mp \<in> set mps. mp_point mp \<noteq> INVALID_ID" "\<forall>mp \<in> set mps'. mp_point mp \<noteq> INVALID_ID"
  shows "written (fold journal_add mps' (journal_restart (fold journal_add mps j))) =
    take (nat sz) mps' @ drop (length mps') (take (nat sz) mps)"
proof -
  let ?n = "nat sz" and ?k = "fold journal_add mps j"
  have j: "journal_ok j" "journal_size j = sz" "journal_pos j = 0" "journal j = replicate ?n empty_point"
    using assms(1) journal_ok_ops(1) by (auto simp: new_benchmark_journal_def split: if_splits)
  have ok: "journal_ok (journal_restart ?k)"
    using journal_ok_ops(3) [OF journal_ok_adds [OF j(1)]] .
  have k: "journal_size ?k = sz" "journal ?k = take ?n mps @ replicate (?n - length mps) empty_point"
    using journal_adds [OF j(1), of mps] j by simp_all
  have "journal (fold journal_add mps' (journal_restart ?k)) =
      take ?n mps' @ drop (length mps') (take ?n mps @ replicate (?n - length mps) empty_point)"
    and sz: "journal_size (fold journal_add mps' (journal_restart ?k)) = sz"
    using journal_adds [OF ok, of mps'] k by (simp_all add: journal_restart_def)
  then have J: "journal (fold journal_add mps' (journal_restart ?k)) =
      (take ?n mps' @ drop (length mps') (take ?n mps)) @ replicate (?n - length mps - (length mps' - length (take ?n mps))) empty_point"
    by simp
  have used: "\<forall>mp \<in> set (take ?n mps' @ drop (length mps') (take ?n mps)). mp_point mp \<noteq> INVALID_ID"
    using assms(2,3) by (auto dest!: in_set_takeD in_set_dropD)
  have "length (journal (fold journal_add mps' (journal_restart ?k))) = ?n"
    using journal_ok_adds [OF ok, of mps'] sz by (simp add: journal_ok_def)
  then have "take ?n (journal (fold journal_add mps' (journal_restart ?k))) = journal (fold journal_add mps' (journal_restart ?k))"
    by simp
  then show ?thesis by (simp only: written_def sz J takeWhile_used [OF used])
qed

text \<open>One measurement after a restart: the points of before are still in the file.\<close>

theorem restart_keeps_points_witness:
  "\<exists>j. new_benchmark_journal 3 ''j.txt'' = Some j \<and>
     written (journal_add (empty_point\<lparr>mp_point := PRE_SESSION\<rparr>) (journal_restart
       (fold journal_add [empty_point\<lparr>mp_point := PRE_MAPPING\<rparr>, empty_point\<lparr>mp_point := POST_MAPPING\<rparr>] j))) =
     [empty_point\<lparr>mp_point := PRE_SESSION\<rparr>, empty_point\<lparr>mp_point := POST_MAPPING\<rparr>]"
proof -
  obtain j where j: "new_benchmark_journal 3 ''j.txt'' = Some j" by (simp add: new_benchmark_journal_def)
  from restart_keeps_points [OF this, of "[empty_point\<lparr>mp_point := PRE_MAPPING\<rparr>, empty_point\<lparr>mp_point := POST_MAPPING\<rparr>]"
      "[empty_point\<lparr>mp_point := PRE_SESSION\<rparr>]"]
  show ?thesis using j by (auto simp: empty_point_def)
qed

end
