(* ===== verification/Spec2Isabelle.thy ===== *)
theory Spec2Isabelle
  imports Handshake Wire_Examples Worker_Examples Session_Id_Text Ipap_Xml_Examples Xml_Parser Fast_Queue Installer_Responses
    Benchmark_Journal
begin

text \<open>
  A verification development of the A-NSLP daemon (\<open>src/\<close>): the auctioning NSIS signalling layer protocol, by which
  a node asks the nodes on a path to take part in an auction of network resources and keeps these reservations alive.

  \<^bold>\<open>The program and its parts.\<close> A message of the GIST layer reaches \<open>anslp_daemon::main_loop\<close>, which
  runs in several worker threads. \<open>gistka_mapper\<close> turns it into an event, reading the payload with
  \<open>ANSLP_IEManager\<close> and the message and object classes of \<open>src/src/msg\<close>. \<open>dispatcher::process\<close> looks the
  session of the event up in \<open>session_manager\<close>, creates it when the event may start one, locks it and gives it the
  event. A session is the state machine of one reservation on this node, in one of three roles: initiator (\<open>ni_session\<close>),
  forwarder (\<open>nf_session\<close>) or receiver (\<open>nr_session\<close>). A handler answers with messages to the neighbours,
  timers, and requests to the auctioning application through \<open>auction_rule_installer\<close>. What the application and the
  node exchange are IPAP messages, which \<open>anslp_ipap_xml_message\<close> writes and reads as XML documents.

  \<^bold>\<open>Conventions.\<close> Definitions have the names of the source; the fields of a record are those of the class. Unsigned
  integers are words of their width, C strings and \<open>std::string\<close> are \<open>string\<close>, \<open>std::map\<close> is an association
  list in iteration order with the comparison of the key class (\<open>Std_Map\<close>), pointers that may be null are
  options. \<open>outcome\<close> (\<open>Prelude\<close>) is the end of a call: \<open>Ok\<close> with the value, \<open>Throw\<close> with an exception
  of the source, or \<open>Crash\<close> with the reason for which the C++ program has no defined continuation (failed assertion,
  null pointer, missing return, double deletion, iterator out of its map, use after free, array overflow). A
  handler maps a session and the world to an outcome and the changed session and world, which it keeps also when it throws.
  The \<open>world\<close> records the observable actions in order (messages handed to the mapper, timers, answers, queued
  requests). Sending a message has no result in the source and can only return or stop the process, so that a step of a
  session records its messages and \<open>with_mapper\<close> (\<open>Send_Path\<close>) carries them out afterwards, in their order, with
  the outcome that the interleaved execution has: nothing comes after a stop. The statements about sessions, dispatcher and threads alone
  speak of the step before that; \<open>with_mapper\<close> changes nothing in it but that it may become a \<open>Crash\<close>.
  Statements of the kind ``whatever happens, this holds afterwards'' use \<open>post\<close> with the rules in the
  collection \<open>wp_intro\<close>.

  \<^bold>\<open>Which theory models what.\<close>
  \<^item> \<open>Std_Map\<close>, \<open>Ie_Store\<close>: \<open>std::map\<close> (locales \<open>weak_order\<close> and \<open>linear_keys\<close> are the requirements on
    its comparison) and the object store of every message, \<open>ie_store.cpp\<close>, \<open>ie_object_key.h\<close>.
  \<^item> \<open>Anslp_Message\<close>, \<open>Ntlp_Msg\<close>: the objects and the five message classes of \<open>src/src/msg\<close>, their setters,
    getters and checks; \<open>ntlp_msg.cpp\<close>, responses, the RFC 1982 comparison of sequence numbers.
  \<^item> \<open>Platform\<close>, \<open>World\<close>: session ids, routing information, the record of external functions
    (random ids, hashes, uuid, the clock of timers), and the actions on the outside.
  \<^item> \<open>Auction_Rule\<close>, \<open>Rule_Installer\<close>, \<open>Events\<close>, \<open>Session\<close>: \<open>auction_rule.cpp\<close>, the two
    installers and the queue to the application, \<open>events.h\<close>, and the base class \<open>session.cpp\<close>. The interface
    of an installer is a locale there, interpreted on both installers.
  \<^item> \<open>Ni_Session\<close>, \<open>Nf_Session\<close>, \<open>Nr_Session\<close>: the three state machines, one definition per handler and helper
    of \<open>ni_session.cpp\<close>, \<open>nf_session.cpp\<close>, \<open>nr_session.cpp\<close>.
  \<^item> \<open>Session_Manager\<close>, \<open>Dispatcher\<close>, \<open>Daemon\<close>: the table of sessions, the routing of events, the loop.
  \<^item> \<open>Fast_Queue\<close>, \<open>Installer_Responses\<close>: the queue between the threads of the network installer and the daemon
    (\<open>aqueue.h\<close>, \<open>aqueue.cpp\<close>), and the texts of the application server that the installer takes apart.
  \<^item> \<open>Benchmark_Journal\<close>: \<open>benchmark_journal.cpp\<close>, whose \<open>restart\<close> keeps old points.
  \<^item> \<open>Wire_Format\<close>: \<open>serialize\<close> and \<open>deserialize\<close> of all objects and messages, and \<open>anslp_ie.cpp\<close>;
    \<open>Gistka_Mapper\<close>: both directions of \<open>gistka_mapper.cpp\<close>; \<open>Send_Path\<close>: \<open>dispatcher::send_message\<close> and
    \<open>send_receive_answer\<close> down to the queue of GIST, with the ways in which they stop the process.
  \<^item> \<open>Workers\<close>: the pointers of the session manager, \<open>thread_mutex_lockable.cpp\<close>, and \<open>dispatcher::process\<close> as the
    steps of a thread between two lock operations, interleaved in any order (\<open>node_step\<close>, an inductive relation).
  \<^item> \<open>C_Numbers\<close>, \<open>Session_Id_Text\<close>: the number functions of the C library, and the text form of session ids.
  \<^item> \<open>Ipap_Xml\<close>: \<open>anslp_ipap_message_splitter.cpp\<close>, \<open>xml_object_key.cpp\<close>, and the writer and the reader of
    \<open>anslp_ipap_xml_message.cpp\<close>, as calls of the writer of libxml2 and a walk over the parsed tree; \<open>Xml_Parser\<close>:
    \<open>XMLParserValidate\<close> and \<open>validate\<close> over the functions of libxml2, with what they allocate.
  \<^item> \<open>Example_Node\<close>, \<open>Examples\<close>, \<open>Wire_Examples\<close>, \<open>Worker_Examples\<close>, \<open>Ipap_Xml_Examples\<close>: concrete
    nodes, wires and libraries, on which every hypothesis is shown to hold and the properties are applied.

  \<^bold>\<open>What the lemmas show.\<close>
  \<^item> Sessions (in the session theories and \<open>Ni_Properties\<close>, \<open>Nf_Properties\<close>, \<open>Nr_Properties\<close>): an invariant for each
    kind that holds for a new session and is kept by every event, returned, thrown or crashed; each handler is a step of
    an abstract state machine; what each important event makes the session send; retransmission until the retries are
    used up; exactly when an initiator stops the process, the mapper included (\<open>Ni_Stops\<close>).
  \<^item> Dispatcher and daemon (\<open>Dispatcher\<close>, \<open>Faults\<close>, \<open>Daemon\<close>): the table stays valid, other sessions are untouched,
    exceptions do not get out, which faults a single thread can reach, and how the handling of a message ends.
  \<^item> Wire (\<open>Wire_Properties\<close>, \<open>Wire_Messages\<close>, \<open>Gistka_Properties\<close>): objects and messages are read back as
    they were written and fill the announced size exactly; reading ends on all bytes without a fault; a message
    handed to GIST is the event of the next node; which messages do not arrive. \<open>Wire_Types\<close>: whatever the bytes are, a
    message that is read has the class, types and keys that the sessions rely on.
  \<^item> Threads (\<open>Worker_Properties\<close>): mutual exclusion per session and integrity of table and heap in every interleaving,
    agreement with the sequential dispatcher, the lock that an exception leaves behind, and two races.
  \<^item> XML (\<open>Ipap_Xml_Properties\<close>, \<open>Ipap_Xml_Reader\<close>, \<open>Ipap_Xml_Roundtrip\<close>): the calls of the writer are the
    traversal of a tree, the splitter loses no record, whole messages are read back, and documents that overrun the reader.
  \<^item> \<open>Handshake\<close>: the steps of a session set-up, one lemma for each node a message passes, with GIST between them.
  \<^item> This theory: what spans them: timers that are no longer waited for, and the set-up of a session between two nodes and
    along a path with any number of forwarders.

  \<^bold>\<open>Bounds and fuel.\<close> There is no fuel. The search for an unused session id and the readers of objects, which may not end by
  their form, are \<open>partial_function (option)\<close>; that they return is proved (\<open>unique_id_search\<close>,
  \<open>deserialize_returns\<close>). The other loops are structural. Messages hold at most \<open>2 ^ 17\<close> mspec objects in the statements
  that count them, far above what a buffer of \<open>2 ^ 32\<close> bytes with its 32-bit positions and a 16-bit
  length field carries; the list of finished sessions is cut at \<open>DONE_SESSION_LIST_SIZE\<close> = 300 as in the source.

  \<^bold>\<open>External code.\<close> protlib (\<open>NetMsg\<close>, \<open>IEManager\<close>, GIST), libipap, libxml2, OpenSSL and uuid are not part of the
  repository. They are arguments of the definitions, records of functions (\<open>platform\<close>, \<open>wire\<close>, \<open>ipap_lib\<close>)
  and \<open>send_to\<close>, which says whether the queue of GIST takes a message;
  what the statements need of them are the named hypotheses \<open>netmsg_laws\<close>, \<open>ie_laws\<close>, \<open>exportable\<close>, \<open>uuid_ok\<close>,
  \<open>container_laws\<close> and \<open>builder_laws\<close>, each shown to hold on a concrete instance. In
  \<open>Workers\<close> the code between two lock operations is one step and mutexes are of the normal kind.

  \<^bold>\<open>Not modelled.\<close> Log output and printing of objects; the configuration file parser and the command line; start-up and
  shut-down of the threads and queues of the external libraries in \<open>main.cpp\<close> and \<open>anslp_daemon.cpp\<close>; the HTTP client of
  the network installer (curl and libxslt calls); the parser and the validator inside libxml2; the C functions of the queue below
  \<open>aqueue\<close>. Release of memory is modelled where the code can go wrong with it (the
  receiver's CREATE, the removal of sessions), not elsewhere.
\<close>

section \<open>Timers\<close>

text \<open>The timers that a session listens to; restarting one makes its earlier expiries obsolete.\<close>

definition timers_of :: "'m any_session \<Rightarrow> timer set" where
  "timers_of x = (case x of
       Ni s \<Rightarrow> {ni_response_timer s, ni_refresh_timer s}
     | Nf s \<Rightarrow> {nf_state_timer s, nf_response_timer s}
     | Nr s \<Rightarrow> {nr_state_timer s})"

text \<open>
  C36: the expiry of a timer that a session no longer waits for changes nothing, in every live session of every
  kind and in every state: the session, its state and the world are as before.
\<close>

theorem obsolete_timer_ignored:
  assumes "\<not> is_final x" "t \<notin> timers_of x"
  shows "process d (timer_event i t) (x, w) = (Ok (), x, w)"
proof (cases x)
  case (Ni s)
  then show ?thesis using assms
    by (cases "ni_state s") (simp_all add: process_def timers_of_def is_final_def ni_is_final_def ni_process_event_def
        ni_handle_def ni_handle_state_pending_def ni_handle_state_pending_installing_def ni_handle_state_auctioning_def
        ni_handle_state_pending_teardown_def timer_event_def event_pred_defs)
next
  case (Nf s)
  then show ?thesis using assms
    by (cases "nf_state s") (simp_all add: process_def timers_of_def is_final_def nf_is_final_def nf_process_event_def
        nf_handle_def nf_handle_state_pending_def nf_handle_state_pending_check_def nf_handle_state_pending_installing_def
        nf_handle_state_auctioning_def nf_handle_state_pending_teardown_def timer_event_def
        event_pred_defs)
next
  case (Nr s)
  then show ?thesis using assms
    by (cases "nr_state s") (simp_all add: process_def timers_of_def is_final_def nr_is_final_def nr_process_event_def
        nr_handle_def nr_handle_state_pending_def nr_handle_state_pending_installing_def nr_handle_state_auctioning_def
        nr_handle_state_pending_teardown_def timer_event_def event_pred_defs)
qed

theorem obsolete_timer_ignored_witness:
  "process ex_disp (timer_event ex_id 99) (Ni (ex_ni Ni_pending), ex_world) = (Ok (), Ni (ex_ni Ni_pending), ex_world)"
  by (rule obsolete_timer_ignored)
    (simp_all add: is_final_def ni_is_final_def timers_of_def ex_ni_def new_ni_session_def)

section \<open>Setting up a session\<close>

text \<open>
  Two nodes: a request of the application at one node, the CREATE it causes as GIST carries it to the receiver, and the receiver's
  response as GIST carries it back set the session up at both ends: both messages are written to the wire and
  read back as they were, each of the three steps succeeds, the response is recognised as the answer to the
  CREATE, and both ends agree on the session id and on the lifetime, the requested one cut to the
  receiver's maximum.
\<close>

theorem session_setup_handshake:
  assumes "netmsg_laws L R" "ie_laws L"
    and "ni_inv s" "ni_state s = Ni_close" "ev_data evt = Api_create_event e" "ac_return_queue e"
    and "ac_session_lifetime e \<noteq> 0" "refresh_seconds (ac_session_lifetime e) (ni_retries s) \<noteq> 0"
    and "wf_object_list (plat d) (ac_mspec_objects e)" "list_all (sendable L) (map snd (ac_mspec_objects e))"
    and "length (ac_mspec_objects e) < 2 ^ 17"
    and "\<not> check_participating St_receiver (ac_sel_auct_entities e)" "nr_max_session_lifetime (conf d') \<noteq> 0"
    and "rule_installer d = Nop_auction_rule_installer"
    and "lt = min (ac_session_lifetime e) (nr_max_session_lifetime (conf d'))"
  shows "\<exists>s1 wa m e1 s2 wb m' e2 s3 wc. ni_process_event d evt (s, w) = (Ok (), s1, wa) \<and> sent wa = sent w @ [m] \<and>
    carried L m e1 \<and>
    nr_process_event d' e1 (new_nr_session (sid m) (conf d') random garbage, w') = (Ok (), s2, wb) \<and>
    sent wb = sent w' @ [m'] \<and> carried L m' e2 \<and> ni_process_event d e2 (s1, wa) = (Ok (), s3, wc) \<and>
    ni_state s3 = Ni_pending_installing \<and> nr_state s2 = Nr_auctioning \<and>
    sess_id s3 = sess_id s \<and> sess_id s2 = sess_id s \<and> ni_lifetime s3 = lt \<and> nr_lifetime s2 = lt"
proof -
  let ?m = "new_ntlp_msg (sess_id s) (ni_first_create e s) (api_mri e) 0"
  let ?n = "next_msg_sequence_number (msn s)"
  obtain s1 wa where one: "ni_process_event d evt (s, w) = (Ok (), s1, wa)" "sent wa = sent w @ [?m]" "carried L ?m (arrives ?m)"
    "ni_inv s1" "ni_state s1 = Ni_pending" "ni_last_create_msg s1 = Some ?m" "sess_id s1 = sess_id s"
    using initiator_starts [OF assms(1-11) refl, of w] by blast
  note c = first_create_with [OF assms(9-11) refl, of "sess_id s" s, unfolded create_with_def]
  obtain p where "routing_info ?m = Mri_pathcoupled p" by (simp add: api_mri_def)
  moreover have "lt \<noteq> 0" using assms(7,13,15) by (auto simp: min_def)
  ultimately obtain s2 wb m' where two: "nr_process_event d' (arrives ?m) (new_nr_session (sid ?m) (conf d') random garbage, w') = (Ok (), s2, wb)"
    "sent wb = sent w' @ [m']" "msg m' = Some (success_body lt ?n)" "nr_state s2 = Nr_auctioning" "nr_lifetime s2 = lt" "sess_id s2 = sess_id s"
    using receiver_answers [of ?m "ni_first_create e s" "ac_session_lifetime e" ?n "ac_sel_auct_entities e" p lt d' random garbage w']
      c assms(12,15) by auto
  have "response_with L m' lt ?n {#}" using two(3) by (simp add: response_with_def set_mspec_list_def)
  from answer_accepted [OF assms(1,2) one(4-6) _ _ this _ assms(14), of "ni_first_create e s" wa]
  obtain s3 wc where "carried L m' (arrives m')" "ni_process_event d (arrives m') (s1, wa) = (Ok (), s3, wc)"
    "ni_state s3 = Ni_pending_installing" "ni_lifetime s3 = lt" "sess_id s3 = sess_id s"
    using c one(7) by auto
  then show ?thesis using one(1-3) two by blast
qed

theorem session_setup_handshake_witness:
  "\<exists>s1 wa m e1 s2 wb m' e2 s3 wc.
     ni_process_event (ex_node Nop_auction_rule_installer) (ex_api_create 90) (ex_ni Ni_close, ex_world) = (Ok (), s1, wa) \<and>
     sent wa = sent ex_world @ [m] \<and> carried ex_wire m e1 \<and>
     nr_process_event ex_disp e1 (new_nr_session (sid m) (conf ex_disp) 5 0, ex_world) = (Ok (), s2, wb) \<and>
     sent wb = sent ex_world @ [m'] \<and> carried ex_wire m' e2 \<and>
     ni_process_event (ex_node Nop_auction_rule_installer) e2 (s1, wa) = (Ok (), s3, wc) \<and>
     ni_state s3 = Ni_pending_installing \<and> nr_state s2 = Nr_auctioning \<and>
     sess_id s3 = sess_id (ex_ni Ni_close) \<and> sess_id s2 = sess_id (ex_ni Ni_close) \<and>
     ni_lifetime s3 = 60 \<and> nr_lifetime s2 = 60"
proof (rule session_setup_handshake [OF ex_laws ex_ni_inv])
  show "ni_state (ex_ni Ni_close) = Ni_close" by (simp add: ex_ni_def)
  show "ev_data (ex_api_create 90) = Api_create_event (ex_request 90)" by (simp add: ex_api_create_def)
  show "refresh_seconds (ac_session_lifetime (ex_request 90)) (ni_retries (ex_ni Ni_close)) \<noteq> 0"
    by (simp add: ex_request_def ex_ni_def new_ni_session_def default_config_def refresh_seconds_def)
  show "\<not> check_participating St_receiver (ac_sel_auct_entities (ex_request 90))"
    by (simp add: ex_request_def check_participating_def sme_defs)
  show "60 = min (ac_session_lifetime (ex_request 90)) (nr_max_session_lifetime (conf ex_disp))"
    by (simp add: ex_request_def default_config_def)
  show "list_all (sendable ex_wire) (map snd (ac_mspec_objects (ex_request 90)))"
    using ex_exportable [of 5] by (simp add: ex_request_def sendable_new)
qed (use ex_objects(1) in \<open>simp_all add: ex_request_def mspec_limit_def default_config_def\<close>)

text \<open>
  C1: the set-up along a path with any number of forwarders that do not take part in the auction. The CREATE of the initiator goes from
  node to node, each forwarder sends its own CREATE with the lifetime cut to its maximum; the receiver answers; each forwarder
  keeps the answer until its application has installed the objects, adds them and sends it on; the
  initiator takes it as the answer to its CREATE. Every step on every node succeeds, every message is
  written to the wire and read back as it was, all sessions have the same id, the initiator gets the minimum of the
  requested lifetime and all maxima, and the answer has exactly the objects that the forwarders have installed. A
  forwarder itself keeps the minimum up to its own place (the equations of \<open>answered\<close>): what nodes
  behind it cut off is not taken over from the answer.
\<close>

theorem path_setup:
  assumes "netmsg_laws L R" "ie_laws L"
    and "ni_inv s" "ni_state s = Ni_close" "ev_data evt = Api_create_event e" "ac_return_queue e"
    and "ac_session_lifetime e \<noteq> 0" "refresh_seconds (ac_session_lifetime e) (ni_retries s) \<noteq> 0"
    and "wf_object_list (plat d) (ac_mspec_objects e)" "list_all (sendable L) (map snd (ac_mspec_objects e))"
    and "length (ac_mspec_objects e) < 2 ^ 17" "rule_installer d = Nop_auction_rule_installer"
    and "\<not> check_participating St_forwarder (ac_sel_auct_entities e)" "\<not> check_participating St_receiver (ac_sel_auct_entities e)"
    and "nr_max_session_lifetime (conf d') \<noteq> 0"
    and "\<forall>h \<in> set hs. hop_ready L (length (ac_mspec_objects e)) h" "length hs * length (ac_mspec_objects e) < 2 ^ 17"
  shows "\<exists>s1 wa m m' evt' b objs s2 wb. ni_process_event d evt (s, w) = (Ok (), s1, wa) \<and> sent wa = sent w @ [m] \<and>
    sid m = sess_id s \<and> answered L d' w' drawn hs (ac_session_lifetime e) m m' \<and> sid m' = sess_id s \<and>
    carried L m' evt' \<and> ni_process_event d evt' (s1, wa) = (Ok (), s2, wb) \<and>
    ni_state s2 = Ni_pending_installing \<and> sess_id s2 = sess_id s \<and> ni_lifetime s2 = granted d' hs (ac_session_lifetime e) \<and>
    msg m' = Some b \<and> get_mspec_objects b = Some objs \<and> mset objs = installed hs"
proof -
  let ?m = "new_ntlp_msg (sess_id s) (ni_first_create e s) (api_mri e) 0"
  let ?lt = "granted d' hs (ac_session_lifetime e)" and ?n = "next_msg_sequence_number (msn s)"
  obtain s1 wa where one: "ni_process_event d evt (s, w) = (Ok (), s1, wa)" "sent wa = sent w @ [?m]"
    "ni_inv s1" "ni_state s1 = Ni_pending" "ni_last_create_msg s1 = Some ?m" "sess_id s1 = sess_id s"
    using initiator_starts [OF assms(1-11) refl, of w] by blast
  note c = first_create_with [OF assms(9-11) refl, of "sess_id s" s]
  have objs: "\<forall>obj \<in> set (map snd (ac_mspec_objects e)). sendable L obj \<and> is_mspec obj" "length (map snd (ac_mspec_objects e)) < 2 ^ 17"
    using assms(9-11) by (auto simp: wf_object_list_def list_all_iff)
  obtain m' where m': "answered L d' w' drawn hs (ac_session_lifetime e) ?m m'" "response_with L m' ?lt ?n (installed hs)" "sid m' = sess_id s"
    using path_answers [OF assms(1,2) c objs assms(7,13-15), of hs w' drawn] assms(16,17) by auto
  have size: "size (installed hs) < 2 ^ 17" using installed_size [OF assms(16)] assms(17) by simp
  then obtain b objs where "msg m' = Some b" "get_mspec_objects b = Some objs" "mset objs = installed hs"
    using response_with_objects [OF m'(2)] by blast
  moreover have "msg ?m = Some (ni_first_create e s)" "find_msg_sequence_number (ni_first_create e s) = Some ?n"
    using c by (simp_all add: create_with_def)
  from answer_accepted [OF assms(1,2) one(3-5) this m'(2) size assms(12), of wa]
  obtain s2 wb where "carried L m' (arrives m')" "ni_process_event d (arrives m') (s1, wa) = (Ok (), s2, wb)"
    "ni_state s2 = Ni_pending_installing" "ni_lifetime s2 = ?lt" "sess_id s2 = sess_id s"
    using one(6) by auto
  moreover have "sid ?m = sess_id s" by simp
  ultimately show ?thesis using one(1,2) m'(1,3) by blast
qed

text \<open>Two forwarders whose applications install one object each.\<close>

definition ex_hop :: "u32 \<Rightarrow> nat hop" where
  "ex_hop r = \<lparr>hop_node = ex_disp, hop_world = ex_world, hop_random = r, hop_garbage = 0, hop_install = ex_install,
     hop_objects = ex_one\<rparr>"

lemma ex_hop_ready: "hop_ready ex_wire 1 (ex_hop r)"
proof -
  have "can_install ex_disp ex_world" by (simp add: can_install_def ex_plat_def ex_world_def)
  moreover have "list_all (sendable ex_wire) (map snd ex_one)"
    using ex_exportable [of 5] by (simp add: ex_one_facts sendable_new)
  moreover have "nf_max_session_lifetime default_config \<noteq> 0" by (simp add: default_config_def)
  ultimately show ?thesis
    using ex_one_facts ex_uuid_ok by (simp add: hop_ready_def ex_hop_def ex_install_def)
qed

theorem path_setup_witness:
  "\<exists>s1 wa m m' evt' b objs s2 wb.
     ni_process_event (ex_node Nop_auction_rule_installer) (ex_api_create 90) (ex_ni Ni_close, ex_world) = (Ok (), s1, wa) \<and>
     sent wa = sent ex_world @ [m] \<and> sid m = sess_id (ex_ni Ni_close) \<and>
     answered ex_wire ex_disp ex_world (5, 0) [ex_hop 6, ex_hop 7] 90 m m' \<and> sid m' = sess_id (ex_ni Ni_close) \<and>
     carried ex_wire m' evt' \<and>
     ni_process_event (ex_node Nop_auction_rule_installer) evt' (s1, wa) = (Ok (), s2, wb) \<and>
     ni_state s2 = Ni_pending_installing \<and> sess_id s2 = sess_id (ex_ni Ni_close) \<and>
     ni_lifetime s2 = granted ex_disp [ex_hop 6, ex_hop 7] 90 \<and>
     msg m' = Some b \<and> get_mspec_objects b = Some objs \<and> mset objs = installed [ex_hop 6, ex_hop 7]"
proof -
  have "ac_session_lifetime (ex_request 90) = 90" by (simp add: ex_request_def)
  note on_path = path_setup [OF ex_laws ex_ni_inv [of Ni_close], where evt = "ex_api_create 90" and e = "ex_request 90" and hs = "[ex_hop 6, ex_hop 7]",
      unfolded this]
  show ?thesis
  proof (rule on_path)
    show "ni_state (ex_ni Ni_close) = Ni_close" by (simp add: ex_ni_def)
    show "ev_data (ex_api_create 90) = Api_create_event (ex_request 90)" by (simp add: ex_api_create_def)
    show "refresh_seconds 90 (ni_retries (ex_ni Ni_close)) \<noteq> 0"
      by (simp add: ex_ni_def new_ni_session_def default_config_def refresh_seconds_def)
    show "\<not> check_participating St_receiver (ac_sel_auct_entities (ex_request 90))"
      "\<not> check_participating St_forwarder (ac_sel_auct_entities (ex_request 90))"
      by (simp_all add: ex_request_def check_participating_def sme_defs)
    show "list_all (sendable ex_wire) (map snd (ac_mspec_objects (ex_request 90)))"
      using ex_exportable [of 5] by (simp add: ex_request_def sendable_new)
    show "\<forall>h \<in> set [ex_hop 6, ex_hop 7]. hop_ready ex_wire (length (ac_mspec_objects (ex_request 90))) h"
      using ex_hop_ready by (simp add: ex_request_def)
  qed (use ex_objects(1) in \<open>simp_all add: ex_request_def mspec_limit_def default_config_def\<close>)
qed

end
